(* ===== verification/Prelude.thy ===== *)
theory Prelude
  imports Main "HOL-Library.AList" "HOL-Library.Sublist"
begin

section \<open>Prelude: results, keyed lists and list scans\<close>

text \<open>
  What every component shares.  A Go function that returns a value and an error is a function
  into \<open>'e + 'a\<close> (\<open>Inl\<close> the error); \<open>bind_res\<close> is the early return
  \<open>if err != nil { return err }\<close> and \<open>map_res\<close> a loop that stops at its first error.
  A Go map whose iteration is observable is an association list, read with \<open>map_of\<close> and
  changed with \<open>AList.update\<close> and \<open>AList.delete\<close>.  The loops that remember what they have
  seen in a \<open>map[T]struct{}\<close> are \<open>first_repeat\<close>, whose relation to \<open>distinct\<close> is proved
  once here.  \<open>res_simps\<close> collects the facts that take a result apart.
\<close>

named_theorems res_simps "equations that take apart the result of a fallible function"
named_theorems obj_simps "lookup in an object after the updates the code makes"

subsection \<open>Results\<close>

definition bind_res :: "'e + 'a \<Rightarrow> ('a \<Rightarrow> 'e + 'b) \<Rightarrow> 'e + 'b" where
  "bind_res r f = (case r of Inl e \<Rightarrow> Inl e | Inr x \<Rightarrow> f x)"

lemma bind_res_simps [simp]:
  "bind_res (Inl e) f = Inl e"
  "bind_res (Inr x) f = f x"
  by (simp_all add: bind_res_def)

lemma bind_res_Inr [res_simps]:
  "bind_res r f = Inr y \<longleftrightarrow> (\<exists>x. r = Inr x \<and> f x = Inr y)"
  by (cases r) auto

lemma bind_res_Inl [res_simps]:
  "bind_res r f = Inl e \<longleftrightarrow> r = Inl e \<or> (\<exists>x. r = Inr x \<and> f x = Inl e)"
  by (cases r) auto

text \<open>A guard: \<open>if bad { return err }\<close>.\<close>

definition guard_res :: "bool \<Rightarrow> 'e \<Rightarrow> 'e + unit" where
  "guard_res ok e = (if ok then Inr () else Inl e)"

lemma guard_res_Inr [res_simps]: "guard_res ok e = Inr u \<longleftrightarrow> ok"
  by (simp add: guard_res_def)

lemma guard_res_Inl [res_simps]: "guard_res ok e = Inl e' \<longleftrightarrow> \<not> ok \<and> e' = e"
  by (auto simp: guard_res_def)

primrec map_res :: "('a \<Rightarrow> 'e + 'b) \<Rightarrow> 'a list \<Rightarrow> 'e + 'b list" where
  "map_res f [] = Inr []"
| "map_res f (x # xs) = bind_res (f x) (\<lambda>y. bind_res (map_res f xs) (\<lambda>ys. Inr (y # ys)))"

lemma map_res_Inr [res_simps]:
  "map_res f xs = Inr ys \<longleftrightarrow> list_all2 (\<lambda>x y. f x = Inr y) xs ys"
proof (induction xs arbitrary: ys)
  case Nil
  show ?case by auto
next
  case (Cons x xs)
  then show ?case by (cases ys) (auto simp: bind_res_Inr)
qed

lemma map_res_length: "map_res f xs = Inr ys \<Longrightarrow> length ys = length xs"
  by (auto simp: map_res_Inr dest: list_all2_lengthD)

lemma map_res_mem:
  assumes "map_res f xs = Inr ys" and "y \<in> set ys"
  shows "\<exists>x\<in>set xs. f x = Inr y"
proof -
  from assms have "list_all2 (\<lambda>x y. f x = Inr y) xs ys" by (simp add: map_res_Inr)
  then show ?thesis using assms(2) by (induction rule: list_all2_induct) auto
qed

subsection \<open>Scans that remember what they have seen\<close>

fun first_repeat :: "'a list \<Rightarrow> 'a list \<Rightarrow> 'a option" where
  "first_repeat seen [] = None"
| "first_repeat seen (x # xs) =
     (if x \<in> set seen then Some x else first_repeat (x # seen) xs)"

lemma first_repeat_None:
  "first_repeat seen xs = None \<longleftrightarrow> distinct xs \<and> set xs \<inter> set seen = {}"
  by (induction seen xs rule: first_repeat.induct) auto

lemma first_repeat_Some:
  "first_repeat seen xs = Some x \<Longrightarrow> x \<in> set xs"
  by (induction seen xs rule: first_repeat.induct) (auto split: if_splits)

lemma first_repeat_Some_repeats:
  "first_repeat seen xs = Some x \<Longrightarrow> x \<in> set seen \<or> 2 \<le> count_list xs x"
proof (induction seen xs rule: first_repeat.induct)
  case (1 seen)
  then show ?case by simp
next
  case (2 seen y xs)
  show ?case
  proof (cases "y \<in> set seen")
    case True
    with 2(2) show ?thesis by auto
  next
    case False
    then have rest: "first_repeat (y # seen) xs = Some x" using 2(2) by simp
    have "0 < count_list xs x"
      using first_repeat_Some [OF rest] by (simp add: count_list_0_iff neq0_conv [symmetric])
    with 2(1) [OF False rest] show ?thesis by auto
  qed
qed

subsection \<open>Keyed lists\<close>

lemma map_of_update [obj_simps, simp]:
  "map_of (AList.update k v d) k' = (if k' = k then Some v else map_of d k')"
  by (simp add: update_conv')

lemma map_of_delete [obj_simps, simp]:
  "map_of (AList.delete k d) k' = (if k' = k then None else map_of d k')"
  by (simp add: delete_conv')

lemma map_of_filter_key [obj_simps]:
  "map_of (filter (\<lambda>(k, v). P k) d) k = (if P k then map_of d k else None)"
  by (induction d) auto

lemma update_same: "map_of d k = Some v \<Longrightarrow> AList.update k v d = d"
  by (induction d) (auto split: if_splits)

lemma delete_absent: "map_of d k = None \<Longrightarrow> AList.delete k d = d"
  by (induction d) auto

lemma delete_delete [simp]: "AList.delete k (AList.delete k d) = AList.delete k d"
  by (simp add: delete_absent)

lemma update_update [simp]: "AList.update k v (AList.update k w d) = AList.update k v d"
  by (induction d) auto

lemma delete_update [simp]: "AList.delete k (AList.update k v d) = AList.delete k d"
  by (induction d) auto

end
