(* ===== verification/Json.thy ===== *)
theory Json
  imports Prelude
begin

section \<open>Decoded JSON values\<close>

text \<open>
  The \<open>any\<close> values \<open>encoding/json\<close> produces: an object (\<open>map[string]any\<close>) is its list of
  members, a number is kept as its literal (\<open>json.Number\<close>).  \<open>get_obj\<close>, \<open>get_arr\<close> and
  \<open>get_str\<close> are the type assertions \<open>v, ok := object[key].(T)\<close>: \<open>None\<close> is \<open>!ok\<close>, for a
  missing member and for one of another type alike.  \<open>Depth\<close> is \<open>internal/jsonvalue\<close>.
\<close>

datatype json =
    JNull
  | JBool bool
  | JNum string
  | JStr string
  | JArr "json list"
  | JObj "(string \<times> json) list"

type_synonym obj = "(string \<times> json) list"

definition get_obj :: "obj \<Rightarrow> string \<Rightarrow> obj option" where
  "get_obj d k = (case map_of d k of Some (JObj m) \<Rightarrow> Some m | _ \<Rightarrow> None)"

definition get_arr :: "obj \<Rightarrow> string \<Rightarrow> json list option" where
  "get_arr d k = (case map_of d k of Some (JArr xs) \<Rightarrow> Some xs | _ \<Rightarrow> None)"

definition get_str :: "obj \<Rightarrow> string \<Rightarrow> string option" where
  "get_str d k = (case map_of d k of Some (JStr s) \<Rightarrow> Some s | _ \<Rightarrow> None)"

lemma get_obj_Some: "get_obj d k = Some m \<longleftrightarrow> map_of d k = Some (JObj m)"
  by (auto simp: get_obj_def split: option.splits json.splits)

lemma get_arr_Some: "get_arr d k = Some xs \<longleftrightarrow> map_of d k = Some (JArr xs)"
  by (auto simp: get_arr_def split: option.splits json.splits)

lemma get_str_Some: "get_str d k = Some s \<longleftrightarrow> map_of d k = Some (JStr s)"
  by (auto simp: get_str_def split: option.splits json.splits)

text \<open>The three assertions read a member through \<open>map_of\<close> only.\<close>

lemma get_cong:
  assumes "map_of d k = map_of d' k"
  shows "get_obj d k = get_obj d' k" "get_arr d k = get_arr d' k" "get_str d k = get_str d' k"
  using assms by (simp_all add: get_obj_def get_arr_def get_str_def)

lemma get_update [obj_simps]:
  "get_obj (AList.update k v d) k' =
     (if k' = k then (case v of JObj m \<Rightarrow> Some m | _ \<Rightarrow> None) else get_obj d k')"
  "get_arr (AList.update k v d) k' =
     (if k' = k then (case v of JArr xs \<Rightarrow> Some xs | _ \<Rightarrow> None) else get_arr d k')"
  "get_str (AList.update k v d) k' =
     (if k' = k then (case v of JStr s \<Rightarrow> Some s | _ \<Rightarrow> None) else get_str d k')"
  by (simp_all add: get_obj_def get_arr_def get_str_def split: json.splits)

lemma get_delete [obj_simps]:
  "get_obj (AList.delete k d) k' = (if k' = k then None else get_obj d k')"
  "get_arr (AList.delete k d) k' = (if k' = k then None else get_arr d k')"
  "get_str (AList.delete k d) k' = (if k' = k then None else get_str d k')"
  by (simp_all add: get_obj_def get_arr_def get_str_def)

subsection \<open>Nesting depth\<close>

text \<open>
  \<open>Depth\<close> walks the value with an explicit stack of pending entries.  The head of the list is
  the top of the stack: the code pops the last element of its slice and appends the children,
  so the last child becomes the new top.
\<close>

fun children :: "json \<Rightarrow> json list" where
  "children (JArr xs) = xs"
| "children (JObj ms) = map snd ms"
| "children _ = []"

text \<open>A size that also counts the members of objects, for the termination of the walk.\<close>

fun json_nodes :: "json \<Rightarrow> nat" where
  "json_nodes (JArr xs) = Suc (sum_list (map json_nodes xs))"
| "json_nodes (JObj ms) = Suc (sum_list (map (\<lambda>m. json_nodes (snd m)) ms))"
| "json_nodes _ = 1"

lemma json_nodes_children: "json_nodes v = Suc (sum_list (map json_nodes (children v)))"
  by (cases v) (simp_all add: o_def)

function depth_loop :: "(nat \<times> json) list \<Rightarrow> nat \<Rightarrow> nat" where
  "depth_loop [] maximum = maximum"
| "depth_loop ((depth, v) # pending) maximum =
     depth_loop (rev (map (\<lambda>child. (depth + 1, child)) (children v)) @ pending)
       (max maximum depth)"
  by pat_completeness auto
termination
proof (relation "measure (\<lambda>(pending, maximum). sum_list (map (\<lambda>e. json_nodes (snd e)) pending))")
  fix depth maximum :: nat and v :: json and pending :: "(nat \<times> json) list"
  have "sum_list (map (\<lambda>e. json_nodes (snd e)) (rev (map (\<lambda>c. (depth + 1, c)) (children v))))
      < json_nodes v"
    by (simp add: json_nodes_children [of v] rev_map [symmetric] o_def sum_list_rev)
  then show "((rev (map (\<lambda>child. (depth + 1, child)) (children v)) @ pending, max maximum depth),
      (depth, v) # pending, maximum)
    \<in> measure (\<lambda>(pending, maximum). sum_list (map (\<lambda>e. json_nodes (snd e)) pending))"
    by simp
qed simp

text \<open>\<open>decoded\<close> is what the decoder made of the bytes; \<open>None\<close> is a decoding error.\<close>

definition Depth :: "json option \<Rightarrow> nat" where
  "Depth decoded = (case decoded of None \<Rightarrow> 0 | Some v \<Rightarrow> depth_loop [(1, v)] 1)"

text \<open>The structural depth the walk is to compute.\<close>

fun json_depth :: "json \<Rightarrow> nat" where
  "json_depth (JArr xs) = Suc (foldr max (map json_depth xs) 0)"
| "json_depth (JObj ms) = Suc (foldr max (map (\<lambda>m. json_depth (snd m)) ms) 0)"
| "json_depth _ = 1"

lemma json_depth_children: "json_depth v = Suc (foldr max (map json_depth (children v)) 0)"
  by (cases v) (simp_all add: o_def)

lemma foldr_max_append: "foldr max (xs @ ys) (0::nat) = max (foldr max xs 0) (foldr max ys 0)"
  by (induction xs) auto

lemma foldr_max_rev [simp]: "foldr max (rev xs) (0::nat) = foldr max xs 0"
  by (induction xs) (simp_all add: foldr_max_append max.commute del: foldr_append)

lemma foldr_max_add:
  "xs \<noteq> [] \<Longrightarrow> foldr max (map (\<lambda>x. d + f x) xs) (0::nat) = d + foldr max (map f xs) 0"
  by (induction xs rule: induct_list012) auto

lemma foldr_max_ge_depth: "0 < json_depth v"
  by (subst json_depth_children) simp

text \<open>
  The walk's invariant: the answer is the deepest of the maximum so far and, for each pending
  entry, its depth plus what its value adds below it.
\<close>

lemma depth_loop_eq:
  assumes "\<forall>e\<in>set pending. 1 \<le> fst e"
  shows "depth_loop pending maximum =
     max maximum (foldr max (map (\<lambda>e. fst e - 1 + json_depth (snd e)) pending) 0)"
  using assms
proof (induction pending maximum rule: depth_loop.induct)
  case (1 maximum)
  show ?case by simp
next
  case (2 depth v pending maximum)
  let ?kids = "foldr max (map (\<lambda>c. depth + json_depth c) (children v)) 0"
  let ?rest = "foldr max (map (\<lambda>e. fst e - 1 + json_depth (snd e)) pending) 0"
  from 2(2) have d: "1 \<le> depth" and rest: "\<forall>e\<in>set pending. Suc 0 \<le> fst e" by simp_all
  have kids: "max depth ?kids = depth - 1 + json_depth v"
  proof (cases "children v = []")
    case True
    then show ?thesis using d by (simp add: json_depth_children [of v])
  next
    case False
    then show ?thesis using d by (simp add: json_depth_children [of v] foldr_max_add)
  qed
  have "depth_loop ((depth, v) # pending) maximum = max (max maximum depth) (max ?kids ?rest)"
    using 2(1) rest by (simp add: ball_Un foldr_max_append rev_map [symmetric] o_def del: foldr_append)
  also have "\<dots> = max maximum (max (max depth ?kids) ?rest)"
    by (simp only: max.assoc)
  finally show ?case by (simp only: kids) simp
qed

text \<open>\<open>Depth\<close> computes the nesting depth of the decoded value: a scalar and an empty
  container have depth 1, every container adds one to its deepest child, and input that does
  not decode has depth 0.\<close>

theorem Depth_is_structural_depth:
  "Depth (Some v) = json_depth v \<and> Depth None = 0"
  using foldr_max_ge_depth [of v]
  by (simp add: Depth_def depth_loop_eq Suc_le_eq del: depth_loop.simps)

end
