(* ===== verification/GoStrings.thy ===== *)
theory GoStrings
  imports Prelude
begin

section \<open>Go strings\<close>

text \<open>
  A Go \<open>string\<close> is a list of bytes, here \<open>char list\<close>; \<open>length\<close> is \<open>len\<close>.  The functions of
  package \<open>strings\<close> the code uses are written out on bytes, and those that work on runes go
  through \<open>decode_runes\<close>, Go's UTF-8 decoding: an invalid byte is the rune U+FFFD of width one.

  Letter case.  \<open>ToLower\<close> and \<open>EqualFold\<close> are exact on ASCII and on the three characters outside
  ASCII that fold into it (U+0130, U+017F, U+212A); every other character is left as it is.
  Each use in the code compares the result with an ASCII constant or an ASCII-only value
  (a language tag, a host name, a header token), for which this is all that matters.
\<close>

abbreviation byte :: "char \<Rightarrow> nat" where
  "byte c \<equiv> of_char c"

subsection \<open>Prefixes, suffixes, splitting and joining\<close>

definition has_prefix :: "string \<Rightarrow> string \<Rightarrow> bool" where
  "has_prefix s p \<longleftrightarrow> take (length p) s = p"

definition has_suffix :: "string \<Rightarrow> string \<Rightarrow> bool" where
  "has_suffix s p \<longleftrightarrow> length p \<le> length s \<and> drop (length s - length p) s = p"

definition trim_prefix :: "string \<Rightarrow> string \<Rightarrow> string" where
  "trim_prefix s p = (if has_prefix s p then drop (length p) s else s)"

definition trim_suffix :: "string \<Rightarrow> string \<Rightarrow> string" where
  "trim_suffix s p = (if has_suffix s p then take (length s - length p) s else s)"

lemma has_prefix_append [simp]: "has_prefix (p @ s) p"
  by (simp add: has_prefix_def)

lemma has_prefix_iff: "has_prefix s p \<longleftrightarrow> (\<exists>t. s = p @ t)"
  by (metis append_eq_conv_conj append_take_drop_id has_prefix_def)

lemma has_prefix_Cons [simp]: "has_prefix (c # s) (d # p) \<longleftrightarrow> c = d \<and> has_prefix s p"
  by (simp add: has_prefix_def)

lemma has_prefix_Nil [simp]: "has_prefix s []" "has_prefix [] (d # p) = False"
  by (simp_all add: has_prefix_def)

lemma has_prefix_cancel [simp]: "has_prefix (p @ s) (p @ q) \<longleftrightarrow> has_prefix s q"
  by (auto simp: has_prefix_iff)

lemma has_suffix_iff: "has_suffix s p \<longleftrightarrow> (\<exists>t. s = t @ p)"
proof
  assume "has_suffix s p"
  then have "s = take (length s - length p) s @ p"
    by (metis append_take_drop_id has_suffix_def)
  then show "\<exists>t. s = t @ p" by blast
qed (auto simp: has_suffix_def)

lemma trim_prefix_append [simp]: "trim_prefix (p @ s) p = s"
  by (simp add: trim_prefix_def)

lemma trim_suffix_append [simp]: "trim_suffix (s @ p) p = s"
  by (simp add: trim_suffix_def has_suffix_iff)

text \<open>\<open>strings.Contains\<close>, and \<open>strings.ContainsRune\<close> of an ASCII character.\<close>

fun contains_str :: "string \<Rightarrow> string \<Rightarrow> bool" where
  "contains_str [] p = (p = [])"
| "contains_str (c # s) p = (has_prefix (c # s) p \<or> contains_str s p)"

lemma contains_char [simp]: "contains_str s [c] \<longleftrightarrow> c \<in> set s"
  by (induction s) (auto simp: has_prefix_def)

text \<open>\<open>strings.Split\<close> with a one-byte separator, and \<open>strings.Join\<close>.\<close>

fun split_on :: "char \<Rightarrow> string \<Rightarrow> string list" where
  "split_on c [] = [[]]"
| "split_on c (x # xs) =
     (if x = c then [] # split_on c xs
      else (case split_on c xs of [] \<Rightarrow> [[x]] | p # ps \<Rightarrow> (x # p) # ps))"

fun join_with :: "string \<Rightarrow> string list \<Rightarrow> string" where
  "join_with sep [] = []"
| "join_with sep [x] = x"
| "join_with sep (x # y # ys) = x @ sep @ join_with sep (y # ys)"

lemma split_on_nonempty [simp]: "split_on c s \<noteq> []"
  by (induction s) (auto split: list.splits)

lemma join_split [simp]: "join_with [c] (split_on c s) = s"
proof (induction s)
  case (Cons x xs)
  have push: "join_with [c] ((y # p) # ps) = y # join_with [c] (p # ps)" for y p ps
    by (cases ps) simp_all
  from Cons show ?case by (cases "split_on c xs") (auto simp: push neq_Nil_conv)
qed simp

lemma split_on_no_sep: "c \<notin> set s \<Longrightarrow> split_on c s = [s]"
  by (induction s) auto

lemma split_on_append: "c \<notin> set s \<Longrightarrow> split_on c (s @ c # t) = s # split_on c t"
  by (induction s) auto

lemma split_join:
  assumes "xs \<noteq> []" and "\<forall>x\<in>set xs. c \<notin> set x"
  shows "split_on c (join_with [c] xs) = xs"
  using assms
  by (induction "[c]" xs rule: join_with.induct) (auto simp: split_on_no_sep split_on_append)

lemma split_on_parts_no_sep: "x \<in> set (split_on c s) \<Longrightarrow> c \<notin> set x"
  by (induction s arbitrary: x) (auto split: if_splits list.splits)

text \<open>\<open>strings.Cut\<close> and the part before the first or after the last separator.\<close>

fun cut :: "char \<Rightarrow> string \<Rightarrow> string \<times> string \<times> bool" where
  "cut c [] = ([], [], False)"
| "cut c (x # xs) =
     (if x = c then ([], xs, True)
      else (case cut c xs of (before, after, found) \<Rightarrow> (x # before, after, found)))"

lemma cut_append: "c \<notin> set s \<Longrightarrow> cut c (s @ c # t) = (s, t, True)"
  by (induction s) auto

lemma cut_absent: "c \<notin> set s \<Longrightarrow> cut c s = (s, [], False)"
  by (induction s) auto

text \<open>\<open>strings.LastIndex\<close> of a byte: \<open>None\<close> for -1.\<close>

fun last_index :: "char \<Rightarrow> string \<Rightarrow> nat option" where
  "last_index c [] = None"
| "last_index c (x # xs) =
     (case last_index c xs of Some i \<Rightarrow> Some (Suc i) | None \<Rightarrow> if x = c then Some 0 else None)"

lemma last_index_None: "last_index c s = None \<longleftrightarrow> c \<notin> set s"
  by (induction s) (auto split: option.splits if_splits)

lemma last_index_Some:
  "last_index c s = Some i \<Longrightarrow> i < length s \<and> s ! i = c \<and> c \<notin> set (drop (Suc i) s)"
proof (induction s arbitrary: i)
  case (Cons x xs)
  then show ?case
    by (cases "last_index c xs") (auto simp: last_index_None split: if_splits)
qed simp

text \<open>\<open>strings.ReplaceAll\<close> of one byte by a string.\<close>

definition replace_all :: "string \<Rightarrow> char \<Rightarrow> string \<Rightarrow> string" where
  "replace_all s c r = concat (map (\<lambda>x. if x = c then r else [x]) s)"

lemma replace_all_simps [simp]:
  "replace_all [] c r = []"
  "replace_all (x # s) c r = (if x = c then r else [x]) @ replace_all s c r"
  by (simp_all add: replace_all_def)

subsection \<open>UTF-8\<close>

text \<open>
  \<open>utf8.DecodeRune\<close>: the rune at the head of the bytes and its width.  The second byte's range
  depends on the first (no overlong forms, no surrogates, nothing above U+10FFFF).
\<close>

definition cont_byte :: "nat \<Rightarrow> bool" where
  "cont_byte b \<longleftrightarrow> 128 \<le> b \<and> b \<le> 191"

definition second_range :: "nat \<Rightarrow> nat \<times> nat" where
  "second_range b =
     (if b = 224 then (160, 191) else if b = 237 then (128, 159)
      else if b = 240 then (144, 191) else if b = 244 then (128, 143) else (128, 191))"

definition in_second_range :: "nat \<Rightarrow> nat \<Rightarrow> bool" where
  "in_second_range b c \<longleftrightarrow> fst (second_range b) \<le> c \<and> c \<le> snd (second_range b)"

definition rune_error :: nat where "rune_error = 65533"

fun decode_rune :: "string \<Rightarrow> nat \<times> nat" where
  "decode_rune [] = (rune_error, 0)"
| "decode_rune (a # s) =
     (let b = byte a in
      if b < 128 then (b, 1)
      else if b < 194 \<or> 244 < b then (rune_error, 1)
      else if b < 224 then
        (case s of
           c # _ \<Rightarrow> if cont_byte (byte c) then ((b - 192) * 64 + (byte c - 128), 2)
                     else (rune_error, 1)
         | _ \<Rightarrow> (rune_error, 1))
      else if b < 240 then
        (case s of
           c # d # _ \<Rightarrow>
             if in_second_range b (byte c) \<and> cont_byte (byte d)
             then ((b - 224) * 4096 + (byte c - 128) * 64 + (byte d - 128), 3)
             else (rune_error, 1)
         | _ \<Rightarrow> (rune_error, 1))
      else
        (case s of
           c # d # e # _ \<Rightarrow>
             if in_second_range b (byte c) \<and> cont_byte (byte d) \<and> cont_byte (byte e)
             then ((b - 240) * 262144 + (byte c - 128) * 4096 + (byte d - 128) * 64
                     + (byte e - 128), 4)
             else (rune_error, 1)
         | _ \<Rightarrow> (rune_error, 1)))"

text \<open>The runes of a string, each with the bytes it was read from.\<close>

lemma decode_rune_width: "s \<noteq> [] \<Longrightarrow> 0 < snd (decode_rune s)"
  by (cases s) (auto simp: Let_def split: list.splits)

function rune_spans :: "string \<Rightarrow> (nat \<times> string) list" where
  "rune_spans s =
     (if s = [] then []
      else (fst (decode_rune s), take (snd (decode_rune s)) s)
             # rune_spans (drop (snd (decode_rune s)) s))"
  by pat_completeness auto
termination
  by (relation "measure length") (simp_all add: decode_rune_width)

declare rune_spans.simps [simp del]

lemma rune_spans_concat: "concat (map snd (rune_spans s)) = s"
proof (induction s rule: rune_spans.induct)
  case (1 s)
  then show ?case by (subst rune_spans.simps) simp
qed

definition decode_runes :: "string \<Rightarrow> nat list" where
  "decode_runes s = map fst (rune_spans s)"

text \<open>\<open>utf8.RuneCountInString\<close> and \<open>utf8.Valid\<close>.\<close>

definition rune_count :: "string \<Rightarrow> nat" where
  "rune_count s = length (rune_spans s)"

definition utf8_valid :: "string \<Rightarrow> bool" where
  "utf8_valid s \<longleftrightarrow> (\<forall>(r, bs)\<in>set (rune_spans s). \<not> (r = rune_error \<and> length bs = 1))"

text \<open>\<open>utf8.AppendRune\<close>.\<close>

definition encode_rune :: "nat \<Rightarrow> string" where
  "encode_rune r =
     (if r < 128 then [char_of r]
      else if r < 2048 then [char_of (192 + r div 64), char_of (128 + r mod 64)]
      else if r < 65536 then
        [char_of (224 + r div 4096), char_of (128 + r div 64 mod 64), char_of (128 + r mod 64)]
      else
        [char_of (240 + r div 262144), char_of (128 + r div 4096 mod 64),
         char_of (128 + r div 64 mod 64), char_of (128 + r mod 64)])"

text \<open>\<open>strings.Map\<close>: an invalid byte is mapped as U+FFFD and written back as its encoding.\<close>

definition map_runes :: "(nat \<Rightarrow> nat) \<Rightarrow> string \<Rightarrow> string" where
  "map_runes f s = concat (map (\<lambda>r. encode_rune (f r)) (decode_runes s))"

definition ascii :: "string \<Rightarrow> bool" where
  "ascii s \<longleftrightarrow> (\<forall>c\<in>set s. byte c < 128)"

lemma rune_spans_Nil [simp]: "rune_spans [] = []"
  by (simp add: rune_spans.simps)

lemma rune_spans_ascii_Cons:
  "byte c < 128 \<Longrightarrow> rune_spans (c # s) = (byte c, [c]) # rune_spans s"
  by (subst rune_spans.simps) simp

lemma rune_spans_ascii: "ascii s \<Longrightarrow> rune_spans s = map (\<lambda>c. (byte c, [c])) s"
  by (induction s) (auto simp: ascii_def rune_spans_ascii_Cons)

lemma decode_runes_ascii: "ascii s \<Longrightarrow> decode_runes s = map of_char s"
  by (simp add: decode_runes_def rune_spans_ascii)

lemma rune_count_ascii: "ascii s \<Longrightarrow> rune_count s = length s"
  by (simp add: rune_count_def rune_spans_ascii)

lemma utf8_valid_ascii: "ascii s \<Longrightarrow> utf8_valid s"
  by (auto simp: utf8_valid_def rune_spans_ascii ascii_def rune_error_def)

lemma map_runes_ascii:
  assumes "ascii s" and "\<And>c. c \<in> set s \<Longrightarrow> f (byte c) < 128"
  shows "map_runes f s = map (\<lambda>c. char_of (f (byte c))) s"
  using assms
  by (auto simp: map_runes_def decode_runes_ascii encode_rune_def o_def cong: map_cong)

subsection \<open>Letter case\<close>

definition lower_rune :: "nat \<Rightarrow> nat" where
  "lower_rune r =
     (if 65 \<le> r \<and> r \<le> 90 then r + 32
      else if r = 304 then 105 else if r = 8490 then 107 else r)"

definition to_lower :: "string \<Rightarrow> string" where
  "to_lower s = map_runes lower_rune s"

definition to_upper_ascii :: "string \<Rightarrow> string" where
  "to_upper_ascii s = map (\<lambda>c. if 97 \<le> byte c \<and> byte c \<le> 122 then char_of (byte c - 32) else c) s"

definition fold_rune :: "nat \<Rightarrow> nat" where
  "fold_rune r =
     (if 65 \<le> r \<and> r \<le> 90 then r + 32 else if r = 383 then 115 else if r = 8490 then 107 else r)"

definition equal_fold :: "string \<Rightarrow> string \<Rightarrow> bool" where
  "equal_fold s t \<longleftrightarrow> map fold_rune (decode_runes s) = map fold_rune (decode_runes t)"

lemma equal_fold_refl [simp]: "equal_fold s s"
  by (simp add: equal_fold_def)

lemma equal_fold_sym: "equal_fold s t \<longleftrightarrow> equal_fold t s"
  by (auto simp: equal_fold_def)

lemma equal_fold_trans: "equal_fold s t \<Longrightarrow> equal_fold t u \<Longrightarrow> equal_fold s u"
  by (simp add: equal_fold_def)

lemma to_lower_ascii:
  "ascii s \<Longrightarrow> to_lower s = map (\<lambda>c. char_of (lower_rune (byte c))) s"
  unfolding to_lower_def
  by (rule map_runes_ascii) (auto simp: lower_rune_def ascii_def)

text \<open>Code equations that decide the common cases on characters alone, for evaluation.\<close>

definition caseless :: string where
  "caseless = ''abcdefghijklmnopqrstuvwxyz0123456789.-_~/:;,*+=?&@ ''"

lemma caseless_lower: "c \<in> set caseless \<Longrightarrow> byte c < 128 \<and> char_of (lower_rune (byte c)) = c"
proof -
  have "list_all (\<lambda>c. byte c < 128 \<and> \<not> (65 \<le> byte c \<and> byte c \<le> 90)) caseless"
    by (simp add: caseless_def)
  then show "c \<in> set caseless \<Longrightarrow> byte c < 128 \<and> char_of (lower_rune (byte c)) = c"
    by (auto simp: list_all_iff lower_rune_def)
qed

lemma to_lower_code [code]:
  "to_lower s = (if list_all (\<lambda>c. c \<in> set caseless) s then s else map_runes lower_rune s)"
proof (cases "list_all (\<lambda>c. c \<in> set caseless) s")
  case True
  then have "ascii s" "map (\<lambda>c. char_of (lower_rune (byte c))) s = s"
    using caseless_lower by (auto simp: ascii_def list_all_iff map_idI)
  with True show ?thesis by (simp add: to_lower_ascii)
qed (simp add: to_lower_def)

lemma equal_fold_code [code]:
  "equal_fold s t \<longleftrightarrow> s = t \<or> map fold_rune (decode_runes s) = map fold_rune (decode_runes t)"
  by (auto simp: equal_fold_def)

text \<open>On ASCII, folding and lowering are the same comparison.\<close>

lemma equal_fold_ascii:
  assumes "ascii s" and "ascii t"
  shows "equal_fold s t \<longleftrightarrow> to_lower s = to_lower t"
proof -
  have lower: "fold_rune (byte c) = of_char (char_of (lower_rune (byte c)))"
    if "byte c < 128" for c
    using that by (simp add: fold_rune_def lower_rune_def of_char_of take_bit_eq_mod)
  have fold: "map fold_rune (decode_runes u) = map of_char (to_lower u)" if "ascii u" for u
    using that by (simp add: decode_runes_ascii to_lower_ascii lower ascii_def)
  have inj: "map of_char x = (map of_char y :: nat list) \<longleftrightarrow> x = y" for x y
    by (simp add: inj_map_eq_map inj_of_char)
  show ?thesis by (simp add: equal_fold_def fold [OF assms(1)] fold [OF assms(2)] inj)
qed

subsection \<open>White space\<close>

text \<open>\<open>unicode.IsSpace\<close>.\<close>

definition is_space :: "nat \<Rightarrow> bool" where
  "is_space r \<longleftrightarrow> (9 \<le> r \<and> r \<le> 13) \<or> r = 32 \<or> r = 133 \<or> r = 160 \<or> r = 5760 \<or>
     (8192 \<le> r \<and> r \<le> 8202) \<or> r = 8232 \<or> r = 8233 \<or> r = 8239 \<or> r = 8287 \<or> r = 12288"

text \<open>\<open>strings.TrimSpace\<close> and \<open>strings.Fields\<close>.\<close>

definition trim_space :: "string \<Rightarrow> string" where
  "trim_space s =
     concat (map snd
       (rev (dropWhile (\<lambda>e. is_space (fst e))
         (rev (dropWhile (\<lambda>e. is_space (fst e)) (rune_spans s))))))"

fun fields_from :: "(nat \<times> string) list \<Rightarrow> string \<Rightarrow> string list" where
  "fields_from [] acc = (if acc = [] then [] else [acc])"
| "fields_from ((r, bs) # es) acc =
     (if is_space r then (if acc = [] then fields_from es [] else acc # fields_from es [])
      else fields_from es (acc @ bs))"

definition fields :: "string \<Rightarrow> string list" where
  "fields s = fields_from (rune_spans s) []"

text \<open>\<open>strings.Trim(s, cutset)\<close> for a cutset of ASCII characters.\<close>

definition trim_chars :: "char list \<Rightarrow> string \<Rightarrow> string" where
  "trim_chars cs s =
     rev (dropWhile (\<lambda>c. c \<in> set cs) (rev (dropWhile (\<lambda>c. c \<in> set cs) s)))"

lemma trim_space_ascii:
  assumes "ascii s"
  shows "trim_space s =
    rev (dropWhile (\<lambda>c. is_space (byte c)) (rev (dropWhile (\<lambda>c. is_space (byte c)) s)))"
proof -
  have drop: "dropWhile (\<lambda>e. is_space (fst e)) (map (\<lambda>c. (byte c, [c])) t) =
      map (\<lambda>c. (byte c, [c])) (dropWhile (\<lambda>c. is_space (byte c)) t)" for t
    by (simp add: dropWhile_map o_def)
  have flat: "concat (map snd (map (\<lambda>c. (byte c, [c])) t)) = t" for t
    by (induction t) auto
  show ?thesis
    unfolding trim_space_def rune_spans_ascii [OF assms] drop rev_map drop
    by (simp only: rev_map flat)
qed

lemma trim_space_no_space:
  assumes "ascii s" and "\<forall>c\<in>set s. \<not> is_space (byte c)"
  shows "trim_space s = s"
proof -
  have drop: "dropWhile (\<lambda>c. is_space (byte c)) t = t" if "set t \<subseteq> set s" for t
    using that assms(2) by (cases t) auto
  show ?thesis by (simp add: trim_space_ascii [OF assms(1)] drop)
qed

subsection \<open>Numbers and character classes\<close>

definition is_digit :: "char \<Rightarrow> bool" where
  "is_digit c \<longleftrightarrow> 48 \<le> byte c \<and> byte c \<le> 57"

definition is_upper :: "char \<Rightarrow> bool" where
  "is_upper c \<longleftrightarrow> 65 \<le> byte c \<and> byte c \<le> 90"

definition is_lower :: "char \<Rightarrow> bool" where
  "is_lower c \<longleftrightarrow> 97 \<le> byte c \<and> byte c \<le> 122"

definition digit_value :: "char \<Rightarrow> nat" where
  "digit_value c = byte c - 48"

text \<open>The value of a string of decimal digits.\<close>

definition decimal_value :: "string \<Rightarrow> nat" where
  "decimal_value s = foldl (\<lambda>n c. 10 * n + digit_value c) 0 s"

text \<open>\<open>strconv.Itoa\<close> of a non-negative integer.\<close>

fun nat_digits :: "nat \<Rightarrow> string" where
  "nat_digits n =
     (if n < 10 then [char_of (48 + n)] else nat_digits (n div 10) @ [char_of (48 + n mod 10)])"

declare nat_digits.simps [simp del]

lemma nat_digits_all: "list_all is_digit (nat_digits n)"
proof (induction n rule: nat_digits.induct)
  case (1 n)
  show ?case
    by (subst nat_digits.simps)
      (use 1 in \<open>auto simp: is_digit_def [of "char_of _"] of_char_of take_bit_eq_mod\<close>)
qed

lemma nat_digits_nonempty [simp]: "nat_digits n \<noteq> []"
  by (subst nat_digits.simps) simp

lemma decimal_value_nat_digits: "decimal_value (nat_digits n) = n"
proof (induction n rule: nat_digits.induct)
  case (1 n)
  show ?case
    by (subst nat_digits.simps)
      (use 1 in \<open>auto simp: decimal_value_def digit_value_def of_char_of take_bit_eq_mod\<close>)
qed

text \<open>\<open>strconv.Itoa\<close> and \<open>fmt\<close>'s \<open>%d\<close> of an integer.\<close>

definition itoa :: "int \<Rightarrow> string" where
  "itoa i = (if i < 0 then CHR ''-'' # nat_digits (nat (- i)) else nat_digits (nat i))"

end
