(* ===== verification/GoFloat.thy ===== *)
theory GoFloat
  imports Json GoStrings
begin

section \<open>Numbers as \<open>float64\<close>\<close>

text \<open>
  A JSON number decoded into an \<open>any\<close> is a \<open>float64\<close> unless the decoder was told to keep the literal:
  \<open>strconv.ParseFloat\<close> rounds it to the nearest, and encoding writes the shortest literal that rounds
  to the same value.  A finite \<open>float64\<close> is a sign and \<open>m * 2 ^ k\<close>, a pair of integers.
\<close>

subsection \<open>Reading\<close>

definition digits_value :: "string \<Rightarrow> int" where
  "digits_value ds = foldl (\<lambda>n c. 10 * n + int (digit_value c)) 0 ds"

definition signed_value :: "string \<Rightarrow> int" where
  "signed_value s =
     (if has_prefix s ''-'' then - digits_value (tl s)
      else if has_prefix s ''+'' then digits_value (tl s) else digits_value s)"

text \<open>The sign of a number literal, its digits as an integer, and the power of ten they are multiplied with.\<close>

definition decimal_parts :: "string \<Rightarrow> bool \<times> int \<times> int" where
  "decimal_parts literal =
     (let negative = has_prefix literal ''-'';
          unsigned = (if negative then tl literal else literal);
          mantissa = takeWhile (\<lambda>c. c \<noteq> CHR ''e'' \<and> c \<noteq> CHR ''E'') unsigned;
          exponent = drop (Suc (length mantissa)) unsigned in
      case cut CHR ''.'' mantissa of (whole, fraction, _) \<Rightarrow>
        (negative, digits_value (whole @ fraction), signed_value exponent - int (length fraction)))"

text \<open>A power with an integer exponent, as a fraction; the quotient rounded to an integer, ties to even.\<close>

definition scaled :: "int \<Rightarrow> int \<Rightarrow> int \<times> int \<Rightarrow> int \<times> int" where
  "scaled base e r =
     (case r of (p, q) \<Rightarrow> if e \<ge> 0 then (p * base ^ nat e, q) else (p, q * base ^ nat (- e)))"

definition round_even :: "int \<times> int \<Rightarrow> int" where
  "round_even r =
     (case r of (p, q) \<Rightarrow>
        let n = p div q; rest = 2 * (p mod q) in
        if rest > q \<or> rest = q \<and> odd n then n + 1 else n)"

text \<open>How many digits to the base \<open>b\<close> a positive integer has.\<close>

function digit_count :: "int \<Rightarrow> int \<Rightarrow> int" where
  "digit_count b n = (if n \<le> 0 \<or> b < 2 then 0 else 1 + digit_count b (n div b))"
  by pat_completeness auto
termination
proof (relation "measure (\<lambda>(b, n). nat n)")
  fix b n :: int assume "\<not> (n \<le> 0 \<or> b < 2)"
  moreover from this have "n div b < n" by (intro int_div_less_self) simp_all
  ultimately show "((b, n div b), b, n) \<in> measure (\<lambda>(b, n). nat n)"
    by simp
qed simp

declare digit_count.simps [simp del]

text \<open>The integer \<open>e\<close> with \<open>b ^ e \<le> p / q < b ^ (e + 1)\<close>.\<close>

definition floor_log :: "int \<Rightarrow> int \<times> int \<Rightarrow> int" where
  "floor_log b r =
     (case r of (p, q) \<Rightarrow>
        let e = digit_count b p - digit_count b q in
        case scaled b (- e) (p, q) of (p', q') \<Rightarrow> if p' \<ge> q' then e else e - 1)"

type_synonym float64 = "int \<times> int"

text \<open>53 bits, or fewer near zero; \<open>None\<close> is out of range.\<close>

definition float_round :: "int \<times> int \<Rightarrow> float64 option" where
  "float_round r =
     (if fst r = 0 then Some (0, 0)
      else
        (let k = max (floor_log 2 r - 52) (-1074); m = round_even (scaled 2 (- k) r) in
         if k > 971 \<or> k = 971 \<and> m = 2 ^ 53 then None else Some (m, k)))"

definition ParseFloat :: "string \<Rightarrow> (bool \<times> float64) option" where
  "ParseFloat literal =
     (case decimal_parts literal of (negative, n, e) \<Rightarrow>
        map_option (Pair negative) (float_round (scaled 10 e (n, 1))))"

subsection \<open>Writing\<close>

text \<open>The exact value of a \<open>float64\<close>, and when two have the same.\<close>

definition float_ratio :: "float64 \<Rightarrow> int \<times> int" where
  "float_ratio f = (case f of (m, k) \<Rightarrow> scaled 2 k (m, 1))"

definition same_value :: "int \<times> int \<Rightarrow> int \<times> int \<Rightarrow> bool" where
  "same_value r s \<longleftrightarrow> fst r * snd s = fst s * snd r"

text \<open>The value rounded to \<open>n\<close> digits, the first of which stands for \<open>10 ^ e\<close>: the digits and their power of ten.
  The shortest that reads back has at most 17 of them.\<close>

definition rounded_digits :: "int \<times> int \<Rightarrow> int \<Rightarrow> int \<Rightarrow> int \<times> int" where
  "rounded_digits r e n = (let t = e - n + 1 in (round_even (scaled 10 (- t) r), t))"

definition reads_as :: "int \<times> int \<Rightarrow> int \<times> int \<Rightarrow> bool" where
  "reads_as r c =
     (case float_round (scaled 10 (snd c) (fst c, 1)) of
        Some f \<Rightarrow> same_value (float_ratio f) r
      | None \<Rightarrow> False)"

definition shortest_decimal :: "int \<times> int \<Rightarrow> int \<times> int" where
  "shortest_decimal r =
     (let cs = map (rounded_digits r (floor_log 10 r)) [1..17] in
      case find (reads_as r) cs of Some c \<Rightarrow> c | None \<Rightarrow> last cs)"

function int_digits :: "int \<Rightarrow> string" where
  "int_digits n =
     (if n < 10 then [char_of (48 + nat n)] else int_digits (n div 10) @ [char_of (48 + nat (n mod 10))])"
  by pat_completeness auto
termination by (relation "measure nat") auto

declare int_digits.simps [simp del]

lemma int_digits_eq: "0 \<le> n \<Longrightarrow> int_digits n = nat_digits (nat n)"
proof (induction n rule: int_digits.induct)
  case (1 n)
  then show ?case
    by (simp add: int_digits.simps [of n] nat_digits.simps [of "nat n"] nat_div_distrib nat_mod_distrib nat_less_iff)
qed

definition zero_digits :: "int \<Rightarrow> string" where "zero_digits n = replicate (nat n) CHR ''0''"

text \<open>Digits without trailing zero_digits, and the power of ten of the last.\<close>

definition trimmed_digits :: "int \<times> int \<Rightarrow> string \<times> int" where
  "trimmed_digits c =
     (let ds = int_digits (fst c); kept = rev (dropWhile (\<lambda>d. d = CHR ''0'') (rev ds)) in
      (kept, snd c + int (length ds) - int (length kept)))"

definition plain_format :: "string \<times> int \<Rightarrow> string" where
  "plain_format c =
     (case c of (ds, t) \<Rightarrow>
        let whole = int (length ds) + t in
        if t \<ge> 0 then ds @ zero_digits t
        else if whole > 0 then take (nat whole) ds @ ''.'' @ drop (nat whole) ds
        else ''0.'' @ zero_digits (- whole) @ ds)"

definition exponent_format :: "string \<times> int \<Rightarrow> string" where
  "exponent_format c =
     (case c of (ds, t) \<Rightarrow>
        let e = int (length ds) - 1 + t in
        take 1 ds @ (if length ds > 1 then ''.'' @ drop 1 ds else []) @ ''e'' @
        (if e < 0 then itoa e else ''+'' @ itoa e))"

text \<open>The encoder of \<open>float64\<close> values; it compares with the \<open>float64\<close> nearest a constant.\<close>

definition float_below :: "int \<times> int \<Rightarrow> int \<times> int \<Rightarrow> bool" where
  "float_below r constant =
     (case float_round constant of
        Some f \<Rightarrow> fst r * snd (float_ratio f) < fst (float_ratio f) * snd r
      | None \<Rightarrow> False)"

definition format_float :: "bool \<times> float64 \<Rightarrow> string" where
  "format_float x =
     (case x of (negative, f) \<Rightarrow>
        (if negative then ''-'' else []) @
        (if fst f = 0 then ''0''
         else
           (let r = float_ratio f; ds = trimmed_digits (shortest_decimal r) in
            if float_below r (1, 10 ^ 6) \<or> \<not> float_below r (10 ^ 21, 1) then exponent_format ds else plain_format ds)))"

text \<open>What a literal is after it has been a \<open>float64\<close>.\<close>

definition float_literal :: "string \<Rightarrow> string option" where
  "float_literal literal = map_option format_float (ParseFloat literal)"

fun numbers_in_range :: "json \<Rightarrow> bool" where
  "numbers_in_range (JNum literal) = (ParseFloat literal \<noteq> None)"
| "numbers_in_range (JArr xs) = list_all numbers_in_range xs"
| "numbers_in_range (JObj ms) = list_all (\<lambda>m. numbers_in_range (snd m)) ms"
| "numbers_in_range v = True"

text \<open>A value that has been an \<open>any\<close>; where a number was out of range its variable kept its zero value.\<close>

fun as_any :: "json \<Rightarrow> json" where
  "as_any (JNum literal) = (case float_literal literal of Some l \<Rightarrow> JNum l | None \<Rightarrow> JNull)"
| "as_any (JArr xs) = JArr (map as_any xs)"
| "as_any (JObj ms) = JObj (map (\<lambda>m. (fst m, as_any (snd m))) ms)"
| "as_any v = v"

subsection \<open>Integers of fifteen digits\<close>

lemma digit_count_bounds:
  assumes "n > 0" and "b > 1"
  shows "digit_count b n > 0 \<and> b ^ nat (digit_count b n - 1) \<le> n \<and> n < b ^ nat (digit_count b n)"
  using assms
proof (induction b n rule: digit_count.induct)
  case (1 b n)
  have n: "digit_count b n = 1 + digit_count b (n div b)" using 1 by (simp add: digit_count.simps [of b n])
  show ?case
  proof (cases "n div b > 0")
    case True
    let ?d = "digit_count b (n div b)"
    have ih: "?d > 0" "b ^ nat (?d - 1) \<le> n div b" "n div b < b ^ nat ?d" using 1 True by auto
    have "b ^ nat ?d = b * b ^ nat (?d - 1)" using ih(1) by (simp add: power_eq_if nat_diff_distrib')
    moreover have "b * b ^ nat (?d - 1) \<le> b * (n div b)" using ih(2) 1(3) by simp
    moreover have "b * (n div b) \<le> n" using 1(3) by (simp add: mult.commute [of b] minus_mod_eq_div_mult [symmetric])
    moreover have "n < b * b ^ nat ?d"
    proof -
      have "n < b * (n div b + 1)" using 1(3) by (metis add.commute mult.commute div_mult_mod_eq distrib_left
        mult.right_neutral add_strict_left_mono pos_mod_bound less_trans zero_less_one add.commute)
      also have "\<dots> \<le> b * b ^ nat ?d" using ih(3) 1(3) by (intro mult_left_mono) simp_all
      finally show ?thesis .
    qed
    ultimately show ?thesis using ih(1) n by (simp add: nat_add_distrib)
  next
    case False
    then have "n div b = 0" using 1 by (simp add: not_less pos_imp_zdiv_nonneg_iff order.antisym)
    then have "n < b" using 1 by (simp add: zdiv_eq_0_iff)
    then show ?thesis using 1 n \<open>n div b = 0\<close> by (simp add: digit_count.simps [of b 0])
  qed
qed

lemma digit_count_le: "0 < n \<Longrightarrow> b > 1 \<Longrightarrow> n < b ^ j \<Longrightarrow> digit_count b n \<le> int j"
proof -
  assume a: "0 < n" "b > 1" "n < b ^ j"
  then have "b ^ nat (digit_count b n - 1) < b ^ j" using digit_count_bounds [of n b] by linarith
  then have "nat (digit_count b n - 1) < j" using a(2) by (simp add: power_strict_increasing_iff)
  then show ?thesis by linarith
qed

lemma digit_count_mono:
  assumes "0 < n" and "n \<le> m" and "b > 1"
  shows "digit_count b n \<le> digit_count b m"
proof -
  have "n < b ^ nat (digit_count b m)" using digit_count_bounds [of m b] assms by linarith
  then show ?thesis using digit_count_le [of n b "nat (digit_count b m)"] digit_count_bounds [of m b] assms by simp
qed

text \<open>The logarithm of an integer, written as a fraction.\<close>

lemma floor_log_integer:
  assumes "0 < n" and "n < b ^ j" and "q > 0" and "b > 1"
  shows "0 \<le> floor_log b (n * q, q)" and "floor_log b (n * q, q) < int j"
proof -
  let ?e = "digit_count b (n * q) - digit_count b q"
  have pos: "n * q > 0" "q \<le> n * q" using assms by simp_all
  then have e: "0 \<le> ?e" using digit_count_mono [of q "n * q" b] assms by simp
  have "n * q < b ^ j * b ^ nat (digit_count b q)"
    using digit_count_bounds [of q b] assms by (intro mult_strict_mono) auto
  then have "n * q < b ^ (j + nat (digit_count b q))" by (simp add: power_add)
  from digit_count_le [OF pos(1) assms(4) this] have upper: "?e \<le> int j"
    using digit_count_bounds [of q b] assms by simp
  have test: "(case scaled b (- ?e) (n * q, q) of (p', q') \<Rightarrow> p' \<ge> q') \<longleftrightarrow> n \<ge> b ^ nat ?e"
    using e assms(3) by (auto simp: scaled_def mult.commute [of n])
  have floor: "floor_log b (n * q, q) = (if n \<ge> b ^ nat ?e then ?e else ?e - 1)"
  proof -
    obtain p' q' where scaled: "scaled b (- ?e) (n * q, q) = (p', q')" by (cases "scaled b (- ?e) (n * q, q)")
    with test have "p' \<ge> q' \<longleftrightarrow> n \<ge> b ^ nat ?e" by (simp only: scaled prod.case)
    then show ?thesis by (simp only: floor_log_def Let_def prod.case scaled)
  qed
  show "0 \<le> floor_log b (n * q, q)"
  proof (cases "?e = 0")
    case True
    then show ?thesis using assms(1) by (simp add: floor)
  next
    case False
    with e show ?thesis by (simp add: floor)
  qed
  show "floor_log b (n * q, q) < int j"
  proof (cases "n \<ge> b ^ nat ?e")
    case True
    then have "b ^ nat ?e < b ^ j" using assms(2) by linarith
    then have "nat ?e < j" using assms(4) by (simp add: power_strict_increasing_iff)
    with e True show ?thesis by (simp add: floor)
  next
    case False
    with upper show ?thesis by (simp add: floor)
  qed
qed

lemma round_even_exact: "q > 0 \<Longrightarrow> round_even (n * q, q) = n"
  by (simp add: round_even_def)

lemma round_even_bounds:
  assumes "q > 0" and "p \<ge> 0"
  shows "round_even (p, q) \<ge> 0" and "round_even (p, q) * q \<le> p + q"
proof -
  have split: "p = p div q * q + p mod q" by simp
  moreover have "0 \<le> p mod q" "p div q \<ge> 0" using assms by (simp_all add: pos_imp_zdiv_nonneg_iff)
  ultimately show "round_even (p, q) \<ge> 0" "round_even (p, q) * q \<le> p + q"
    by (simp_all add: round_even_def Let_def distrib_right, linarith)
qed

text \<open>An integer below \<open>2 ^ 53\<close> is a \<open>float64\<close>.\<close>

lemma float_round_integer:
  assumes "0 < n" and "n < 2 ^ 53"
  obtains f where "float_round (n, 1) = Some f" and "snd (float_ratio f) > 0"
    and "fst (float_ratio f) = n * snd (float_ratio f)"
proof -
  let ?e = "floor_log 2 (n, 1)"
  have e: "?e \<le> 52" using floor_log_integer(2) [of n 2 53 1] assms by simp
  define k where "k = max (?e - 52) (-1074)"
  then have k: "k \<le> 0" using e by simp
  then have scaled: "scaled 2 (- k) (n, 1) = (n * 2 ^ nat (- k), 1)" by (simp add: scaled_def)
  have "float_round (n, 1) = Some (n * 2 ^ nat (- k), k)"
    using assms(1) k scaled round_even_exact [of 1 "n * 2 ^ nat (- k)"]
    by (simp add: float_round_def Let_def flip: k_def)
  moreover have "float_ratio (n * 2 ^ nat (- k), k) = (if k = 0 then (n, 1) else (n * 2 ^ nat (- k), 2 ^ nat (- k)))"
    using k by (auto simp: float_ratio_def scaled_def)
  ultimately show ?thesis using that [of "(n * 2 ^ nat (- k), k)"] by (auto split: if_splits)
qed

lemma find_upto:
  assumes "find P (map f [1..m]) = Some x"
  obtains i where "1 \<le> i" and "i \<le> m" and "x = f i" and "P x" and "\<And>j. 1 \<le> j \<Longrightarrow> j < i \<Longrightarrow> \<not> P (f j)"
proof -
  from assms obtain l where l: "l < nat m" "P (map f [1..m] ! l)" "x = map f [1..m] ! l"
      and first: "\<forall>j<l. \<not> P (map f [1..m] ! j)"
    by (auto simp: find_Some_iff)
  have nth: "map f [1..m] ! j = f (1 + int j)" if "j < nat m" for j
    using that by (simp add: nth_upto)
  have "\<not> P (f j)" if "1 \<le> j" "j < 1 + int l" for j
  proof -
    have "nat (j - 1) < l" "nat (j - 1) < nat m" using that l(1) by linarith+
    with first nth [of "nat (j - 1)"] that(1) show ?thesis by auto
  qed
  with l nth [OF l(1)] show ?thesis by (intro that [of "1 + int l"]) simp_all
qed

lemma shortest_integer:
  assumes "0 < n" and "n < 10 ^ 15" and "q > 0"
  obtains c t where "shortest_decimal (n * q, q) = (c, t)" and "t \<ge> 0" and "c > 0" and "c * 10 ^ nat t = n"
proof -
  let ?r = "(n * q, q)" and ?e = "floor_log 10 (n * q, q)"
  have pos: "n * q > 0" using assms by simp
  have e: "0 \<le> ?e" "?e \<le> 14" using floor_log_integer [of n 10 15 q] assms by simp_all
  have unit: "scaled 10 0 x = x" for x by (simp add: scaled_def split: prod.split)
  have max: "n < 2 ^ 53" using assms(2) by simp
  have "reads_as ?r (rounded_digits ?r ?e (?e + 1))"
  proof -
    obtain f where f: "float_round (n, 1) = Some f" "fst (float_ratio f) = n * snd (float_ratio f)"
      using float_round_integer [OF assms(1) max] by blast
    have "rounded_digits ?r ?e (?e + 1) = (n, 0)"
      by (simp add: rounded_digits_def unit round_even_exact assms(3))
    then show ?thesis using f by (simp add: reads_as_def unit same_value_def)
  qed
  moreover have "?e + 1 \<in> set [1..17]" using e by simp
  ultimately obtain found where found: "find (reads_as ?r) (map (rounded_digits ?r ?e) [1..17]) = Some found"
    by (metis (no_types, lifting) find_None_iff image_eqI list.set_map not_Some_eq)
  from found obtain i where i: "1 \<le> i" "i \<le> 17" "found = rounded_digits ?r ?e i" "reads_as ?r found"
      and first: "\<And>j. 1 \<le> j \<Longrightarrow> j < i \<Longrightarrow> \<not> reads_as ?r (rounded_digits ?r ?e j)"
    by (rule find_upto) blast
  have "i \<le> ?e + 1" using first [of "?e + 1"] \<open>reads_as ?r (rounded_digits ?r ?e (?e + 1))\<close> e by force
  define t where "t = ?e - i + 1"
  define c where "c = round_even (n * q, q * 10 ^ nat t)"
  have t: "0 \<le> t" "t \<le> 14" using \<open>i \<le> ?e + 1\<close> e i(1) by (simp_all add: t_def)
  have q: "q * 10 ^ nat t > 0" using assms(3) by simp
  have "scaled 10 (- t) ?r = (n * q, q * 10 ^ nat t)" using t(1) by (auto simp: scaled_def)
  then have rounded_digits: "found = (c, t)" by (simp add: i(3) rounded_digits_def Let_def c_def t_def)
  have c: "0 \<le> c" "c * (q * 10 ^ nat t) \<le> n * q + q * 10 ^ nat t"
    using round_even_bounds [OF q, of "n * q"] pos by (simp_all add: c_def)
  then have "q * (c * 10 ^ nat t) \<le> q * (n + 10 ^ nat t)" by (simp add: algebra_simps)
  then have "c * 10 ^ nat t \<le> n + 10 ^ nat t" using assms(3) by simp
  moreover have "(10 :: int) ^ nat t \<le> 10 ^ 14" using t by (intro power_increasing) simp_all
  ultimately have bound: "c * 10 ^ nat t < 2 ^ 53" using assms(2) by simp
  have scaled: "scaled 10 t (c, 1) = (c * 10 ^ nat t, 1)" using t(1) by (simp add: scaled_def)
  obtain f where f: "float_round (c * 10 ^ nat t, 1) = Some f" "same_value (float_ratio f) ?r"
    using i(4) by (auto simp: rounded_digits reads_as_def scaled split: option.splits)
  have "c > 0"
  proof (rule ccontr)
    assume "\<not> c > 0"
    with c(1) f(1) have "f = (0, 0)" by (simp add: float_round_def)
    with f(2) assms show False by (simp add: same_value_def float_ratio_def scaled_def)
  qed
  moreover have "c * 10 ^ nat t = n"
  proof -
    have "0 < c * 10 ^ nat t" using \<open>c > 0\<close> by simp
    from float_round_integer [OF this bound] f(1)
    have "snd (float_ratio f) > 0" "fst (float_ratio f) = c * 10 ^ nat t * snd (float_ratio f)" by auto
    with f(2) assms(3) show ?thesis by (simp add: same_value_def)
  qed
  moreover have "shortest_decimal ?r = (c, t)" by (simp only: shortest_decimal_def Let_def found option.case rounded_digits)
  ultimately show ?thesis using that t(1) by blast
qed

subsection \<open>Their literals\<close>

lemma digits_value_nat: "list_all is_digit ds \<Longrightarrow> digits_value ds = int (decimal_value ds)"
proof -
  have "foldl (\<lambda>n c. 10 * n + int (digit_value c)) (int a) ds = int (foldl (\<lambda>n c. 10 * n + digit_value c) a ds)" for a
  proof (induction ds arbitrary: a)
    case (Cons d ds)
    from Cons [of "10 * a + digit_value d"] show ?case by simp
  qed simp
  from this [of 0] show ?thesis by (simp add: digits_value_def decimal_value_def)
qed

lemma decimal_parts_itoa: "0 \<le> n \<Longrightarrow> decimal_parts (itoa n) = (False, n, 0) \<and> decimal_parts (CHR ''-'' # itoa n) = (True, n, 0)"
proof -
  assume n: "0 \<le> n"
  let ?ds = "nat_digits (nat n)"
  have digits: "list_all is_digit ?ds" by (rule nat_digits_all)
  then have mantissa: "takeWhile (\<lambda>c. c \<noteq> CHR ''e'' \<and> c \<noteq> CHR ''E'') ?ds = ?ds"
    by (intro takeWhile_eq_all_conv [THEN iffD2]) (auto simp: list_all_iff is_digit_def)
  have "CHR ''.'' \<notin> set ?ds" using digits by (auto simp: list_all_iff is_digit_def)
  then have cut: "cut CHR ''.'' ?ds = (?ds, [], False)" by (rule cut_absent)
  have "digits_value ?ds = n"
    using digits n by (simp add: digits_value_nat decimal_value_nat_digits)
  moreover have "digits_value [] = 0" by (simp add: digits_value_def)
  ultimately have parts: "decimal_parts s = (has_prefix s ''-'', n, 0)"
    if "(if has_prefix s ''-'' then tl s else s) = ?ds" for s
    unfolding decimal_parts_def Let_def that mantissa cut by (simp add: signed_value_def)
  have "\<not> has_prefix ?ds ''-''"
    using digits by (cases ?ds) (auto simp: is_digit_def)
  then show ?thesis using n parts [of ?ds] parts [of "CHR ''-'' # ?ds"] by (simp add: itoa_def)
qed

lemma int_digits_scaled: "c > 0 \<Longrightarrow> int_digits c @ replicate k CHR ''0'' = int_digits (c * 10 ^ k)"
proof (induction k)
  case (Suc k)
  have zero: "char_of (48 :: nat) = CHR ''0''" by code_simp
  have "c * 10 ^ k \<ge> 1" using Suc.prems by (simp add: int_one_le_iff_zero_less)
  then have "int_digits (c * 10 ^ k * 10) = int_digits (c * 10 ^ k) @ ''0''"
    by (subst int_digits.simps) (simp add: zero)
  moreover have "replicate (Suc k) CHR ''0'' = replicate k CHR ''0'' @ ''0''"
    by (simp add: replicate_append_same)
  ultimately show ?case using Suc by (simp add: algebra_simps flip: append_assoc del: replicate_Suc)
qed simp

lemma format_shortest:
  assumes "c > 0" and "t \<ge> 0"
  shows "plain_format (trimmed_digits (c, t)) = int_digits (c * 10 ^ nat t)"
proof -
  let ?ds = "int_digits c"
  let ?zero = "\<lambda>d. d = CHR ''0''"
  let ?kept = "rev (dropWhile ?zero (rev ?ds))"
  have "rev ?ds = takeWhile ?zero (rev ?ds) @ dropWhile ?zero (rev ?ds)" by simp
  then have ds: "?ds = ?kept @ rev (takeWhile ?zero (rev ?ds))" by (metis rev_append rev_rev_ident)
  have "takeWhile ?zero (rev ?ds) = replicate (length (takeWhile ?zero (rev ?ds))) CHR ''0''"
    by (intro replicate_eqI) (auto dest: set_takeWhileD)
  then have tail: "?ds = ?kept @ replicate (length ?ds - length ?kept) CHR ''0''"
    using ds by (metis diff_add_inverse length_append length_rev rev_replicate)
  have le: "length ?kept \<le> length ?ds" using ds by (metis le_add1 length_append)
  have "plain_format (trimmed_digits (c, t)) = ?kept @ replicate (length ?ds - length ?kept + nat t) CHR ''0''"
    using le assms(2)
    by (simp add: trimmed_digits_def Let_def plain_format_def zero_digits_def nat_diff_distrib' nat_add_distrib)
  also have "\<dots> = ?ds @ replicate (nat t) CHR ''0''" using tail by (metis append_assoc replicate_add)
  finally show ?thesis by (simp add: int_digits_scaled assms(1))
qed

text \<open>The constants the encoder compares with.\<close>

lemma float_constants:
  "float_round (1, 10 ^ 6) = Some (4722366482869645, -72)"
  "float_round (10 ^ 21, 1) = Some (7629394531250000, 17)"
  by (simp_all add: float_round_def floor_log_def scaled_def round_even_def digit_count.simps)

lemma plain_range:
  assumes "0 < n" and "n < 10 ^ 15" and "q > 0"
  shows "\<not> float_below (n * q, q) (1, 10 ^ 6)" and "float_below (n * q, q) (10 ^ 21, 1)"
proof -
  have "q \<le> n * q" using assms(1,3) by simp
  with assms(3) have "4722366482869645 * q \<le> n * q * 2 ^ 72" by simp
  then show "\<not> float_below (n * q, q) (1, 10 ^ 6)"
    unfolding float_below_def float_constants(1) by (simp add: float_ratio_def scaled_def)
  have "n * q < 10 ^ 21 * q" using assms(2,3) by simp
  then show "float_below (n * q, q) (10 ^ 21, 1)"
    unfolding float_below_def float_constants(2) by (simp add: float_ratio_def scaled_def)
qed

lemma format_integer:
  assumes "0 \<le> n" and "n < 10 ^ 15" and "float_round (n, 1) = Some f"
  shows "format_float (negative, f) = (if negative then ''-'' else []) @ itoa n"
proof (cases "n = 0")
  case True
  have "itoa 0 = ''0''" by (simp add: itoa_def nat_digits.simps) code_simp
  with True assms(3) show ?thesis by (auto simp: format_float_def float_round_def)
next
  case False
  then have n: "0 < n" "n < 2 ^ 53" using assms(1,2) by simp_all
  define q where "q = snd (float_ratio f)"
  have q: "q > 0" "float_ratio f = (n * q, q)"
  proof -
    obtain g where "float_round (n, 1) = Some g" "snd (float_ratio g) > 0" "fst (float_ratio g) = n * snd (float_ratio g)"
      by (rule float_round_integer [OF n])
    moreover from this assms(3) have "g = f" by simp
    ultimately show "q > 0" "float_ratio f = (n * q, q)" by (simp_all add: q_def prod.expand)
  qed
  have "fst f \<noteq> 0"
    using q n(1) by (auto simp: float_ratio_def scaled_def split: prod.splits if_splits)
  obtain c t where short: "shortest_decimal (n * q, q) = (c, t)" "t \<ge> 0" "c > 0" "c * 10 ^ nat t = n"
    using shortest_integer [OF n(1) assms(2) q(1)] by blast
  have "itoa n = int_digits n" using assms(1) by (simp add: itoa_def int_digits_eq)
  with \<open>fst f \<noteq> 0\<close> plain_range [OF n(1) assms(2) q(1)] format_shortest [OF short(3,2)] short
  show ?thesis by (simp add: format_float_def Let_def q(2))
qed

lemma float_literal_integer:
  assumes "\<bar>n\<bar> < 10 ^ 15"
  shows "float_literal (itoa n) = Some (itoa n)"
proof -
  have unit: "scaled 10 0 (m, 1) = (m, 1)" for m by (simp add: scaled_def)
  have round: "\<exists>f. float_round (m, 1) = Some f" if "0 \<le> m" "m < 10 ^ 15" for m
  proof (cases "m = 0")
    case False
    with that have "0 < m" "m < 2 ^ 53" by simp_all
    then show ?thesis by (rule float_round_integer) blast
  qed (simp add: float_round_def)
  show ?thesis
  proof (cases "n < 0")
    case True
    then have "itoa n = CHR ''-'' # itoa (- n)" by (simp add: itoa_def)
    moreover obtain f where "float_round (- n, 1) = Some f" using round [of "- n"] True assms by auto
    ultimately show ?thesis
      using True assms decimal_parts_itoa [of "- n"] format_integer [of "- n" f True]
      by (simp add: float_literal_def ParseFloat_def unit)
  next
    case False
    moreover obtain f where "float_round (n, 1) = Some f" using round [of n] False assms by auto
    ultimately show ?thesis
      using assms decimal_parts_itoa [of n] format_integer [of n f False]
      by (simp add: float_literal_def ParseFloat_def unit)
  qed
qed

text \<open>Values whose numbers are such integers are kept.\<close>

fun small_integers :: "json \<Rightarrow> bool" where
  "small_integers (JNum literal) \<longleftrightarrow>
     literal = itoa (signed_value literal) \<and> \<bar>signed_value literal\<bar> < 10 ^ 15"
| "small_integers (JArr xs) \<longleftrightarrow> list_all small_integers xs"
| "small_integers (JObj ms) \<longleftrightarrow> list_all (\<lambda>m. small_integers (snd m)) ms"
| "small_integers v \<longleftrightarrow> True"

lemma as_any_small: "small_integers v \<Longrightarrow> as_any v = v \<and> numbers_in_range v"
proof (induction v)
  case (JNum literal)
  then have "float_literal literal = Some literal" using float_literal_integer by (metis small_integers.simps(1))
  then show ?case by (auto simp: float_literal_def)
next
  case (JArr xs)
  then show ?case by (auto simp: list_all_iff intro!: map_idI)
next
  case (JObj ms)
  have "(fst m, as_any (snd m)) = m \<and> numbers_in_range (snd m)" if "m \<in> set ms" for m
    using JObj.IH [of m "snd m"] JObj.prems that by (cases m) (auto simp: list_all_iff)
  then show ?case by (auto simp: list_all_iff intro!: map_idI)
qed simp_all

lemma float_literal_odd: "float_literal ''9007199254740993'' = Some ''9007199254740992''"
proof -
  have "ParseFloat ''9007199254740993'' = Some (False, 4503599627370496, 1)"
    by (simp add: ParseFloat_def decimal_parts_def digits_value_def digit_value_def signed_value_def float_round_def
      floor_log_def scaled_def round_even_def digit_count.simps)
  moreover have "shortest_decimal (9007199254740992, 1) = (9007199254740992, 0)"
    by (simp add: shortest_decimal_def rounded_digits_def reads_as_def float_round_def floor_log_def scaled_def
      round_even_def digit_count.simps same_value_def float_ratio_def upto.simps)
  moreover have "plain_format (trimmed_digits (9007199254740992, 0)) = ''9007199254740992''"
    unfolding format_shortest [of 9007199254740992 0, simplified]
    by (simp add: int_digits.simps) code_simp
  ultimately show ?thesis
    by (simp add: float_literal_def format_float_def float_ratio_def scaled_def float_below_def Let_def
      float_constants [simplified])
qed

end
