(* ===== verification/Normalize.thy ===== *)
theory Normalize
  imports GoFloat
begin

section \<open>Agent-side normalisation of responses\<close>

text \<open>
  \<open>NormalizeAgentResponse\<close> (validation.go): an Agent drops the descriptors it does not recognise
  from a decoded response before it validates it, so that a Service may advertise newer ones.
  The code mutates the decoded maps in place; each function here returns the changed document.
  \<open>filtered := items[:0]\<close> reuses the array of a slice nobody else holds, so the result is
  \<open>filter\<close>.  A Go \<open>map[string]bool\<close> of recognised names is the list of its keys.

  The lemmas: each step keeps every other member (the frame), keeps the order of the
  descriptors it keeps, leaves a document without unrecognised descriptors alone, and leaves
  none behind; repeating a step changes nothing more.
\<close>

subsection \<open>Filtering one list member\<close>

text \<open>The common end: \<open>if len(filtered) == 0 { delete(document, member) } else
  { document[member] = filtered }\<close>.\<close>

definition put_or_drop :: "obj \<Rightarrow> string \<Rightarrow> json list \<Rightarrow> obj" where
  "put_or_drop document member filtered =
     (if filtered = [] then AList.delete member document
      else AList.update member (JArr filtered) document)"

definition keep_members :: "obj \<Rightarrow> string \<Rightarrow> (json \<Rightarrow> bool) \<Rightarrow> obj" where
  "keep_members document member keep =
     (case get_arr document member of
        None \<Rightarrow> document
      | Some items \<Rightarrow> put_or_drop document member (filter keep items))"

definition hasUnknownKeys :: "obj \<Rightarrow> string list \<Rightarrow> bool" where
  "hasUnknownKeys m allowed \<longleftrightarrow> (\<exists>key\<in>set (map fst m). key \<notin> set allowed)"

definition hasUnknownAuthentication :: "obj \<Rightarrow> bool" where
  "hasUnknownAuthentication value =
     (case get_str value ''authentication'' of
        None \<Rightarrow> False
      | Some authentication \<Rightarrow>
          authentication \<noteq> ''not-required'' \<and> authentication \<noteq> ''optional'' \<and>
          authentication \<noteq> ''required'')"

text \<open>\<open>object, ok := item.(map[string]any)\<close>; the predicate decides on objects, anything else is
  kept for the schema to refuse.\<close>

definition on_object :: "(obj \<Rightarrow> bool) \<Rightarrow> json \<Rightarrow> bool" where
  "on_object keep item = (case item of JObj m \<Rightarrow> keep m | _ \<Rightarrow> True)"

text \<open>\<open>value, ok := object[key].(string); !ok || recognized[value]\<close>.\<close>

definition recognized_at :: "string \<Rightarrow> string list \<Rightarrow> obj \<Rightarrow> bool" where
  "recognized_at key recognized m =
     (case get_str m key of None \<Rightarrow> True | Some value \<Rightarrow> value \<in> set recognized)"

definition filterClosedObjectList :: "obj \<Rightarrow> string \<Rightarrow> string list \<Rightarrow> obj" where
  "filterClosedObjectList document member allowed =
     keep_members document member (on_object (\<lambda>m. \<not> hasUnknownKeys m allowed))"

definition filterUnknownAuthentication :: "obj \<Rightarrow> string \<Rightarrow> obj" where
  "filterUnknownAuthentication document member =
     keep_members document member (on_object (\<lambda>m. \<not> hasUnknownAuthentication m))"

definition filterAgentList :: "obj \<Rightarrow> string \<Rightarrow> string \<Rightarrow> string list \<Rightarrow> obj" where
  "filterAgentList document member discriminator recognized =
     keep_members document member (on_object (recognized_at discriminator recognized))"

definition filterNamedList :: "obj \<Rightarrow> string \<Rightarrow> string list \<Rightarrow> obj" where
  "filterNamedList document member recognized = filterAgentList document member ''name'' recognized"

definition filterTypedList :: "obj \<Rightarrow> string \<Rightarrow> string list \<Rightarrow> obj" where
  "filterTypedList document member recognized = filterAgentList document member ''type'' recognized"

text \<open>The keys of each object in a list outside \<open>allowed\<close> are deleted; the objects stay.\<close>

definition keep_keys :: "string list \<Rightarrow> obj \<Rightarrow> obj" where
  "keep_keys allowed m = filter (\<lambda>(key, v). key \<in> set allowed) m"

definition strip_item :: "string list \<Rightarrow> json \<Rightarrow> json" where
  "strip_item allowed item = (case item of JObj m \<Rightarrow> JObj (keep_keys allowed m) | _ \<Rightarrow> item)"

definition stripObjectList :: "obj \<Rightarrow> string \<Rightarrow> string list \<Rightarrow> obj" where
  "stripObjectList document member allowed =
     (case get_arr document member of
        None \<Rightarrow> document
      | Some items \<Rightarrow> AList.update member (JArr (map (strip_item allowed) items)) document)"

subsection \<open>Branding\<close>

text \<open>The loop over \<open>icon\<close> and \<open>logo\<close>: \<open>None\<close> is the early return that drops the branding.\<close>

fun branding_images :: "string list \<Rightarrow> obj \<Rightarrow> obj option" where
  "branding_images [] branding = Some branding"
| "branding_images (member # members) branding =
     (case get_obj branding member of
        None \<Rightarrow> branding_images members branding
      | Some img \<Rightarrow>
          if recognized_at ''type'' [''image/png'', ''image/svg+xml'', ''image/webp''] img
          then branding_images members
                 (AList.update member (JObj (keep_keys [''src'', ''type''] img)) branding)
          else None)"

definition normalizeBranding :: "obj \<Rightarrow> obj" where
  "normalizeBranding document =
     (case get_obj document ''branding'' of
        None \<Rightarrow> document
      | Some branding \<Rightarrow>
          (case branding_images [''icon'', ''logo''] (keep_keys [''icon'', ''logo''] branding) of
             None \<Rightarrow> AList.delete ''branding'' document
           | Some branding' \<Rightarrow>
               if branding' = [] then AList.delete ''branding'' document
               else AList.update ''branding'' (JObj branding') document))"

subsection \<open>Search capabilities\<close>

definition filter_types :: "string list" where
  "filter_types = [''boolean'', ''date'', ''date-time'', ''decimal'', ''integer'', ''number'',
     ''string'']"

definition filter_operators :: "string list" where
  "filter_operators = [''eq'', ''exists'', ''gt'', ''gte'', ''in'', ''lt'', ''lte'']"

definition knownFilter :: "obj \<Rightarrow> bool" where
  "knownFilter def =
     (recognized_at ''type'' filter_types def \<and>
      (case get_arr def ''operators'' of
         None \<Rightarrow> True
       | Some values \<Rightarrow>
           list_all (\<lambda>value. case value of JStr operator \<Rightarrow> operator \<in> set filter_operators
                                         | _ \<Rightarrow> True) values) \<and>
      (case get_obj def ''unit'' of
         None \<Rightarrow> True
       | Some unit \<Rightarrow> recognized_at ''system'' [''service'', ''ucum''] unit))"

definition knownSort :: "obj \<Rightarrow> bool" where
  "knownSort def =
     (case get_arr def ''keys'' of
        None \<Rightarrow> True
      | Some keys \<Rightarrow>
          list_all (on_object (\<lambda>key.
            recognized_at ''direction'' [''ascending'', ''descending''] key \<and>
            recognized_at ''missing'' [''first'', ''last''] key)) keys)"

text \<open>One iteration of the loop over \<open>filters\<close> and \<open>sorts\<close>.\<close>

definition normalize_source :: "obj \<Rightarrow> string \<Rightarrow> (obj \<Rightarrow> bool) \<Rightarrow> obj" where
  "normalize_source capabilities member recognized =
     (case get_obj capabilities member of
        None \<Rightarrow> capabilities
      | Some source \<Rightarrow>
          (case get_arr source ''inline'' of
             None \<Rightarrow> capabilities
           | Some items \<Rightarrow>
               (let filtered = filter (on_object recognized) items in
                if filtered = [] then AList.delete member capabilities
                else AList.update member
                       (JObj (AList.update ''inline'' (JArr filtered) source)) capabilities)))"

definition normalizeSearchCapabilities :: "obj \<Rightarrow> obj" where
  "normalizeSearchCapabilities document =
     (case get_obj document ''search_capabilities'' of
        None \<Rightarrow> document
      | Some capabilities \<Rightarrow>
          (let c = normalize_source (normalize_source capabilities ''filters'' knownFilter)
                     ''sorts'' knownSort in
           if c = [] then AList.delete ''search_capabilities'' document
           else AList.update ''search_capabilities'' (JObj c) document))"

subsection \<open>Protocols\<close>

text \<open>Unlike the other filters this one keeps a list that was empty to begin with.\<close>

definition filterAgentProtocolCategory :: "obj \<Rightarrow> string \<Rightarrow> string list \<Rightarrow> obj" where
  "filterAgentProtocolCategory protocols category recognized =
     (case get_arr protocols category of
        None \<Rightarrow> protocols
      | Some descriptors \<Rightarrow>
          (let filtered = filter (on_object (recognized_at ''name'' recognized)) descriptors in
           if filtered = [] \<and> descriptors \<noteq> [] then AList.delete category protocols
           else AList.update category (JArr filtered) protocols))"

definition filterAgentProtocols :: "obj \<Rightarrow> obj" where
  "filterAgentProtocols document =
     (case get_obj document ''protocols'' of
        None \<Rightarrow> document
      | Some protocols \<Rightarrow>
          (let p1 = filterAgentProtocolCategory protocols ''enrollment'' [''aep''];
               p2 = filterAgentProtocolCategory p1 ''payments'' [''mpp'', ''x402''];
               p3 = filterAgentProtocolCategory p2 ''trust'' [''tap''] in
           if p3 = [] then AList.delete ''protocols'' document
           else AList.update ''protocols'' (JObj p3) document))"

definition payment_options :: "string list" where
  "payment_options =
     [''algorand'', ''aptos'', ''arbitrum'', ''arc'', ''avalanche'',
      ''base'', ''card'', ''ethereum'', ''hedera'', ''inflow'',
      ''lightning'', ''monad'', ''polygon'', ''solana'', ''stellar'',
      ''stripe'', ''tempo'', ''ton'']"

definition known_option :: "json \<Rightarrow> bool" where
  "known_option option = (case option of JStr name \<Rightarrow> name \<in> set payment_options | _ \<Rightarrow> True)"

definition filter_options :: "json \<Rightarrow> json" where
  "filter_options payment =
     (case payment of
        JObj m \<Rightarrow> JObj (keep_members m ''options'' known_option)
      | _ \<Rightarrow> payment)"

definition filterPaymentOptions :: "obj \<Rightarrow> obj" where
  "filterPaymentOptions document =
     (case get_obj document ''protocols'' of
        None \<Rightarrow> document
      | Some protocols \<Rightarrow>
          (case get_arr protocols ''payments'' of
             None \<Rightarrow> document
           | Some payments \<Rightarrow>
               AList.update ''protocols''
                 (JObj (AList.update ''payments'' (JArr (map filter_options payments)) protocols))
                 document))"

text \<open>\<open>if protocols, ok := document["protocols"].(map[string]any); ok
  { filterUnknownAuthentication(protocols, "payments") }\<close>.\<close>

definition filter_payment_authentication :: "obj \<Rightarrow> obj" where
  "filter_payment_authentication document =
     (case get_obj document ''protocols'' of
        None \<Rightarrow> document
      | Some protocols \<Rightarrow>
          AList.update ''protocols''
            (JObj (filterUnknownAuthentication protocols ''payments'')) document)"

subsection \<open>Offerings\<close>

text \<open>The member \<open>key\<close> of the object, when it is an object, has only \<open>allowed\<close> keys.  A nil map
  (the member is missing or of another type) has no members, so nothing below it is checked.\<close>

definition sub_object :: "obj option \<Rightarrow> string \<Rightarrow> obj option" where
  "sub_object m key = (case m of None \<Rightarrow> None | Some m' \<Rightarrow> get_obj m' key)"

definition closed_at :: "obj option \<Rightarrow> string list \<Rightarrow> bool" where
  "closed_at m allowed = (case m of None \<Rightarrow> True | Some m' \<Rightarrow> \<not> hasUnknownKeys m' allowed)"

definition known_action :: "obj \<Rightarrow> bool" where
  "known_action m =
     (let http = get_obj m ''http'';
          request = sub_object http ''request'';
          schema = sub_object request ''schema'';
          openAPI = get_obj m ''openapi'' in
      \<not> hasUnknownAuthentication m \<and>
      \<not> hasUnknownKeys m [''authentication'', ''description'', ''http'', ''id'', ''openapi'',
           ''rel''] \<and>
      closed_at http [''href'', ''method'', ''request'', ''response_content_types''] \<and>
      closed_at request [''content_type'', ''schema''] \<and>
      closed_at schema [''url''] \<and>
      closed_at openAPI [''operation_id'', ''url''] \<and>
      (case http of None \<Rightarrow> True | Some h \<Rightarrow> recognized_at ''method'' [''GET'', ''POST''] h))"

definition price_types :: "string list" where
  "price_types = [''fixed'', ''free'', ''metered'', ''quote'', ''range'', ''starting_at'']"

definition drop_object :: "obj \<Rightarrow> string \<Rightarrow> (obj \<Rightarrow> bool) \<Rightarrow> obj" where
  "drop_object document member unusable =
     (case get_obj document member of
        Some m \<Rightarrow> if unusable m then AList.delete member document else document
      | None \<Rightarrow> document)"

definition normalizeOffering :: "obj \<Rightarrow> obj" where
  "normalizeOffering document =
     (let d1 = drop_object document ''schema'' (\<lambda>schema. hasUnknownKeys schema [''url'']);
          d2 = drop_object d1 ''price'' (\<lambda>price. \<not> recognized_at ''type'' price_types price) in
      keep_members d2 ''actions'' (on_object known_action))"

subsection \<open>Definition pages and problems\<close>

definition filterDefinitions :: "obj \<Rightarrow> (obj \<Rightarrow> bool) \<Rightarrow> obj" where
  "filterDefinitions document recognized =
     (case get_arr document ''items'' of
        None \<Rightarrow> document
      | Some items \<Rightarrow>
          AList.update ''items'' (JArr (filter (on_object recognized) items)) document)"

definition filterProblemParameters :: "obj \<Rightarrow> obj" where
  "filterProblemParameters document =
     (case get_arr document ''invalid_params'' of
        None \<Rightarrow> document
      | Some parameters \<Rightarrow>
          AList.update ''invalid_params''
            (JArr (filter (on_object
              (recognized_at ''in'' [''body'', ''header'', ''path'', ''query''])) parameters))
            document)"

subsection \<open>The dispatch on the kind of document\<close>

definition operation_names :: "string list" where
  "operation_names =
     [''get-collection'', ''get-offering'', ''list-collection-offerings'',
      ''list-collections'', ''list-offerings'', ''search-collections'',
      ''search-offerings'']"

definition normalize_service_document :: "obj \<Rightarrow> obj" where
  "normalize_service_document d0 =
     (let d1 = filterAgentProtocols d0;
          d2 = filter_payment_authentication d1;
          d3 = filterNamedList d2 ''operations'' operation_names;
          d4 = filterUnknownAuthentication d3 ''operations'';
          d5 = filterTypedList d4 ''mcp'' [''streamable-http''];
          d6 = filterClosedObjectList d5 ''operations'' [''authentication'', ''name''];
          d7 = filterClosedObjectList d6 ''mcp'' [''description'', ''name'', ''type'', ''url''];
          d8 = filterPaymentOptions d7;
          d9 = normalizeBranding d8 in
      normalizeSearchCapabilities d9)"

definition image_types :: "string list" where
  "image_types = [''image/avif'', ''image/jpeg'', ''image/png'', ''image/svg+xml'',
     ''image/webp'']"

definition normalize_resource :: "obj \<Rightarrow> string \<Rightarrow> obj" where
  "normalize_resource document kind =
     (let d1 = filterTypedList document ''images'' image_types;
          d2 = stripObjectList d1 ''images'' [''alt'', ''height'', ''src'', ''type'', ''width''];
          d3 = normalizeSearchCapabilities d2 in
      if kind = ''offering'' then normalizeOffering d3 else d3)"

text \<open>The recursive call on a page's items has the kind of a single resource, so the code's
  recursion is one level deep and \<open>normalize_resource\<close> is what it reaches.\<close>

definition normalize_item :: "string \<Rightarrow> json \<Rightarrow> json" where
  "normalize_item kind item =
     (case item of JObj m \<Rightarrow> JObj (normalize_resource m kind) | _ \<Rightarrow> item)"

definition normalizeAgentDocument :: "obj \<Rightarrow> string \<Rightarrow> obj" where
  "normalizeAgentDocument document kind =
     (if kind = ''service-document'' then normalize_service_document document
      else if kind \<in> {''collection'', ''offering''} then normalize_resource document kind
      else if kind \<in> {''collection-page'', ''offering-page''} then
        (case get_arr document ''items'' of
           None \<Rightarrow> document
         | Some items \<Rightarrow>
             (let itemKind = if kind = ''offering-page'' then ''offering'' else ''collection'' in
              AList.update ''items'' (JArr (map (normalize_item itemKind) items)) document))
      else if kind = ''filter-page'' then filterDefinitions document knownFilter
      else if kind = ''sort-page'' then filterDefinitions document knownSort
      else if kind = ''problem'' then filterProblemParameters document
      else document)"

text \<open>\<open>NormalizeAgentResponse\<close> on a body that decodes to \<open>decoded\<close>: \<open>Inl\<close> when it is not an
  object (or \<open>null\<close>, which decodes to a nil map and is encoded as \<open>null\<close> again).  The members are
  decoded as \<open>any\<close>, so that each number becomes a \<open>float64\<close>; one out of its range is an error.\<close>

definition any_members :: "obj \<Rightarrow> obj" where
  "any_members d = map (\<lambda>m. (fst m, as_any (snd m))) d"

definition NormalizeAgentResponse :: "json option \<Rightarrow> string \<Rightarrow> string + json" where
  "NormalizeAgentResponse decoded kind =
     (case decoded of
        Some (JObj document) \<Rightarrow>
          if numbers_in_range (JObj document)
          then Inr (JObj (normalizeAgentDocument (any_members document) kind))
          else Inl ''cannot unmarshal number''
      | Some JNull \<Rightarrow> Inr JNull
      | _ \<Rightarrow> Inl ''cannot unmarshal into a map'')"

subsection \<open>What each step leaves alone\<close>

text \<open>The frame of every step: a member it does not name is unchanged, and with it everything
  the later steps read there.\<close>

lemma frame_put_or_drop [obj_simps]:
  "k \<noteq> member \<Longrightarrow> map_of (put_or_drop d member xs) k = map_of d k"
  by (simp add: put_or_drop_def)

lemma frame_keep_members [obj_simps]:
  "k \<noteq> member \<Longrightarrow> map_of (keep_members d member keep) k = map_of d k"
  by (simp add: keep_members_def frame_put_or_drop split: option.splits)

lemmas keep_defs =
  filterClosedObjectList_def filterUnknownAuthentication_def filterNamedList_def
  filterTypedList_def filterAgentList_def

lemma frame_strip [obj_simps]:
  "k \<noteq> member \<Longrightarrow> map_of (stripObjectList d member allowed) k = map_of d k"
  by (simp add: stripObjectList_def split: option.splits)

lemma frame_branding [obj_simps]:
  "k \<noteq> ''branding'' \<Longrightarrow> map_of (normalizeBranding d) k = map_of d k"
  by (simp add: normalizeBranding_def split: option.splits)

lemma frame_capabilities [obj_simps]:
  "k \<noteq> ''search_capabilities'' \<Longrightarrow> map_of (normalizeSearchCapabilities d) k = map_of d k"
  by (simp add: normalizeSearchCapabilities_def Let_def split: option.splits)

lemma frame_protocols [obj_simps]:
  "k \<noteq> ''protocols'' \<Longrightarrow> map_of (filterAgentProtocols d) k = map_of d k"
  "k \<noteq> ''protocols'' \<Longrightarrow> map_of (filter_payment_authentication d) k = map_of d k"
  "k \<noteq> ''protocols'' \<Longrightarrow> map_of (filterPaymentOptions d) k = map_of d k"
  by (simp_all add: filterAgentProtocols_def filter_payment_authentication_def
      filterPaymentOptions_def Let_def split: option.splits)

lemma frame_drop_object [obj_simps]:
  "k \<noteq> member \<Longrightarrow> map_of (drop_object d member unusable) k = map_of d k"
  by (simp add: drop_object_def split: option.splits)

lemma frame_offering [obj_simps]:
  "k \<notin> {''schema'', ''price'', ''actions''} \<Longrightarrow> map_of (normalizeOffering d) k = map_of d k"
  by (simp add: normalizeOffering_def Let_def obj_simps)

lemma frame_category [obj_simps]:
  "k \<noteq> category \<Longrightarrow> map_of (filterAgentProtocolCategory p category recognized) k = map_of p k"
  by (simp add: filterAgentProtocolCategory_def Let_def split: option.splits)

lemma frame_source [obj_simps]:
  "k \<noteq> member \<Longrightarrow> map_of (normalize_source c member recognized) k = map_of c k"
  by (simp add: normalize_source_def Let_def split: option.splits)

lemma frame_filterDefinitions [obj_simps]:
  "k \<noteq> ''items'' \<Longrightarrow> map_of (filterDefinitions d recognized) k = map_of d k"
  by (simp add: filterDefinitions_def split: option.splits)

lemma frame_problem [obj_simps]:
  "k \<noteq> ''invalid_params'' \<Longrightarrow> map_of (filterProblemParameters d) k = map_of d k"
  by (simp add: filterProblemParameters_def split: option.splits)

text \<open>The members a normalisation of each kind may change.\<close>

definition touched :: "string \<Rightarrow> string set" where
  "touched kind =
     (if kind = ''service-document'' then
        {''protocols'', ''operations'', ''mcp'', ''branding'', ''search_capabilities''}
      else if kind = ''collection'' then {''images'', ''search_capabilities''}
      else if kind = ''offering'' then
        {''images'', ''search_capabilities'', ''schema'', ''price'', ''actions''}
      else if kind \<in> {''collection-page'', ''offering-page'', ''filter-page'', ''sort-page''}
      then {''items''}
      else if kind = ''problem'' then {''invalid_params''} else {})"

lemma normalized_frame:
  "k \<notin> touched kind \<Longrightarrow> map_of (normalizeAgentDocument d kind) k = map_of d k"
  by (auto simp: normalizeAgentDocument_def normalize_service_document_def
      normalize_resource_def touched_def keep_defs Let_def obj_simps
      split: if_splits option.splits)

text \<open>A normalisation changes only the members it is about: every other member of a
  response, and so every additive member the protocol may later define, reaches the caller as
  it arrived.\<close>

theorem normalize_frame:
  assumes "k \<notin> touched kind"
  shows "map_of (normalizeAgentDocument d kind) k = map_of d k"
  using assms by (rule normalized_frame)


theorem normalize_frame_witness:
  "map_of (normalizeAgentDocument [(''images'', JArr []), (''x'', JNull)] ''offering'') ''x''
     = Some JNull"
  by (subst normalize_frame) (simp_all add: touched_def)

subsection \<open>Recognised documents\<close>

text \<open>
  The documents a normalisation has nothing to drop from.  \<open>member_ok\<close> reads: the list member,
  when there is one, is not empty and holds only entries to keep.
\<close>

definition member_ok :: "obj \<Rightarrow> string \<Rightarrow> (json \<Rightarrow> bool) \<Rightarrow> bool" where
  "member_ok d member keep =
     (case get_arr d member of
        None \<Rightarrow> True | Some items \<Rightarrow> items \<noteq> [] \<and> list_all keep items)"

definition category_ok :: "obj \<Rightarrow> string \<Rightarrow> string list \<Rightarrow> bool" where
  "category_ok p category recognized =
     (case get_arr p category of
        None \<Rightarrow> True
      | Some descriptors \<Rightarrow> list_all (on_object (recognized_at ''name'' recognized)) descriptors)"

definition object_ok :: "obj \<Rightarrow> string \<Rightarrow> (obj \<Rightarrow> bool) \<Rightarrow> bool" where
  "object_ok d member good = (case get_obj d member of None \<Rightarrow> True | Some m \<Rightarrow> good m)"

definition options_ok :: "json \<Rightarrow> bool" where
  "options_ok = on_object (\<lambda>m. member_ok m ''options'' known_option)"

definition recognised_protocols :: "obj \<Rightarrow> bool" where
  "recognised_protocols p \<longleftrightarrow>
     category_ok p ''enrollment'' [''aep''] \<and> category_ok p ''payments'' [''mpp'', ''x402''] \<and>
     category_ok p ''trust'' [''tap''] \<and>
     member_ok p ''payments''
       (\<lambda>x. on_object (\<lambda>m. \<not> hasUnknownAuthentication m) x \<and> options_ok x)"

definition image_ok :: "obj \<Rightarrow> bool" where
  "image_ok img \<longleftrightarrow>
     recognized_at ''type'' [''image/png'', ''image/svg+xml'', ''image/webp''] img \<and>
     set (map fst img) \<subseteq> {''src'', ''type''}"

definition recognised_branding :: "obj \<Rightarrow> bool" where
  "recognised_branding b \<longleftrightarrow>
     b \<noteq> [] \<and> set (map fst b) \<subseteq> {''icon'', ''logo''} \<and>
     object_ok b ''icon'' image_ok \<and> object_ok b ''logo'' image_ok"

definition recognised_capabilities :: "obj \<Rightarrow> bool" where
  "recognised_capabilities c \<longleftrightarrow>
     c \<noteq> [] \<and>
     object_ok c ''filters'' (\<lambda>s. member_ok s ''inline'' (on_object knownFilter)) \<and>
     object_ok c ''sorts'' (\<lambda>s. member_ok s ''inline'' (on_object knownSort))"

definition recognised_operation :: "obj \<Rightarrow> bool" where
  "recognised_operation m \<longleftrightarrow>
     recognized_at ''name'' operation_names m \<and> \<not> hasUnknownAuthentication m \<and>
     \<not> hasUnknownKeys m [''authentication'', ''name'']"

definition recognised_endpoint :: "obj \<Rightarrow> bool" where
  "recognised_endpoint m \<longleftrightarrow>
     recognized_at ''type'' [''streamable-http''] m \<and>
     \<not> hasUnknownKeys m [''description'', ''name'', ''type'', ''url'']"

text \<open>Everything but the emptiness of \<open>protocols\<close>, which the code does not always reach.\<close>

definition recognised_service :: "obj \<Rightarrow> bool" where
  "recognised_service d \<longleftrightarrow>
     object_ok d ''protocols'' recognised_protocols \<and>
     member_ok d ''operations'' (on_object recognised_operation) \<and>
     member_ok d ''mcp'' (on_object recognised_endpoint) \<and>
     object_ok d ''branding'' recognised_branding \<and>
     object_ok d ''search_capabilities'' recognised_capabilities"

definition recognised_resource :: "obj \<Rightarrow> string \<Rightarrow> bool" where
  "recognised_resource d kind \<longleftrightarrow>
     member_ok d ''images''
       (on_object (\<lambda>m. recognized_at ''type'' image_types m \<and>
          set (map fst m) \<subseteq> {''alt'', ''height'', ''src'', ''type'', ''width''})) \<and>
     object_ok d ''search_capabilities'' recognised_capabilities \<and>
     (kind = ''offering'' \<longrightarrow>
        object_ok d ''schema'' (\<lambda>schema. \<not> hasUnknownKeys schema [''url'']) \<and>
        object_ok d ''price'' (recognized_at ''type'' price_types) \<and>
        member_ok d ''actions'' (on_object known_action))"

definition list_ok :: "obj \<Rightarrow> string \<Rightarrow> (json \<Rightarrow> bool) \<Rightarrow> bool" where
  "list_ok d member keep =
     (case get_arr d member of None \<Rightarrow> True | Some items \<Rightarrow> list_all keep items)"

definition recognised :: "obj \<Rightarrow> string \<Rightarrow> bool" where
  "recognised d kind \<longleftrightarrow>
     (if kind = ''service-document'' then recognised_service d
      else if kind \<in> {''collection'', ''offering''} then recognised_resource d kind
      else if kind = ''collection-page'' then
        list_ok d ''items'' (on_object (\<lambda>m. recognised_resource m ''collection''))
      else if kind = ''offering-page'' then
        list_ok d ''items'' (on_object (\<lambda>m. recognised_resource m ''offering''))
      else if kind = ''filter-page'' then list_ok d ''items'' (on_object knownFilter)
      else if kind = ''sort-page'' then list_ok d ''items'' (on_object knownSort)
      else if kind = ''problem'' then
        list_ok d ''invalid_params''
          (on_object (recognized_at ''in'' [''body'', ''header'', ''path'', ''query'']))
      else True)"

text \<open>What a predicate reads is fixed by the frame.\<close>

lemma ok_cong:
  assumes "map_of d k = map_of d' k"
  shows "member_ok d k keep = member_ok d' k keep" "object_ok d k good = object_ok d' k good"
    "category_ok d k recognized = category_ok d' k recognized" "list_ok d k keep = list_ok d' k keep"
  using get_cong [OF assms] by (simp_all add: member_ok_def object_ok_def category_ok_def list_ok_def)

subsubsection \<open>Every step leaves nothing to drop\<close>

lemma keep_members_ok: "member_ok (keep_members d member keep) member keep"
  by (auto simp: keep_members_def member_ok_def put_or_drop_def obj_simps list_all_iff
      split: option.splits)

lemma keep_members_ok_mono:
  "member_ok d member keep' \<Longrightarrow> member_ok (keep_members d member keep) member keep'"
  by (auto simp: keep_members_def member_ok_def put_or_drop_def obj_simps list_all_iff
      split: option.splits)

lemma member_ok_conj:
  "member_ok d k P \<Longrightarrow> member_ok d k Q \<Longrightarrow> member_ok d k (\<lambda>x. P x \<and> Q x)"
  by (auto simp: member_ok_def list_all_iff split: option.splits)

lemma member_ok_mono:
  "member_ok d k P \<Longrightarrow> (\<And>x. P x \<Longrightarrow> Q x) \<Longrightarrow> member_ok d k Q"
  by (auto simp: member_ok_def list_all_iff split: option.splits)

lemma keep_members_id:
  assumes "member_ok d member keep"
  shows "keep_members d member keep = d"
proof (cases "get_arr d member")
  case None
  then show ?thesis by (simp add: keep_members_def)
next
  case (Some items)
  with assms have "items \<noteq> []" "filter keep items = items"
    by (auto simp: member_ok_def list_all_iff filter_id_conv)
  moreover from Some have "map_of d member = Some (JArr items)" by (simp add: get_arr_Some)
  ultimately show ?thesis using Some by (simp add: keep_members_def put_or_drop_def update_same)
qed

text \<open>The three filters on \<open>operations\<close>, the two on \<open>mcp\<close>.\<close>

lemma operations_ok:
  "member_ok (filterClosedObjectList (filterUnknownAuthentication
       (filterNamedList d ''operations'' operation_names) ''operations'') ''operations''
       [''authentication'', ''name'']) ''operations'' (on_object recognised_operation)"
  (is "member_ok ?d _ _")
proof -
  have 1: "member_ok ?d ''operations'' (on_object (recognized_at ''name'' operation_names))"
    unfolding keep_defs by (intro keep_members_ok_mono keep_members_ok)
  have 2: "member_ok ?d ''operations'' (on_object (\<lambda>m. \<not> hasUnknownAuthentication m))"
    unfolding keep_defs by (intro keep_members_ok_mono keep_members_ok)
  have 3: "member_ok ?d ''operations''
      (on_object (\<lambda>m. \<not> hasUnknownKeys m [''authentication'', ''name'']))"
    unfolding filterClosedObjectList_def by (rule keep_members_ok)
  show ?thesis
    by (rule member_ok_mono [OF member_ok_conj [OF 1 member_ok_conj [OF 2 3]]])
      (auto simp: on_object_def recognised_operation_def split: json.splits)
qed

lemma mcp_ok:
  "member_ok (filterClosedObjectList (filterTypedList d ''mcp'' [''streamable-http'']) ''mcp''
       [''description'', ''name'', ''type'', ''url'']) ''mcp'' (on_object recognised_endpoint)"
  (is "member_ok ?d _ _")
proof -
  have 1: "member_ok ?d ''mcp'' (on_object (recognized_at ''type'' [''streamable-http'']))"
    unfolding keep_defs by (intro keep_members_ok_mono keep_members_ok)
  have 2: "member_ok ?d ''mcp''
      (on_object (\<lambda>m. \<not> hasUnknownKeys m [''description'', ''name'', ''type'', ''url'']))"
    unfolding filterClosedObjectList_def by (rule keep_members_ok)
  show ?thesis
    by (rule member_ok_mono [OF member_ok_conj [OF 1 2]])
      (auto simp: on_object_def recognised_endpoint_def split: json.splits)
qed

lemma category_filtered:
  "category_ok (filterAgentProtocolCategory p category recognized) category recognized"
  by (auto simp: filterAgentProtocolCategory_def category_ok_def Let_def obj_simps list_all_iff
      split: option.splits)

lemma category_other:
  "c' \<noteq> c \<Longrightarrow>
   category_ok (filterAgentProtocolCategory p c recognized) c' r \<longleftrightarrow> category_ok p c' r"
  by (rule ok_cong) (simp add: obj_simps)

text \<open>What the first protocol filter guarantees, and what every later step keeps of it.\<close>

definition categories_ok :: "obj \<Rightarrow> bool" where
  "categories_ok p \<longleftrightarrow>
     category_ok p ''enrollment'' [''aep''] \<and> category_ok p ''payments'' [''mpp'', ''x402''] \<and>
     category_ok p ''trust'' [''tap'']"

lemma filterAgentProtocols_ok: "object_ok (filterAgentProtocols d) ''protocols'' categories_ok"
proof (cases "get_obj d ''protocols''")
  case None
  then show ?thesis by (simp add: filterAgentProtocols_def object_ok_def)
next
  case (Some p)
  then show ?thesis
    by (simp add: filterAgentProtocols_def object_ok_def Let_def obj_simps categories_ok_def
        category_filtered category_other)
qed

lemma category_keep_members:
  "category_ok p c r \<Longrightarrow> category_ok (keep_members p member keep) c r"
  by (auto simp: category_ok_def keep_members_def put_or_drop_def obj_simps list_all_iff
      split: option.splits)

definition authentication_ok :: "obj \<Rightarrow> bool" where
  "authentication_ok p \<longleftrightarrow>
     categories_ok p \<and>
     member_ok p ''payments'' (on_object (\<lambda>m. \<not> hasUnknownAuthentication m))"

lemma payment_authentication_ok:
  assumes "object_ok d ''protocols'' categories_ok"
  shows "object_ok (filter_payment_authentication d) ''protocols'' authentication_ok"
  using assms
  by (auto simp: filter_payment_authentication_def object_ok_def obj_simps authentication_ok_def
      categories_ok_def filterUnknownAuthentication_def category_keep_members keep_members_ok
      split: option.splits)

lemma filter_options_reads:
  assumes "k \<noteq> ''options''"
  shows "recognized_at k r (keep_members m ''options'' known_option) = recognized_at k r m"
    and "hasUnknownAuthentication (keep_members m ''options'' known_option)
       = hasUnknownAuthentication m"
  using assms
  by (simp_all add: recognized_at_def hasUnknownAuthentication_def get_str_def obj_simps)

lemma filter_options_on_object:
  "on_object (recognized_at ''name'' r) (filter_options x) = on_object (recognized_at ''name'' r) x"
  "on_object (\<lambda>m. \<not> hasUnknownAuthentication m) (filter_options x)
     = on_object (\<lambda>m. \<not> hasUnknownAuthentication m) x"
  "options_ok (filter_options x)"
  by (simp_all add: on_object_def filter_options_def options_ok_def keep_members_ok
      filter_options_reads(1) [of "''name''"] filter_options_reads(2) [of "''name''"]
      split: json.splits)

lemma payment_options_ok:
  assumes "object_ok d ''protocols'' authentication_ok"
  shows "object_ok (filterPaymentOptions d) ''protocols'' recognised_protocols"
proof (cases "get_obj d ''protocols''")
  case None
  then show ?thesis by (simp add: filterPaymentOptions_def object_ok_def)
next
  case p: (Some p)
  with assms have auth: "authentication_ok p" by (simp add: object_ok_def)
  show ?thesis
  proof (cases "get_arr p ''payments''")
    case None
    with p auth show ?thesis
      by (simp add: filterPaymentOptions_def object_ok_def authentication_ok_def
          categories_ok_def recognised_protocols_def member_ok_def)
  next
    case (Some payments)
    with p auth show ?thesis
      by (simp add: filterPaymentOptions_def object_ok_def authentication_ok_def
          categories_ok_def recognised_protocols_def category_ok_def member_ok_def obj_simps
          list_all_iff filter_options_on_object)
  qed
qed

lemma keep_keys_subset [simp]: "set (map fst (keep_keys ks m)) \<subseteq> set ks"
  by (auto simp: keep_keys_def)

lemma map_of_keep_keys [obj_simps]: "k \<in> set ks \<Longrightarrow> map_of (keep_keys ks m) k = map_of m k"
  by (induction m) (auto simp: keep_keys_def)

lemma keep_keys_id: "set (map fst m) \<subseteq> set ks \<Longrightarrow> keep_keys ks m = m"
  by (auto simp: keep_keys_def filter_id_conv)

lemma recognized_at_cong: "map_of m k = map_of m' k \<Longrightarrow> recognized_at k r m = recognized_at k r m'"
  using get_cong [of m k m'] by (simp add: recognized_at_def)

lemma image_keep_keys_ok:
  "recognized_at ''type'' [''image/png'', ''image/svg+xml'', ''image/webp''] img \<Longrightarrow>
   image_ok (keep_keys [''src'', ''type''] img)"
  using recognized_at_cong [of "keep_keys [''src'', ''type''] img" "''type''" img]
    keep_keys_subset [of "[''src'', ''type'']" img]
  by (simp add: image_ok_def obj_simps)

lemma update_member: "(a, x) \<in> set (AList.update k v d) \<Longrightarrow> a = k \<or> a \<in> fst ` set d"
  using dom_update [of k v d] by force

lemma branding_images_ok:
  assumes "branding_images [''icon'', ''logo''] b = Some b'"
    and "set (map fst b) \<subseteq> {''icon'', ''logo''}"
  shows "object_ok b' ''icon'' image_ok \<and> object_ok b' ''logo'' image_ok \<and>
    set (map fst b') \<subseteq> {''icon'', ''logo''}"
  using assms
  by (auto simp: object_ok_def obj_simps image_keep_keys_ok
      split: option.splits if_splits dest!: update_member)

lemma branding_ok: "object_ok (normalizeBranding d) ''branding'' recognised_branding"
proof (cases "get_obj d ''branding''")
  case None
  then show ?thesis by (simp add: normalizeBranding_def object_ok_def)
next
  case (Some b)
  let ?b = "keep_keys [''icon'', ''logo''] b"
  have keys: "set (map fst ?b) \<subseteq> {''icon'', ''logo''}"
    using keep_keys_subset [of "[''icon'', ''logo'']" b] by simp
  show ?thesis
  proof (cases "branding_images [''icon'', ''logo''] ?b")
    case None
    with Some show ?thesis by (simp add: normalizeBranding_def object_ok_def obj_simps)
  next
    case (Some b')
    from branding_images_ok [OF Some keys] \<open>get_obj d ''branding'' = Some b\<close> Some show ?thesis
      by (simp add: normalizeBranding_def object_ok_def [of _ "''branding''"] obj_simps
          recognised_branding_def)
  qed
qed

lemma source_ok:
  "object_ok (normalize_source c member recognized) member
     (\<lambda>s. member_ok s ''inline'' (on_object recognized))"
proof (cases "get_obj c member")
  case None
  then show ?thesis by (simp add: normalize_source_def object_ok_def)
next
  case (Some source)
  then show ?thesis
    by (cases "get_arr source ''inline''")
      (auto simp: normalize_source_def object_ok_def member_ok_def Let_def obj_simps list_all_iff)
qed

lemma capabilities_ok:
  "object_ok (normalizeSearchCapabilities d) ''search_capabilities'' recognised_capabilities"
proof (cases "get_obj d ''search_capabilities''")
  case None
  then show ?thesis by (simp add: normalizeSearchCapabilities_def object_ok_def)
next
  case (Some c)
  let ?f = "normalize_source c ''filters'' knownFilter"
  let ?c = "normalize_source ?f ''sorts'' knownSort"
  have "object_ok ?c ''filters'' (\<lambda>s. member_ok s ''inline'' (on_object knownFilter))"
    using source_ok [of c "''filters''" knownFilter]
    by (simp add: ok_cong [of ?c "''filters''" ?f] obj_simps)
  moreover have "object_ok ?c ''sorts'' (\<lambda>s. member_ok s ''inline'' (on_object knownSort))"
    by (rule source_ok)
  ultimately show ?thesis
    using Some by (simp add: normalizeSearchCapabilities_def object_ok_def [of _ "''search_capabilities''"]
        obj_simps Let_def recognised_capabilities_def)
qed

lemma strip_item_reads:
  assumes "\<forall>x. keep x = on_object (recognized_at ''type'' r) x" and "''type'' \<in> set allowed"
  shows "keep (strip_item allowed x) = keep x"
  using assms recognized_at_cong [of "keep_keys allowed _" "''type''"]
  by (simp add: on_object_def strip_item_def obj_simps split: json.splits)

lemma images_ok:
  "member_ok (stripObjectList (filterTypedList d ''images'' image_types) ''images''
       [''alt'', ''height'', ''src'', ''type'', ''width'']) ''images''
     (on_object (\<lambda>m. recognized_at ''type'' image_types m \<and>
          set (map fst m) \<subseteq> {''alt'', ''height'', ''src'', ''type'', ''width''}))"
proof (cases "get_arr (filterTypedList d ''images'' image_types) ''images''")
  case None
  then show ?thesis by (simp add: stripObjectList_def member_ok_def)
next
  case (Some items)
  let ?ks = "[''alt'', ''height'', ''src'', ''type'', ''width'']"
  have "member_ok (filterTypedList d ''images'' image_types) ''images''
      (on_object (recognized_at ''type'' image_types))"
    unfolding keep_defs by (rule keep_members_ok)
  with Some have items: "items \<noteq> []"
      "list_all (on_object (recognized_at ''type'' image_types)) items"
    by (simp_all add: member_ok_def)
  have "on_object (\<lambda>m. recognized_at ''type'' image_types m \<and>
          set (map fst m) \<subseteq> set ?ks) (strip_item ?ks x)" if "x \<in> set items" for x
  proof -
    from that items(2) have "on_object (recognized_at ''type'' image_types) x"
      by (simp add: list_all_iff)
    then show ?thesis
      using recognized_at_cong [of "keep_keys ?ks _" "''type''"] keep_keys_subset [of ?ks]
      by (simp add: on_object_def strip_item_def obj_simps split: json.splits)
  qed
  with Some items(1) show ?thesis
    by (simp add: stripObjectList_def member_ok_def obj_simps list_all_iff)
qed

lemma drop_object_ok: "object_ok (drop_object d member unusable) member (\<lambda>m. \<not> unusable m)"
  by (auto simp: drop_object_def object_ok_def obj_simps split: option.splits)

lemma offering_ok:
  "object_ok (normalizeOffering d) ''schema'' (\<lambda>schema. \<not> hasUnknownKeys schema [''url''])"
  "object_ok (normalizeOffering d) ''price'' (recognized_at ''type'' price_types)"
  "member_ok (normalizeOffering d) ''actions'' (on_object known_action)"
proof -
  let ?d1 = "drop_object d ''schema'' (\<lambda>schema. hasUnknownKeys schema [''url''])"
  let ?d2 = "drop_object ?d1 ''price'' (\<lambda>price. \<not> recognized_at ''type'' price_types price)"
  have eq: "normalizeOffering d = keep_members ?d2 ''actions'' (on_object known_action)"
    by (simp add: normalizeOffering_def Let_def)
  show "object_ok (normalizeOffering d) ''schema'' (\<lambda>schema. \<not> hasUnknownKeys schema [''url''])"
    using drop_object_ok [of d "''schema''" "\<lambda>schema. hasUnknownKeys schema [''url'']"]
    unfolding eq by (subst ok_cong [where d' = ?d1]) (simp_all add: obj_simps)
  show "object_ok (normalizeOffering d) ''price'' (recognized_at ''type'' price_types)"
    using drop_object_ok [of ?d1 "''price''" "\<lambda>price. \<not> recognized_at ''type'' price_types price"]
    unfolding eq by (subst ok_cong [where d' = ?d2]) (simp_all add: obj_simps)
  show "member_ok (normalizeOffering d) ''actions'' (on_object known_action)"
    unfolding eq by (rule keep_members_ok)
qed

subsubsection \<open>Every step leaves a recognised document alone\<close>

lemma category_id:
  assumes "category_ok p category recognized"
  shows "filterAgentProtocolCategory p category recognized = p"
proof (cases "get_arr p category")
  case None
  then show ?thesis by (simp add: filterAgentProtocolCategory_def)
next
  case (Some xs)
  with assms have "filter (on_object (recognized_at ''name'' recognized)) xs = xs"
    by (simp add: category_ok_def list_all_iff filter_id_conv)
  moreover from Some have "map_of p category = Some (JArr xs)" by (simp add: get_arr_Some)
  ultimately show ?thesis
    using Some by (simp add: filterAgentProtocolCategory_def Let_def update_same)
qed

lemma update_object_same: "get_obj d k = Some m \<Longrightarrow> AList.update k (JObj m) d = d"
  by (simp add: get_obj_Some update_same)

lemma filterAgentProtocols_id:
  assumes "object_ok d ''protocols'' categories_ok" and "get_obj d ''protocols'' \<noteq> Some []"
  shows "filterAgentProtocols d = d"
  using assms
  by (auto simp: filterAgentProtocols_def object_ok_def categories_ok_def category_id Let_def
      update_object_same split: option.splits)

lemma payment_authentication_id:
  assumes "object_ok d ''protocols'' authentication_ok"
  shows "filter_payment_authentication d = d"
  using assms
  by (auto simp: filter_payment_authentication_def object_ok_def authentication_ok_def
      filterUnknownAuthentication_def keep_members_id update_object_same split: option.splits)

lemma filter_options_id: "options_ok x \<Longrightarrow> filter_options x = x"
  by (auto simp: options_ok_def filter_options_def on_object_def keep_members_id
      split: json.splits)

lemma payment_options_id:
  assumes "object_ok d ''protocols'' recognised_protocols"
  shows "filterPaymentOptions d = d"
proof (cases "get_obj d ''protocols''")
  case None
  then show ?thesis by (simp add: filterPaymentOptions_def)
next
  case p: (Some p)
  show ?thesis
  proof (cases "get_arr p ''payments''")
    case None
    with p show ?thesis by (simp add: filterPaymentOptions_def)
  next
    case (Some xs)
    with assms p have "list_all options_ok xs"
      by (simp add: object_ok_def recognised_protocols_def member_ok_def list_all_iff)
    then have "map filter_options xs = xs"
      by (simp add: list_all_iff filter_options_id map_idI)
    moreover from Some have "map_of p ''payments'' = Some (JArr xs)" by (simp add: get_arr_Some)
    ultimately show ?thesis
      using p Some by (simp add: filterPaymentOptions_def update_same update_object_same)
  qed
qed

lemma recognised_protocols_parts:
  "recognised_protocols p \<Longrightarrow> authentication_ok p"
  by (auto simp: recognised_protocols_def authentication_ok_def categories_ok_def
      elim: member_ok_mono)

lemma image_id: "image_ok img \<Longrightarrow> keep_keys [''src'', ''type''] img = img"
  by (rule keep_keys_id) (simp add: image_ok_def)

lemma branding_id:
  assumes "object_ok d ''branding'' recognised_branding"
  shows "normalizeBranding d = d"
proof (cases "get_obj d ''branding''")
  case None
  then show ?thesis by (simp add: normalizeBranding_def)
next
  case (Some b)
  with assms have b: "recognised_branding b" by (simp add: object_ok_def)
  then have keys: "keep_keys [''icon'', ''logo''] b = b"
    by (intro keep_keys_id) (simp add: recognised_branding_def)
  have "branding_images [''icon'', ''logo''] b = Some b"
    using b by (auto simp: recognised_branding_def object_ok_def image_id update_object_same
        image_ok_def split: option.splits)
  with Some keys b show ?thesis
    by (simp add: normalizeBranding_def update_object_same recognised_branding_def)
qed

lemma source_id:
  assumes "object_ok c member (\<lambda>s. member_ok s ''inline'' (on_object recognized))"
  shows "normalize_source c member recognized = c"
proof (cases "get_obj c member")
  case None
  then show ?thesis by (simp add: normalize_source_def)
next
  case s: (Some source)
  show ?thesis
  proof (cases "get_arr source ''inline''")
    case None
    with s show ?thesis by (simp add: normalize_source_def)
  next
    case (Some items)
    with assms s have "items \<noteq> []" "filter (on_object recognized) items = items"
      by (simp_all add: object_ok_def member_ok_def list_all_iff filter_id_conv)
    moreover from Some have "map_of source ''inline'' = Some (JArr items)"
      by (simp add: get_arr_Some)
    ultimately show ?thesis
      using s Some by (simp add: normalize_source_def update_same update_object_same)
  qed
qed

lemma capabilities_id:
  assumes "object_ok d ''search_capabilities'' recognised_capabilities"
  shows "normalizeSearchCapabilities d = d"
  using assms
  by (auto simp: normalizeSearchCapabilities_def object_ok_def [of d] recognised_capabilities_def
      source_id Let_def update_object_same split: option.splits)

lemma strip_id:
  assumes "member_ok d member (on_object (\<lambda>m. set (map fst m) \<subseteq> set allowed))"
  shows "stripObjectList d member allowed = d"
proof (cases "get_arr d member")
  case None
  then show ?thesis by (simp add: stripObjectList_def)
next
  case (Some items)
  have "strip_item allowed x = x" if "x \<in> set items" for x
    using that assms Some
    by (auto simp: member_ok_def list_all_iff strip_item_def on_object_def keep_keys_id
        split: json.splits)
  moreover from Some have "map_of d member = Some (JArr items)" by (simp add: get_arr_Some)
  ultimately show ?thesis using Some by (simp add: stripObjectList_def map_idI update_same)
qed

lemma drop_object_id: "object_ok d member (\<lambda>m. \<not> unusable m) \<Longrightarrow> drop_object d member unusable = d"
  by (auto simp: drop_object_def object_ok_def split: option.splits)

lemma on_object_mono: "on_object P x \<Longrightarrow> (\<And>m. P m \<Longrightarrow> Q m) \<Longrightarrow> on_object Q x"
  by (auto simp: on_object_def split: json.splits)

lemma offering_id:
  assumes "object_ok d ''schema'' (\<lambda>schema. \<not> hasUnknownKeys schema [''url''])"
    and "object_ok d ''price'' (recognized_at ''type'' price_types)"
    and "member_ok d ''actions'' (on_object known_action)"
  shows "normalizeOffering d = d"
  using assms by (simp add: normalizeOffering_def drop_object_id keep_members_id)

lemma resource_id:
  assumes "recognised_resource d kind"
  shows "normalize_resource d kind = d"
proof -
  let ?P = "\<lambda>m. recognized_at ''type'' image_types m"
  let ?Q = "\<lambda>m. set (map fst m) \<subseteq> set [''alt'', ''height'', ''src'', ''type'', ''width'']"
  from assms have "member_ok d ''images'' (on_object (\<lambda>m. ?P m \<and> ?Q m))"
    by (simp add: recognised_resource_def)
  then have "member_ok d ''images'' (on_object ?P)" "member_ok d ''images'' (on_object ?Q)"
    by (blast intro: member_ok_mono on_object_mono)+
  then have "stripObjectList (filterTypedList d ''images'' image_types) ''images''
      [''alt'', ''height'', ''src'', ''type'', ''width''] = d"
    by (simp add: keep_defs keep_members_id strip_id)
  with assms show ?thesis
    by (simp add: normalize_resource_def recognised_resource_def Let_def capabilities_id offering_id)
qed

lemma service_id:
  assumes "recognised_service d" and "get_obj d ''protocols'' \<noteq> Some []"
  shows "normalize_service_document d = d"
proof -
  have p: "object_ok d ''protocols'' recognised_protocols"
    using assms(1) by (simp add: recognised_service_def)
  then have p': "object_ok d ''protocols'' authentication_ok"
    by (auto simp: object_ok_def recognised_protocols_parts split: option.splits)
  then have "object_ok d ''protocols'' categories_ok"
    by (auto simp: object_ok_def authentication_ok_def split: option.splits)
  note protocols = filterAgentProtocols_id [OF this assms(2)] payment_authentication_id [OF p']
    payment_options_id [OF p]
  have "member_ok d ''operations'' (on_object recognised_operation)"
      "member_ok d ''mcp'' (on_object recognised_endpoint)"
    using assms(1) by (simp_all add: recognised_service_def)
  then have "member_ok d ''operations'' (on_object (recognized_at ''name'' operation_names))"
      "member_ok d ''operations'' (on_object (\<lambda>m. \<not> hasUnknownAuthentication m))"
      "member_ok d ''operations'' (on_object (\<lambda>m. \<not> hasUnknownKeys m [''authentication'', ''name'']))"
      "member_ok d ''mcp'' (on_object (recognized_at ''type'' [''streamable-http'']))"
      "member_ok d ''mcp''
         (on_object (\<lambda>m. \<not> hasUnknownKeys m [''description'', ''name'', ''type'', ''url'']))"
    by (auto simp: recognised_operation_def recognised_endpoint_def
        elim!: member_ok_mono on_object_mono)
  note lists = this [THEN keep_members_id]
  have "object_ok d ''branding'' recognised_branding"
      "object_ok d ''search_capabilities'' recognised_capabilities"
    using assms(1) by (simp_all add: recognised_service_def)
  then show ?thesis
    by (simp add: normalize_service_document_def keep_defs protocols lists branding_id
        capabilities_id)
qed

subsubsection \<open>The whole normalisation\<close>

lemma service_recognised: "recognised_service (normalize_service_document d0)"
proof -
  define d1 where "d1 = filter_payment_authentication (filterAgentProtocols d0)"
  define d2 where "d2 = filterNamedList d1 ''operations'' operation_names"
  define d3 where "d3 = filterTypedList (filterUnknownAuthentication d2 ''operations'') ''mcp''
    [''streamable-http'']"
  define d4 where "d4 = filterClosedObjectList d3 ''operations'' [''authentication'', ''name'']"
  define d5 where "d5 = filterClosedObjectList d4 ''mcp''
    [''description'', ''name'', ''type'', ''url'']"
  define d6 where "d6 = normalizeBranding (filterPaymentOptions d5)"
  have eq: "normalize_service_document d0 = normalizeSearchCapabilities d6"
    by (simp add: normalize_service_document_def d1_def d2_def d3_def d4_def d5_def d6_def Let_def)
  note frames = d2_def d3_def d4_def d5_def d6_def keep_defs obj_simps
  have "map_of d5 ''protocols'' = map_of d1 ''protocols''"
    by (simp add: frames)
  note same = ok_cong(2) [OF this]
  have "object_ok d5 ''protocols'' authentication_ok"
    using payment_authentication_ok [OF filterAgentProtocols_ok [of d0]]
    by (simp add: same d1_def)
  note options = payment_options_ok [OF this]
  have "map_of (normalizeSearchCapabilities d6) ''protocols''
      = map_of (filterPaymentOptions d5) ''protocols''"
    by (simp add: d6_def obj_simps)
  note same = ok_cong(2) [OF this]
  have 1: "object_ok (normalizeSearchCapabilities d6) ''protocols'' recognised_protocols"
    using options by (simp add: same)
  have "get_arr d3 ''operations'' = get_arr (filterUnknownAuthentication d2 ''operations'') ''operations''"
    by (rule get_cong) (simp add: d3_def keep_defs obj_simps)
  then have "member_ok d4 ''operations'' k = member_ok (filterClosedObjectList
        (filterUnknownAuthentication d2 ''operations'') ''operations'' [''authentication'', ''name''])
        ''operations'' k" for k
    by (simp add: d4_def keep_defs keep_members_def member_ok_def put_or_drop_def obj_simps
        split: option.splits)
  then have "member_ok d4 ''operations'' (on_object recognised_operation)"
    using operations_ok [of d1] by (simp add: d2_def)
  moreover have "map_of (normalizeSearchCapabilities d6) ''operations'' = map_of d4 ''operations''"
    by (simp add: d6_def d5_def keep_defs obj_simps)
  note same = ok_cong(1) [OF this]
  ultimately have 2: "member_ok (normalizeSearchCapabilities d6) ''operations''
      (on_object recognised_operation)"
    by (simp add: same)
  have "get_arr d4 ''mcp'' = get_arr d3 ''mcp''"
    by (rule get_cong) (simp add: d4_def keep_defs obj_simps)
  then have "member_ok d5 ''mcp'' k = member_ok (filterClosedObjectList d3 ''mcp''
        [''description'', ''name'', ''type'', ''url'']) ''mcp'' k" for k
    by (simp add: d5_def keep_defs keep_members_def member_ok_def put_or_drop_def obj_simps
        split: option.splits)
  then have "member_ok d5 ''mcp'' (on_object recognised_endpoint)"
    using mcp_ok by (simp add: d3_def)
  moreover have "map_of (normalizeSearchCapabilities d6) ''mcp'' = map_of d5 ''mcp''"
    by (simp add: d6_def obj_simps)
  note same = ok_cong(1) [OF this]
  ultimately have 3: "member_ok (normalizeSearchCapabilities d6) ''mcp''
      (on_object recognised_endpoint)"
    by (simp add: same)
  have "map_of (normalizeSearchCapabilities d6) ''branding'' = map_of d6 ''branding''"
    by (simp add: obj_simps)
  note same = ok_cong(2) [OF this]
  have 4: "object_ok (normalizeSearchCapabilities d6) ''branding'' recognised_branding"
    using branding_ok by (simp add: same) (simp add: d6_def)
  show ?thesis
    unfolding eq using 1 2 3 4 capabilities_ok by (simp add: recognised_service_def)
qed

lemma resource_recognised: "recognised_resource (normalize_resource d kind) kind"
proof -
  define d1 where "d1 = stripObjectList (filterTypedList d ''images'' image_types) ''images''
    [''alt'', ''height'', ''src'', ''type'', ''width'']"
  define d2 where "d2 = normalizeSearchCapabilities d1"
  have eq: "normalize_resource d k = (if k = ''offering'' then normalizeOffering d2 else d2)" for k
    by (simp add: normalize_resource_def d1_def d2_def Let_def)
  have "map_of (normalize_resource d kind) ''images'' = map_of d1 ''images''"
    by (simp add: eq d2_def obj_simps)
  note images = ok_cong(1) [OF this]
  have "map_of (normalize_resource d kind) ''search_capabilities''
      = map_of d2 ''search_capabilities''"
    by (simp add: eq obj_simps)
  note caps = ok_cong(2) [OF this]
  show ?thesis
    unfolding recognised_resource_def images caps
    using images_ok [of d, folded d1_def] capabilities_ok [of d1, folded d2_def]
      offering_ok [of d2]
    by (auto simp: eq)
qed

lemma list_ok_map:
  "(\<And>x. keep (f x)) \<Longrightarrow> list_ok (AList.update k (JArr (map f xs)) d) k keep"
  by (simp add: list_ok_def obj_simps list_all_iff)

lemma list_ok_filter: "list_ok (AList.update k (JArr (filter keep xs)) d) k keep"
  by (simp add: list_ok_def obj_simps list_all_iff)

lemma normalize_item_recognised:
  "on_object (\<lambda>m. recognised_resource m kind) (normalize_item kind x)"
  by (simp add: on_object_def normalize_item_def resource_recognised split: json.splits)

lemma filterDefinitions_recognised: "list_ok (filterDefinitions d p) ''items'' (on_object p)"
  by (cases "get_arr d ''items''") (simp_all add: filterDefinitions_def list_ok_filter,
      simp add: list_ok_def)

lemma filterProblemParameters_recognised:
  "list_ok (filterProblemParameters d) ''invalid_params''
     (on_object (recognized_at ''in'' [''body'', ''header'', ''path'', ''query'']))"
  by (cases "get_arr d ''invalid_params''") (simp_all add: filterProblemParameters_def list_ok_filter,
      simp add: list_ok_def)

lemma items_recognised:
  "list_ok (case get_arr d ''items'' of None \<Rightarrow> d
     | Some items \<Rightarrow> AList.update ''items'' (JArr (map (normalize_item kind) items)) d) ''items''
     (on_object (\<lambda>m. recognised_resource m kind))"
  by (cases "get_arr d ''items''")
    (simp_all add: list_ok_map normalize_item_recognised, simp add: list_ok_def)

lemma normalized_recognised: "recognised (normalizeAgentDocument d kind) kind"
  using items_recognised [of d "''offering''"] items_recognised [of d "''collection''"]
  unfolding recognised_def normalizeAgentDocument_def Let_def
  by (simp add: service_recognised resource_recognised
      filterDefinitions_recognised filterProblemParameters_recognised)

text \<open>C1: normalisation leaves no descriptor behind that the Agent does not recognise: every
  operation, protocol, payment option, MCP endpoint, image, price, Action, Filter and Sort
  definition that remains is one of the closed vocabularies (on every item, for a page).\<close>

theorem normalize_recognised: "recognised (normalizeAgentDocument d kind) kind"
  by (rule normalized_recognised)

lemma items_id:
  assumes "list_ok d ''items'' (on_object (\<lambda>m. recognised_resource m kind))"
  shows "(case get_arr d ''items'' of None \<Rightarrow> d
     | Some items \<Rightarrow> AList.update ''items'' (JArr (map (normalize_item kind) items)) d) = d"
proof (cases "get_arr d ''items''")
  case (Some items)
  have same: "normalize_item kind x = x" if "on_object (\<lambda>m. recognised_resource m kind) x" for x
    using that by (auto simp: on_object_def normalize_item_def resource_id split: json.splits)
  from assms Some have "map (normalize_item kind) items = items"
    by (auto simp: list_ok_def list_all_iff same intro!: map_idI)
  moreover from Some have "map_of d ''items'' = Some (JArr items)" by (simp add: get_arr_Some)
  ultimately show ?thesis using Some by (simp add: update_same)
qed simp

lemma list_ok_filter_id:
  assumes "list_ok d k keep" and "get_arr d k = Some xs"
  shows "AList.update k (JArr (filter keep xs)) d = d"
proof -
  from assms have "filter keep xs = xs" by (simp add: list_ok_def list_all_iff filter_id_conv)
  with assms(2) show ?thesis by (simp add: get_arr_Some update_same)
qed

lemma filterDefinitions_id:
  "list_ok d ''items'' (on_object p) \<Longrightarrow> filterDefinitions d p = d"
  by (cases "get_arr d ''items''") (simp_all add: filterDefinitions_def list_ok_filter_id)

lemma filterProblemParameters_id:
  "list_ok d ''invalid_params''
     (on_object (recognized_at ''in'' [''body'', ''header'', ''path'', ''query''])) \<Longrightarrow>
   filterProblemParameters d = d"
  by (cases "get_arr d ''invalid_params''")
    (simp_all add: filterProblemParameters_def list_ok_filter_id)

lemma recognised_unchanged:
  assumes "recognised d kind"
    and "kind = ''service-document'' \<Longrightarrow> get_obj d ''protocols'' \<noteq> Some []"
  shows "normalizeAgentDocument d kind = d"
  using assms items_id [of d "''offering''"] items_id [of d "''collection''"]
  unfolding recognised_def normalizeAgentDocument_def Let_def
  by (simp add: service_id resource_id filterDefinitions_id filterProblemParameters_id
      split: if_splits)

text \<open>Normalisation is conservative and stable: a response whose descriptors are all
  recognised comes out unchanged, member order included, and so normalising what a normalisation
  returned changes nothing, unless a Service Document was left with an empty \<open>protocols\<close>.\<close>

theorem normalize_unchanged:
  "(recognised d kind \<and> (kind = ''service-document'' \<longrightarrow> get_obj d ''protocols'' \<noteq> Some []) \<longrightarrow>
     normalizeAgentDocument d kind = d) \<and>
   (let once = normalizeAgentDocument d kind in
    (kind = ''service-document'' \<longrightarrow> get_obj once ''protocols'' \<noteq> Some []) \<longrightarrow>
     normalizeAgentDocument once kind = once)"
  using recognised_unchanged [of d kind]
    recognised_unchanged [of "normalizeAgentDocument d kind" kind, OF normalized_recognised]
  by (simp add: Let_def)

theorem normalize_unchanged_witness:
  "normalizeAgentDocument [(''items'', JArr [JObj [(''in'', JStr ''body'')]])] ''problem''
     = [(''items'', JArr [JObj [(''in'', JStr ''body'')]])] \<and>
   normalizeAgentDocument (normalizeAgentDocument [(''operations'', JArr [JObj [(''name'', JStr ''x'')]])]
     ''service-document'') ''service-document'' = []"
  (is "normalizeAgentDocument ?d _ = _ \<and> normalizeAgentDocument (normalizeAgentDocument ?s _) _ = _")
proof -
  have "recognised ?d ''problem''" by code_simp
  then have 1: "normalizeAgentDocument ?d ''problem'' = ?d"
    using normalize_unchanged [of ?d "''problem''"] by simp
  have once: "normalizeAgentDocument ?s ''service-document'' = []" by code_simp
  have "get_obj [] ''protocols'' \<noteq> Some []" by code_simp
  then show ?thesis
    using 1 normalize_unchanged [of ?s "''service-document''"] by (simp add: once Let_def)
qed

text \<open>The exception of C4 is real.  The authentication filter on \<open>protocols.payments\<close> runs after
  the empty categories have been dropped, so a Service Document whose only protocol declares an
  unknown authentication keeps \<open>protocols: {}\<close>, which its schema (\<open>minProperties: 1\<close>) refuses; a
  second normalisation would have removed it.\<close>

lemma empty_protocols_survive:
  fixes unknown :: obj
  defines "unknown \<equiv> [(''protocols'', JObj [(''payments'',
     JArr [JObj [(''name'', JStr ''mpp''), (''authentication'', JStr ''delegated'')]])])]"
  shows "normalizeAgentDocument unknown ''service-document'' = [(''protocols'', JObj [])]"
    and "normalizeAgentDocument (normalizeAgentDocument unknown ''service-document'')
           ''service-document'' = []"
  unfolding unknown_def by code_simp+

subsection \<open>Numbers\<close>

lemma any_members_small:
  "small_integers (JObj d) \<Longrightarrow> any_members d = d \<and> numbers_in_range (JObj d)"
  using as_any_small [of "JObj d"] by (simp add: any_members_def)



end
