(* ===== verification/Pagination.thy ===== *)
theory Pagination
  imports Json
begin

section \<open>Page traversal\<close>

text \<open>
  \<open>pagination.go\<close>.  An iterator is the function of its \<open>yield\<close> that Go's range-over-func makes
  of it.  The consumer and the loader have state of their own, so \<open>yield\<close>, \<open>load\<close> and
  \<open>ctx.Err\<close> are functions on a world \<open>'w\<close> the traversal threads through in the order of its calls;
  \<open>yield\<close> answers whether to go on.
\<close>

record 'item page =
  additional :: obj
  auth_expands :: bool
  items :: "'item list"
  next_page :: string
  odp_version :: string

datatype 'e traversal_error = ErrPaginationLoop | TraversalLimit | Failed 'e

type_synonym ('item, 'e) page_event = "'e traversal_error + 'item page"
type_synonym ('item, 'e) item_event = "'e traversal_error + 'item"

definition MaxTraversalPages :: nat where "MaxTraversalPages = 16"

record ('item, 'e, 'w) paging =
  load_page :: "string \<Rightarrow> 'w \<Rightarrow> ('e + 'item page) \<times> 'w"
  ctx_err :: "'w \<Rightarrow> 'e option"

text \<open>The body of the \<open>for\<close> loop with \<open>fuel = MaxTraversalPages - count\<close> rounds left, and after it
  the test on the page the last round loaded.\<close>

fun pages_loop ::
  "('item, 'e, 'w) paging \<Rightarrow> (('item, 'e) page_event \<Rightarrow> 'w \<Rightarrow> bool \<times> 'w) \<Rightarrow>
   nat \<Rightarrow> string list \<Rightarrow> 'item page \<Rightarrow> 'w \<Rightarrow> 'w" where
  "pages_loop env yield 0 visited page w =
     (if next_page page \<noteq> [] then snd (yield (Inl TraversalLimit) w) else w)"
| "pages_loop env yield (Suc rounds) visited page w =
     (case yield (Inr page) w of
        (False, w1) \<Rightarrow> w1
      | (True, w1) \<Rightarrow>
          if next_page page = [] then w1
          else if next_page page \<in> set visited then snd (yield (Inl ErrPaginationLoop) w1)
          else (case ctx_err env w1 of
              Some err \<Rightarrow> snd (yield (Inl (Failed err)) w1)
            | None \<Rightarrow>
                (case load_page env (next_page page) w1 of
                   (Inl err, w2) \<Rightarrow> snd (yield (Inl (Failed err)) w2)
                 | (Inr next, w2) \<Rightarrow>
                     pages_loop env yield rounds (next_page page # visited) next w2)))"

definition IteratePages ::
  "('item, 'e, 'w) paging \<Rightarrow> 'item page \<Rightarrow> (('item, 'e) page_event \<Rightarrow> 'w \<Rightarrow> bool \<times> 'w) \<Rightarrow>
   'w \<Rightarrow> 'w" where
  "IteratePages env first yield w = pages_loop env yield MaxTraversalPages [] first w"

text \<open>\<open>for _, item := range page.Items\<close>: the answer is \<open>False\<close> when the body returned from the
  enclosing function, which ends the outer range as well.\<close>

fun items_loop ::
  "(('item, 'e) item_event \<Rightarrow> 'w \<Rightarrow> bool \<times> 'w) \<Rightarrow> 'item list \<Rightarrow> 'w \<Rightarrow> bool \<times> 'w" where
  "items_loop yield [] w = (True, w)"
| "items_loop yield (item # rest) w =
     (case yield (Inr item) w of
        (False, w1) \<Rightarrow> (False, w1)
      | (True, w1) \<Rightarrow> items_loop yield rest w1)"

definition items_body ::
  "(('item, 'e) item_event \<Rightarrow> 'w \<Rightarrow> bool \<times> 'w) \<Rightarrow> ('item, 'e) page_event \<Rightarrow> 'w \<Rightarrow> bool \<times> 'w" where
  "items_body yield event w =
     (case event of
        Inl err \<Rightarrow> (False, snd (yield (Inl err) w))
      | Inr page \<Rightarrow> items_loop yield (items page) w)"

definition IterateItems ::
  "('item, 'e, 'w) paging \<Rightarrow> 'item page \<Rightarrow> (('item, 'e) item_event \<Rightarrow> 'w \<Rightarrow> bool \<times> 'w) \<Rightarrow>
   'w \<Rightarrow> 'w" where
  "IterateItems env first yield w = IteratePages env first (items_body yield) w"

subsection \<open>Histories\<close>

text \<open>
  The world of a test harness: it logs every call and answers from the log so far, which is as
  general as any deterministic consumer, loader and context can be.
\<close>

datatype ('item, 'e) call = Yielded "('item, 'e) page_event" bool | Loaded string

type_synonym ('item, 'e) log = "('item, 'e) call list"

record ('item, 'e) world =
  accepts :: "('item, 'e) log \<Rightarrow> ('item, 'e) page_event \<Rightarrow> bool"
  serves :: "('item, 'e) log \<Rightarrow> string \<Rightarrow> 'e + 'item page"
  cancelled :: "('item, 'e) log \<Rightarrow> 'e option"

definition logged_yield ::
  "('item, 'e) world \<Rightarrow> ('item, 'e) page_event \<Rightarrow> ('item, 'e) log \<Rightarrow> bool \<times> ('item, 'e) log" where
  "logged_yield u event h = (accepts u h event, h @ [Yielded event (accepts u h event)])"

definition logged :: "('item, 'e) world \<Rightarrow> ('item, 'e, ('item, 'e) log) paging" where
  "logged u = \<lparr>load_page = \<lambda>cursor h. (serves u h cursor, h @ [Loaded cursor]), ctx_err = cancelled u\<rparr>"

fun loads :: "('item, 'e) log \<Rightarrow> string list" where
  "loads [] = []"
| "loads (Loaded cursor # h) = cursor # loads h"
| "loads (Yielded _ _ # h) = loads h"

fun yields :: "('item, 'e) log \<Rightarrow> ('item, 'e) page_event list" where
  "yields [] = []"
| "yields (Loaded _ # h) = yields h"
| "yields (Yielded e _ # h) = e # yields h"

text \<open>What a well-behaved iterator may do: after \<open>yield\<close> has answered \<open>False\<close>, and after it has
  reported an error, it makes no further call.\<close>

fun disciplined :: "('item, 'e) log \<Rightarrow> bool" where
  "disciplined [] = True"
| "disciplined (Loaded _ # h) = disciplined h"
| "disciplined (Yielded (Inl _) _ # h) = (h = [])"
| "disciplined (Yielded (Inr _) go # h) = (if go then disciplined h else h = [])"

lemma loads_append [simp]: "loads (h @ h') = loads h @ loads h'"
  by (induction h rule: loads.induct) simp_all

lemma yields_append [simp]: "yields (h @ h') = yields h @ yields h'"
  by (induction h rule: yields.induct) simp_all

text \<open>One round, as its history: the page is yielded and the traversal stops, ends with an error
  (before or after a load), or goes on with the page it loaded.\<close>

lemma pages_loop_round:
  fixes u :: "('item, 'e) world"
  defines "run \<equiv> pages_loop (logged u) (logged_yield u)"
  obtains (stop) go where "run (Suc rounds) visited page h = h @ [Yielded (Inr page) go]"
  | (error) err go where "run (Suc rounds) visited page h
        = h @ [Yielded (Inr page) True, Yielded (Inl err) go]"
  | (fail) err go where "next_page page \<noteq> []" "next_page page \<notin> set visited"
      "run (Suc rounds) visited page h
        = h @ [Yielded (Inr page) True, Loaded (next_page page), Yielded (Inl err) go]"
  | (continue) p where "next_page page \<noteq> []" "next_page page \<notin> set visited"
      "run (Suc rounds) visited page h = run rounds (next_page page # visited) p
        (h @ [Yielded (Inr page) True, Loaded (next_page page)])"
proof (cases "accepts u h (Inr page)")
  case False
  then show thesis by (intro stop) (simp add: run_def logged_yield_def)
next
  case True
  note yield = logged_yield_def True run_def
  let ?h1 = "h @ [Yielded (Inr page) True]"
  consider "next_page page = []" | "next_page page \<noteq> []" "next_page page \<in> set visited"
    | e where "next_page page \<noteq> []" "next_page page \<notin> set visited" "cancelled u ?h1 = Some e"
    | e where "next_page page \<noteq> []" "next_page page \<notin> set visited" "cancelled u ?h1 = None"
        "serves u ?h1 (next_page page) = Inl e"
    | p where "next_page page \<noteq> []" "next_page page \<notin> set visited" "cancelled u ?h1 = None"
        "serves u ?h1 (next_page page) = Inr p"
    by (cases "cancelled u ?h1"; cases "serves u ?h1 (next_page page)") auto
  then show thesis
  proof cases
    case 1
    then show thesis by (intro stop) (simp add: yield)
  next
    case 2
    then show thesis by (intro error [of ErrPaginationLoop]) (simp add: yield)
  next
    case (3 e)
    then show thesis by (intro error [of "Failed e"]) (simp add: yield logged_def)
  next
    case (4 e)
    then show thesis by (intro fail [of "Failed e"]) (simp_all add: yield logged_def)
  next
    case (5 p)
    then show thesis by (intro continue [of p]) (simp_all add: yield logged_def)
  qed
qed

lemma pages_loop_log:
  "\<exists>h'. pages_loop (logged u) (logged_yield u) rounds visited page h = h @ h' \<and>
     disciplined h' \<and> length (filter (\<lambda>e. \<not> isl e) (yields h')) \<le> rounds \<and>
     length (loads h') \<le> rounds \<and> distinct (loads h') \<and>
     set (loads h') \<inter> set visited = {} \<and> [] \<notin> set (loads h')"
proof (induction rounds arbitrary: visited page h)
  case 0
  show ?case
    by (rule exI [of _ "if next_page page = [] then []
          else [Yielded (Inl TraversalLimit) (accepts u h (Inl TraversalLimit))]"])
      (simp add: logged_yield_def)
next
  case (Suc rounds)
  show ?case
  proof (cases rule: pages_loop_round [of u rounds visited page h])
    case (continue p)
    from Suc.IH [of "next_page page # visited" p
        "h @ [Yielded (Inr page) True, Loaded (next_page page)]"]
    obtain h' where "pages_loop (logged u) (logged_yield u) rounds (next_page page # visited) p
        (h @ [Yielded (Inr page) True, Loaded (next_page page)])
        = (h @ [Yielded (Inr page) True, Loaded (next_page page)]) @ h'"
      "disciplined h'" "length (filter (\<lambda>e. \<not> isl e) (yields h')) \<le> rounds"
      "length (loads h') \<le> rounds" "distinct (loads h')"
      "set (loads h') \<inter> set (next_page page # visited) = {}" "[] \<notin> set (loads h')"
      by blast
    with continue show ?thesis
      by (intro exI [of _ "Yielded (Inr page) True # Loaded (next_page page) # h'"]) auto
  qed (force intro: exI)+
qed

text \<open>C2: whatever the loader returns and whenever the consumer stops, a traversal yields at most
  16 pages, loads at most 16 continuations and none of them twice, never calls \<open>yield\<close> again
  once it has answered \<open>False\<close>, and makes no call after it has reported an error.\<close>

theorem IteratePages_bounded:
  "\<exists>h. IteratePages (logged u) first (logged_yield u) [] = h \<and> disciplined h \<and>
     length (filter (\<lambda>e. \<not> isl e) (yields h)) \<le> MaxTraversalPages \<and>
     length (loads h) \<le> MaxTraversalPages \<and> distinct (loads h) \<and> [] \<notin> set (loads h)"
  using pages_loop_log [of u MaxTraversalPages "[]" first "[]"]
  by (auto simp: IteratePages_def)

subsection \<open>What a traversal delivers\<close>

text \<open>A server whose pages form a chain: every page but the last links to its successor, no
  continuation is used twice, and the consumer takes everything it is offered.\<close>

definition serving :: "(string \<Rightarrow> 'e + 'item page) \<Rightarrow> ('item, 'e) world" where
  "serving f = \<lparr>accepts = \<lambda>_ _. True, serves = \<lambda>_. f, cancelled = \<lambda>_. None\<rparr>"

fun linked :: "(string \<Rightarrow> 'e + 'item page) \<Rightarrow> 'item page list \<Rightarrow> bool" where
  "linked f [] = False"
| "linked f [p] = (next_page p = [])"
| "linked f (p # q # ps) = (next_page p \<noteq> [] \<and> f (next_page p) = Inr q \<and> linked f (q # ps))"

definition chain :: "(string \<Rightarrow> 'e + 'item page) \<Rightarrow> 'item page list \<Rightarrow> bool" where
  "chain f ps \<longleftrightarrow> linked f ps \<and> distinct (map next_page ps)"

text \<open>The events such a traversal delivers within the given number of rounds.\<close>

definition delivered :: "nat \<Rightarrow> 'item page list \<Rightarrow> ('item, 'e) page_event list" where
  "delivered rounds ps = map Inr (take rounds ps) @
     (if Suc rounds < length ps then [Inl TraversalLimit] else [])"

lemma delivered_short: "length ps \<le> rounds \<Longrightarrow> delivered rounds ps = map Inr ps"
  by (simp add: delivered_def)

lemma pages_loop_chain:
  assumes "linked f (p # ps)" and "distinct (map next_page (p # ps))"
    and "\<forall>q\<in>set (p # ps). next_page q \<noteq> [] \<longrightarrow> next_page q \<notin> set visited"
  shows "yields (pages_loop (logged (serving f)) (logged_yield (serving f)) rounds visited p h)
     = yields h @ delivered rounds (p # ps) \<and>
   loads (pages_loop (logged (serving f)) (logged_yield (serving f)) rounds visited p h)
     = loads h @ map next_page (take rounds (butlast (p # ps)))"
  using assms
proof (induction rounds arbitrary: p ps visited h)
  case 0
  then show ?case
    by (cases ps) (simp_all add: delivered_def logged_yield_def)
next
  case (Suc rounds)
  show ?case
  proof (cases ps)
    case Nil
    with Suc.prems show ?thesis by (simp add: delivered_def logged_yield_def serving_def)
  next
    case (Cons q qs)
    let ?h = "h @ [Yielded (Inr p) True, Loaded (next_page p)]"
    from Suc.prems Cons have "next_page p \<noteq> []" "next_page p \<notin> set visited"
      "f (next_page p) = Inr q" by simp_all
    then have step: "pages_loop (logged (serving f)) (logged_yield (serving f)) (Suc rounds) visited p h
        = pages_loop (logged (serving f)) (logged_yield (serving f)) rounds
            (next_page p # visited) q ?h"
      by (simp add: logged_yield_def logged_def serving_def)
    have 1: "linked f (q # qs)" and 2: "distinct (map next_page (q # qs))"
      using Suc.prems Cons by simp_all
    have 3: "\<forall>r\<in>set (q # qs). next_page r \<noteq> [] \<longrightarrow> next_page r \<notin> set (next_page p # visited)"
    proof (intro ballI impI)
      fix r assume r: "r \<in> set (q # qs)" and "next_page r \<noteq> []"
      with Suc.prems(3) have "next_page r \<notin> set visited" by (auto simp: Cons)
      moreover have "next_page p \<notin> next_page ` set (q # qs)" using Suc.prems(2) by (simp add: Cons)
      with r have "next_page r \<noteq> next_page p" by (metis imageI)
      ultimately show "next_page r \<notin> set (next_page p # visited)" by simp
    qed
    show ?thesis
      unfolding step Cons Suc.IH [OF 1 2 3, THEN conjunct1] Suc.IH [OF 1 2 3, THEN conjunct2]
      by (simp add: delivered_def)
  qed
qed

lemma IteratePages_chain:
  assumes "chain f (first # ps)"
  shows "yields (IteratePages (logged (serving f)) first (logged_yield (serving f)) [])
      = delivered MaxTraversalPages (first # ps)"
    and "loads (IteratePages (logged (serving f)) first (logged_yield (serving f)) [])
      = map next_page (take MaxTraversalPages (butlast (first # ps)))"
  using pages_loop_chain [of f first ps "[]" MaxTraversalPages "[]"] assms
  by (simp_all add: IteratePages_def chain_def)

text \<open>A listing of at most 16 pages is delivered whole, in order and without an error; one of
  more than 17 pages ends with the traversal-limit error after the sixteenth.\<close>

theorem IteratePages_delivers:
  assumes "chain f (first # ps)"
  shows "let got = yields (IteratePages (logged (serving f)) first (logged_yield (serving f)) [])
     in (length (first # ps) \<le> MaxTraversalPages \<longrightarrow> got = map Inr (first # ps)) \<and>
        (Suc MaxTraversalPages < length (first # ps) \<longrightarrow>
           got = map Inr (take MaxTraversalPages (first # ps)) @ [Inl TraversalLimit])"
  using IteratePages_chain(1) [OF assms] by (simp add: delivered_def Let_def)

text \<open>C3: a listing of exactly 17 pages is truncated without an error: the last round loads the
  seventeenth page, finds that it has no continuation, and returns without having yielded it.\<close>

theorem IteratePages_drops_page_17:
  assumes "chain f (first # ps)" and "length (first # ps) = Suc MaxTraversalPages"
  shows "let h = IteratePages (logged (serving f)) first (logged_yield (serving f)) [] in
    yields h = map Inr (butlast (first # ps)) \<and>
    loads h = map next_page (butlast (first # ps)) \<and>
    f (next_page (last (butlast (first # ps)))) = Inr (last (first # ps))"
proof -
  have last_link: "f (next_page (last (butlast qs))) = Inr (last qs)"
    if "linked f qs" and "1 < length qs" for qs
    using that
  proof (induction f qs rule: linked.induct)
    case (3 f p q ps)
    then show ?case by (cases ps) auto
  qed simp_all
  have take: "take MaxTraversalPages (first # ps) = butlast (first # ps)"
    by (simp only: butlast_conv_take assms(2) diff_Suc_1)
  have all: "take MaxTraversalPages (butlast (first # ps)) = butlast (first # ps)"
    by (rule take_all) (simp only: length_butlast assms(2) diff_Suc_1)
  have "linked f (first # ps)" using assms(1) by (simp only: chain_def)
  moreover have "1 < length (first # ps)" by (simp only: assms(2) MaxTraversalPages_def)
  ultimately have "f (next_page (last (butlast (first # ps)))) = Inr (last (first # ps))"
    by (rule last_link)
  then show ?thesis
    unfolding Let_def IteratePages_chain [OF assms(1)] delivered_def take all assms(2)
    by (simp only: less_irrefl if_False append_Nil2 simp_thms)
qed

text \<open>A server of numbered pages, for concrete runs.\<close>

definition numbered_page :: "nat \<Rightarrow> nat \<Rightarrow> nat page" where
  "numbered_page n i = \<lparr>additional = [], auth_expands = False, items = [i],
     next_page = (if Suc i < n then replicate (Suc i) CHR ''x'' else []), odp_version = ''1.0''\<rparr>"

definition numbered :: "nat \<Rightarrow> string \<Rightarrow> unit + nat page" where
  "numbered n cursor = (if length cursor < n then Inr (numbered_page n (length cursor)) else Inl ())"

theorem IteratePages_delivers_witness:
  "yields (IteratePages (logged (serving (numbered 2))) (numbered_page 2 0)
      (logged_yield (serving (numbered 2))) [])
    = map Inr [numbered_page 2 0, numbered_page 2 1] \<and>
   yields (IteratePages (logged (serving (numbered 18))) (numbered_page 18 0)
      (logged_yield (serving (numbered 18))) [])
    = map Inr (take 16 (map (numbered_page 18) [0..<18])) @ [Inl TraversalLimit]"
proof -
  have "chain (numbered 2) [numbered_page 2 0, numbered_page 2 1]" by code_simp
  moreover have "chain (numbered 18) (numbered_page 18 0 # map (numbered_page 18) [1..<18])"
    by code_simp
  ultimately show ?thesis
    using IteratePages_delivers [of "numbered 2" "numbered_page 2 0" "[numbered_page 2 1]"]
      IteratePages_delivers [of "numbered 18" "numbered_page 18 0" "map (numbered_page 18) [1..<18]"]
    by (simp add: Let_def MaxTraversalPages_def upt_conv_Cons)
qed

theorem IteratePages_drops_page_17_witness:
  "yields (IteratePages (logged (serving (numbered 17))) (numbered_page 17 0)
      (logged_yield (serving (numbered 17))) [])
    = map Inr (map (numbered_page 17) [0..<16]) \<and>
   numbered 17 (replicate 16 CHR ''x'') = Inr (numbered_page 17 16)"
proof -
  have "chain (numbered 17) (numbered_page 17 0 # map (numbered_page 17) [1..<17])"
    by code_simp
  moreover have "length (numbered_page 17 0 # map (numbered_page 17) [1..<17]) = Suc MaxTraversalPages"
    by code_simp
  moreover have "butlast (numbered_page 17 0 # map (numbered_page 17) [1..<17])
      = map (numbered_page 17) [0..<16]" by code_simp
  moreover have "numbered 17 (replicate 16 CHR ''x'') = Inr (numbered_page 17 16)" by code_simp
  ultimately show ?thesis
    using IteratePages_drops_page_17 [of "numbered 17" "numbered_page 17 0"
        "map (numbered_page 17) [1..<17]"]
    by (simp only: Let_def simp_thms)
qed

subsection \<open>Items\<close>

lemma items_loop_all:
  assumes "\<And>x w. fst (yield (Inr x) w)"
  shows "items_loop yield xs w = (True, fold (\<lambda>x w. snd (yield (Inr x) w)) xs w)"
proof (induction xs arbitrary: w)
  case (Cons x xs)
  then show ?case using assms [of x w] by (cases "yield (Inr x) w") simp
qed simp

lemma pages_loop_fold:
  assumes "\<And>q w. fst (yield (Inr q) w)"
    and "\<And>c w. load_page env c w = (f c, w)" and "\<And>w. ctx_err env w = None"
    and "linked f (p # ps)" and "distinct (map next_page (p # ps))"
    and "\<forall>q\<in>set (p # ps). next_page q \<noteq> [] \<longrightarrow> next_page q \<notin> set visited"
  shows "pages_loop env yield rounds visited p w
    = fold (\<lambda>e w. snd (yield e w)) (delivered rounds (p # ps)) w"
  using assms(4-)
proof (induction rounds arbitrary: p ps visited w)
  case 0
  then show ?case by (cases ps) (simp_all add: delivered_def)
next
  case (Suc rounds)
  obtain w1 where yield: "yield (Inr p) w = (True, w1)"
    using assms(1) [of p w] by (cases "yield (Inr p) w") simp
  show ?case
  proof (cases ps)
    case Nil
    with Suc.prems yield show ?thesis by (simp add: delivered_def)
  next
    case (Cons q qs)
    have 1: "linked f (q # qs)" and 2: "distinct (map next_page (q # qs))"
      and p: "next_page p \<notin> next_page ` set (q # qs)"
      using Suc.prems Cons by simp_all
    have 3: "\<forall>r\<in>set (q # qs). next_page r \<noteq> [] \<longrightarrow> next_page r \<notin> set (next_page p # visited)"
    proof (intro ballI impI)
      fix r assume r: "r \<in> set (q # qs)" and "next_page r \<noteq> []"
      with Suc.prems(3) have "next_page r \<notin> set visited" by (auto simp: Cons)
      moreover from p r have "next_page r \<noteq> next_page p" by (metis imageI)
      ultimately show "next_page r \<notin> set (next_page p # visited)" by simp
    qed
    have "pages_loop env yield (Suc rounds) visited p w
        = pages_loop env yield rounds (next_page p # visited) q w1"
      using Suc.prems Cons by (simp add: yield assms(2,3))
    then show ?thesis
      by (simp only: Suc.IH [OF 1 2 3]) (simp add: Cons delivered_def yield)
  qed
qed

lemma fold_items:
  "fold (\<lambda>x w. snd (True, w @ [Inr x])) xs w = w @ map Inr xs"
  by (induction xs arbitrary: w) simp_all

text \<open>The items of a listing of at most 16 pages reach the consumer in order, each once.\<close>

theorem IterateItems_delivers:
  assumes "chain f (first # ps)" and "length (first # ps) \<le> MaxTraversalPages"
  shows "IterateItems \<lparr>load_page = \<lambda>cursor w. (f cursor, w), ctx_err = \<lambda>_. None\<rparr> first
      (\<lambda>event w. (True, w @ [event])) [] = map Inr (concat (map items (first # ps)))"
proof -
  let ?yield = "\<lambda>event w. (True, w @ [event])"
  have body: "items_body ?yield (Inr q) w = (True, w @ map Inr (items q))" for q w
    unfolding items_body_def by (simp add: items_loop_all fold_items [simplified])
  have "fold (\<lambda>e w. snd (items_body ?yield e w)) (map Inr qs) w
      = w @ map Inr (concat (map items qs))" for qs w
    by (induction qs arbitrary: w) (simp_all add: body)
  note all = this [of "first # ps" "[]"]
  then show ?thesis
    using assms(1) pages_loop_fold [of "items_body ?yield"
        "\<lparr>load_page = \<lambda>cursor w. (f cursor, w), ctx_err = \<lambda>_. None\<rparr>" f first ps "[]"
        MaxTraversalPages "[]"]
    by (simp add: IterateItems_def IteratePages_def chain_def body delivered_short [OF assms(2)])
qed

theorem IterateItems_delivers_witness:
  "IterateItems \<lparr>load_page = \<lambda>cursor w. (numbered 2 cursor, w), ctx_err = \<lambda>_. None\<rparr>
     (numbered_page 2 0) (\<lambda>event w. (True, w @ [event])) [] = [Inr 0, Inr 1]"
proof -
  have "chain (numbered 2) [numbered_page 2 0, numbered_page 2 1]" by code_simp
  then show ?thesis
    using IterateItems_delivers [of "numbered 2" "numbered_page 2 0" "[numbered_page 2 1]"]
    by (simp add: MaxTraversalPages_def numbered_page_def)
qed

end
