(* ===== verification/Models.thy ===== *)
theory Models
  imports GoStrings Json
begin

section \<open>The protocol types\<close>

text \<open>
  The struct types of \<open>models.go\<close> as \<open>reflect\<close> and \<open>encoding/json\<close> see them: a struct is its
  fields in order, each with its Go name, its \<open>json\<close> tag and its type.  Named string types
  (\<open>Operation\<close>, \<open>PriceType\<close>, \<dots>) are strings to the codec.  \<open>TRaw\<close> is \<open>json.RawMessage\<close>, \<open>TAny\<close>
  is \<open>any\<close>, \<open>TMap\<close> is \<open>map[string]json.RawMessage\<close> (\<open>AdditionalMembers\<close>), \<open>TOptional\<close> is
  \<open>Optional[Value]\<close> of \<open>optional.go\<close>.
\<close>

datatype gtype =
    TString
  | TBool
  | TInt
  | TAny
  | TRaw
  | TMap
  | TSlice gtype
  | TPtr gtype
  | TOptional gtype
  | TStruct "(string \<times> string \<times> gtype) list"

type_synonym field = "string \<times> string \<times> gtype"

text \<open>\<open>strings.Split(tag, ",")[0]\<close> and the options after it.\<close>

definition tag_name :: "string \<Rightarrow> string" where
  "tag_name tag = hd (split_on CHR '','' tag)"

definition tag_option :: "string \<Rightarrow> string \<Rightarrow> bool" where
  "tag_option tag option \<longleftrightarrow> option \<in> set (tl (split_on CHR '','' tag))"

definition jsonFieldNames :: "field list \<Rightarrow> string list" where
  "jsonFieldNames fs =
     filter (\<lambda>name. name \<noteq> [] \<and> name \<noteq> ''-'') (map (\<lambda>(_, tag, _). tag_name tag) fs)"

text \<open>The types with an \<open>Additional\<close> field are the ones \<open>additional.go\<close> gives an \<open>UnmarshalJSON\<close>
  and a \<open>MarshalJSON\<close>.\<close>

definition extensible :: "field list \<Rightarrow> bool" where
  "extensible fs \<longleftrightarrow> ''Additional'' \<in> set (map fst fs)"

subsection \<open>\<open>models.go\<close>\<close>

definition OperationDescriptor_type :: gtype where
  "OperationDescriptor_type = TStruct [
     (''Authentication'', ''authentication'', TString),
     (''Name'', ''name'', TString)]"

definition EnrollmentProtocol_type :: gtype where
  "EnrollmentProtocol_type = TStruct [
     (''Name'', ''name'', TString)]"

definition PaymentProtocol_type :: gtype where
  "PaymentProtocol_type = TStruct [
     (''Authentication'', ''authentication'', TString),
     (''Name'', ''name'', TString),
     (''Options'', ''options,omitempty'', TSlice TString)]"

definition TrustProtocol_type :: gtype where
  "TrustProtocol_type = TStruct [
     (''Name'', ''name'', TString)]"

definition ServiceProtocols_type :: gtype where
  "ServiceProtocols_type = TStruct [
     (''Enrollment'', ''enrollment,omitempty'', TSlice EnrollmentProtocol_type),
     (''Payments'', ''payments,omitempty'', TSlice PaymentProtocol_type),
     (''Trust'', ''trust,omitempty'', TSlice TrustProtocol_type)]"

definition CapabilityLink_type :: gtype where
  "CapabilityLink_type = TStruct [
     (''Additional'', ''-'', TMap),
     (''Href'', ''href'', TString)]"

definition FilterUnit_type :: gtype where
  "FilterUnit_type = TStruct [
     (''Additional'', ''-'', TMap),
     (''Code'', ''code'', TString),
     (''System'', ''system'', TString),
     (''Title'', ''title,omitempty'', TString)]"

definition FilterDefinition_type :: gtype where
  "FilterDefinition_type = TStruct [
     (''Additional'', ''-'', TMap),
     (''Description'', ''description'', TString),
     (''ID'', ''id'', TString),
     (''Operators'', ''operators'', TSlice TString),
     (''Refinable'', ''refinable,omitempty'', TBool),
     (''Title'', ''title'', TString),
     (''Type'', ''type'', TString),
     (''Unit'', ''unit,omitempty'', TPtr FilterUnit_type)]"

definition SortKey_type :: gtype where
  "SortKey_type = TStruct [
     (''Additional'', ''-'', TMap),
     (''Direction'', ''direction'', TString),
     (''FilterID'', ''filter_id'', TString),
     (''Missing'', ''missing'', TString)]"

definition SortDefinition_type :: gtype where
  "SortDefinition_type = TStruct [
     (''Additional'', ''-'', TMap),
     (''Description'', ''description'', TString),
     (''ID'', ''id'', TString),
     (''Keys'', ''keys'', TSlice SortKey_type),
     (''Title'', ''title'', TString)]"

definition FilterCapabilitySource_type :: gtype where
  "FilterCapabilitySource_type = TStruct [
     (''Additional'', ''-'', TMap),
     (''Inline'', ''inline,omitempty'', TSlice FilterDefinition_type),
     (''Linked'', ''linked,omitempty'', TPtr CapabilityLink_type)]"

definition SortCapabilitySource_type :: gtype where
  "SortCapabilitySource_type = TStruct [
     (''Additional'', ''-'', TMap),
     (''Inline'', ''inline,omitempty'', TSlice SortDefinition_type),
     (''Linked'', ''linked,omitempty'', TPtr CapabilityLink_type)]"

definition SearchCapabilities_type :: gtype where
  "SearchCapabilities_type = TStruct [
     (''Additional'', ''-'', TMap),
     (''Filters'', ''filters,omitempty'', TPtr FilterCapabilitySource_type),
     (''Sorts'', ''sorts,omitempty'', TPtr SortCapabilitySource_type)]"

definition ServiceBrandingImage_type :: gtype where
  "ServiceBrandingImage_type = TStruct [
     (''Source'', ''src'', TString),
     (''Type'', ''type,omitempty'', TString)]"

definition ServiceBranding_type :: gtype where
  "ServiceBranding_type = TStruct [
     (''Icon'', ''icon'', ServiceBrandingImage_type),
     (''Logo'', ''logo'', ServiceBrandingImage_type)]"

definition ServiceOpenAPI_type :: gtype where
  "ServiceOpenAPI_type = TStruct [
     (''URL'', ''url'', TString)]"

definition HTTPConfiguration_type :: gtype where
  "HTTPConfiguration_type = TStruct [
     (''Additional'', ''-'', TMap),
     (''EndpointBase'', ''endpoint_base'', TString),
     (''OpenAPI'', ''openapi,omitempty'', TPtr ServiceOpenAPI_type)]"

definition MCPEndpoint_type :: gtype where
  "MCPEndpoint_type = TStruct [
     (''Description'', ''description,omitempty'', TString),
     (''Name'', ''name,omitempty'', TString),
     (''Type'', ''type'', TString),
     (''URL'', ''url'', TString)]"

definition ServiceDocument_type :: gtype where
  "ServiceDocument_type = TStruct [
     (''Additional'', ''-'', TMap),
     (''Branding'', ''branding,omitempty'', TPtr ServiceBranding_type),
     (''Description'', ''description'', TString),
     (''DocumentationURL'', ''documentation_url,omitempty'', TString),
     (''HTTP'', ''http'', HTTPConfiguration_type),
     (''Keywords'', ''keywords,omitempty'', TSlice TString),
     (''Language'', ''language'', TString),
     (''Localizations'', ''localizations'', TSlice TString),
     (''MCP'', ''mcp,omitempty'', TSlice MCPEndpoint_type),
     (''Name'', ''name'', TString),
     (''ODPVersion'', ''odp_version'', TString),
     (''Operations'', ''operations'', TSlice OperationDescriptor_type),
     (''PaymentOrigins'', ''payment_origins,omitempty'', TSlice TString),
     (''Protocols'', ''protocols,omitempty'', TPtr ServiceProtocols_type),
     (''SearchCapabilities'', ''search_capabilities,omitempty'', TPtr SearchCapabilities_type),
     (''StatusURL'', ''status_url,omitempty'', TString),
     (''SupportURL'', ''support_url,omitempty'', TString),
     (''WebsiteURL'', ''website_url,omitempty'', TString)]"

definition ResourceImage_type :: gtype where
  "ResourceImage_type = TStruct [
     (''Alt'', ''alt,omitempty'', TString),
     (''Height'', ''height,omitempty'', TInt),
     (''Source'', ''src'', TString),
     (''Type'', ''type,omitempty'', TString),
     (''Width'', ''width,omitempty'', TInt)]"

definition Collection_type :: gtype where
  "Collection_type = TStruct [
     (''Additional'', ''-'', TMap),
     (''AuthExpands'', ''auth_expands,omitempty'', TBool),
     (''Description'', ''description,omitempty'', TString),
     (''DetailFields'', ''detail_fields,omitempty'', TSlice TString),
     (''ID'', ''id'', TString),
     (''Images'', ''images,omitempty'', TSlice ResourceImage_type),
     (''Language'', ''language,omitempty'', TString),
     (''Localizations'', ''localizations,omitempty'', TSlice TString),
     (''Name'', ''name'', TString),
     (''ODPVersion'', ''odp_version,omitempty'', TString),
     (''ParentIDs'', ''parent_ids,omitempty'', TSlice TString),
     (''SearchCapabilities'', ''search_capabilities,omitempty'', TPtr SearchCapabilities_type),
     (''WebURL'', ''web_url,omitempty'', TString)]"

definition SchemaReference_type :: gtype where
  "SchemaReference_type = TStruct [
     (''URL'', ''url'', TString)]"

definition PricePreview_type :: gtype where
  "PricePreview_type = TStruct [
     (''Additional'', ''-'', TMap),
     (''Amount'', ''amount,omitempty'', TString),
     (''Currency'', ''currency,omitempty'', TString),
     (''Maximum'', ''maximum,omitempty'', TString),
     (''Minimum'', ''minimum,omitempty'', TString),
     (''Type'', ''type'', TString),
     (''Unit'', ''unit,omitempty'', TString)]"

definition ActionRequest_type :: gtype where
  "ActionRequest_type = TStruct [
     (''ContentType'', ''content_type,omitempty'', TString),
     (''Schema'', ''schema,omitempty'', TPtr SchemaReference_type)]"

definition HTTPActionTarget_type :: gtype where
  "HTTPActionTarget_type = TStruct [
     (''Href'', ''href'', TString),
     (''Method'', ''method'', TString),
     (''Request'', ''request,omitempty'', TPtr ActionRequest_type),
     (''ResponseContentTypes'', ''response_content_types,omitempty'', TSlice TString)]"

definition OpenAPIActionTarget_type :: gtype where
  "OpenAPIActionTarget_type = TStruct [
     (''OperationID'', ''operation_id'', TString),
     (''URL'', ''url,omitempty'', TString)]"

definition Action_type :: gtype where
  "Action_type = TStruct [
     (''Authentication'', ''authentication'', TString),
     (''Description'', ''description,omitempty'', TString),
     (''HTTP'', ''http,omitempty'', TPtr HTTPActionTarget_type),
     (''ID'', ''id'', TString),
     (''OpenAPI'', ''openapi,omitempty'', TPtr OpenAPIActionTarget_type),
     (''Rel'', ''rel'', TString)]"

definition Offering_type :: gtype where
  "Offering_type = TStruct [
     (''Actions'', ''actions,omitempty'', TSlice Action_type),
     (''Additional'', ''-'', TMap),
     (''AuthExpands'', ''auth_expands,omitempty'', TBool),
     (''Attributes'', ''attributes,omitempty'', TMap),
     (''CollectionIDs'', ''collection_ids,omitempty'', TSlice TString),
     (''Description'', ''description,omitempty'', TString),
     (''DetailFields'', ''detail_fields,omitempty'', TSlice TString),
     (''ID'', ''id'', TString),
     (''Images'', ''images,omitempty'', TSlice ResourceImage_type),
     (''Language'', ''language,omitempty'', TString),
     (''Localizations'', ''localizations,omitempty'', TSlice TString),
     (''Name'', ''name'', TString),
     (''ODPVersion'', ''odp_version,omitempty'', TString),
     (''Price'', ''price,omitempty'', TPtr PricePreview_type),
     (''Schema'', ''schema,omitempty'', TPtr SchemaReference_type),
     (''WebURL'', ''web_url,omitempty'', TString)]"

definition InvalidParameter_type :: gtype where
  "InvalidParameter_type = TStruct [
     (''Additional'', ''-'', TMap),
     (''In'', ''in'', TString),
     (''Name'', ''name'', TString),
     (''Reason'', ''reason'', TString)]"

definition ProblemDetails_type :: gtype where
  "ProblemDetails_type = TStruct [
     (''Additional'', ''-'', TMap),
     (''Code'', ''code'', TString),
     (''Detail'', ''detail,omitempty'', TString),
     (''Instance'', ''instance,omitempty'', TString),
     (''InvalidParams'', ''invalid_params,omitempty'', TSlice InvalidParameter_type),
     (''Status'', ''status'', TInt),
     (''Title'', ''title'', TString),
     (''Type'', ''type'', TString)]"

definition ResourceIdentity_type :: gtype where
  "ResourceIdentity_type = TStruct [
     (''ID'', ''id'', TString),
     (''Service'', ''service'', TString),
     (''Type'', ''type'', TString)]"

definition CollectionSearchRequest_type :: gtype where
  "CollectionSearchRequest_type = TStruct [
     (''Additional'', ''-'', TMap),
     (''Limit'', ''limit,omitempty'', TInt),
     (''ODPVersion'', ''odp_version'', TString),
     (''ParentID'', ''parent_id,omitzero'', TOptional TString),
     (''Query'', ''query,omitempty'', TString)]"

definition FilterExpression_type :: gtype where
  "FilterExpression_type = TStruct [
     (''Additional'', ''-'', TMap),
     (''ID'', ''id'', TString),
     (''Operator'', ''operator'', TString),
     (''Value'', ''value'', TRaw)]"

definition OfferingSearchRequest_type :: gtype where
  "OfferingSearchRequest_type = TStruct [
     (''Additional'', ''-'', TMap),
     (''CollectionID'', ''collection_id,omitempty'', TString),
     (''Filters'', ''filters,omitempty'', TSlice FilterExpression_type),
     (''IncludeDescendants'', ''include_descendants,omitempty'', TBool),
     (''Limit'', ''limit,omitempty'', TInt),
     (''ODPVersion'', ''odp_version'', TString),
     (''Query'', ''query,omitempty'', TString),
     (''Refinements'', ''refinements,omitempty'', TSlice TString),
     (''Sort'', ''sort,omitempty'', TString)]"

definition RefinementBucket_type :: gtype where
  "RefinementBucket_type = TStruct [
     (''Additional'', ''-'', TMap),
     (''Count'', ''count'', TInt),
     (''CountRelation'', ''count_relation,omitempty'', TString),
     (''Value'', ''value'', TAny)]"

definition RefinementGroup_type :: gtype where
  "RefinementGroup_type = TStruct [
     (''Additional'', ''-'', TMap),
     (''FilterID'', ''filter_id'', TString),
     (''Values'', ''values'', TSlice RefinementBucket_type)]"

definition Page_type :: "gtype \<Rightarrow> gtype" where
  "Page_type item = TStruct [
     (''Additional'', ''-'', TMap),
     (''AuthExpands'', ''auth_expands,omitempty'', TBool),
     (''Items'', ''items'', TSlice item),
     (''Next'', ''next,omitempty'', TString),
     (''ODPVersion'', ''odp_version'', TString)]"

definition OfferingPage_type :: "gtype \<Rightarrow> gtype" where
  "OfferingPage_type item = TStruct [
     (''Additional'', ''-'', TMap),
     (''AuthExpands'', ''auth_expands,omitempty'', TBool),
     (''Items'', ''items'', TSlice item),
     (''Next'', ''next,omitempty'', TString),
     (''ODPVersion'', ''odp_version'', TString),
     (''Refinements'', ''refinements,omitempty'', TSlice RefinementGroup_type)]"

text \<open>Every type of the wire format, pages over the two kinds of items.\<close>

definition model_types :: "gtype list" where
  "model_types =
     [OperationDescriptor_type, EnrollmentProtocol_type, PaymentProtocol_type, 
      TrustProtocol_type, ServiceProtocols_type, CapabilityLink_type, 
      FilterUnit_type, FilterDefinition_type, SortKey_type, SortDefinition_type, 
      FilterCapabilitySource_type, SortCapabilitySource_type, 
      SearchCapabilities_type, ServiceBrandingImage_type, ServiceBranding_type, 
      ServiceOpenAPI_type, HTTPConfiguration_type, MCPEndpoint_type, 
      ServiceDocument_type, ResourceImage_type, Collection_type, 
      SchemaReference_type, PricePreview_type, ActionRequest_type, 
      HTTPActionTarget_type, OpenAPIActionTarget_type, Action_type, Offering_type, 
      InvalidParameter_type, ProblemDetails_type, ResourceIdentity_type, 
      CollectionSearchRequest_type, FilterExpression_type, 
      OfferingSearchRequest_type, RefinementBucket_type, RefinementGroup_type, 
      Page_type Collection_type, Page_type Offering_type, 
      Page_type FilterDefinition_type, Page_type SortDefinition_type, 
      OfferingPage_type Offering_type]"

end
