(* ===== verification/Codec.thy ===== *)
theory Codec
  imports Models "HOL-Library.List_Lexorder" "HOL-Library.Char_ord"
begin

section \<open>Decoding and encoding with additional members\<close>

text \<open>
  What \<open>encoding/json\<close> does with the types of \<open>Models\<close>, with the \<open>UnmarshalJSON\<close> and
  \<open>MarshalJSON\<close> methods of \<open>additional.go\<close> and \<open>optional.go\<close> in it.  A struct value lists the
  values of its fields by Go name; \<open>GRaw None\<close>, \<open>GMap None\<close>, \<open>GSlice None\<close> and \<open>GPtr None\<close> are
  nil, and \<open>GOpt null present value\<close> is an \<open>Optional\<close>.  Text is not modelled: both directions are
  between Go values and decoded JSON, and number literals are kept as they are.
\<close>

datatype gval =
    GStr string
  | GBool bool
  | GInt int
  | GRaw "json option"
  | GMap "obj option"
  | GSlice "gval list option"
  | GPtr "gval option"
  | GOpt bool bool gval
  | GStruct "(string \<times> gval) list"

fun zero :: "gtype \<Rightarrow> gval" where
  "zero TString = GStr []"
| "zero TBool = GBool False"
| "zero TInt = GInt 0"
| "zero TAny = GRaw None"
| "zero TRaw = GRaw None"
| "zero TMap = GMap None"
| "zero (TSlice t) = GSlice None"
| "zero (TPtr t) = GPtr None"
| "zero (TOptional t) = GOpt False False (zero t)"
| "zero (TStruct fs) = GStruct (map (\<lambda>(name, _, t). (name, zero t)) fs)"

subsection \<open>\<open>optional.go\<close>\<close>

definition Some_Optional :: "gval \<Rightarrow> gval" where "Some_Optional v = GOpt False True v"

definition Null_Optional :: "gtype \<Rightarrow> gval" where "Null_Optional t = GOpt True True (zero t)"

fun Optional_Get :: "gval \<Rightarrow> gval \<times> bool" where
  "Optional_Get (GOpt null present v) = (v, present \<and> \<not> null)"
| "Optional_Get v = (v, False)"

fun IsNull :: "gval \<Rightarrow> bool" where
  "IsNull (GOpt null present v) = (present \<and> null)"
| "IsNull v = False"

fun IsPresent :: "gval \<Rightarrow> bool" where
  "IsPresent (GOpt null present v) = present"
| "IsPresent v = False"

definition IsZero :: "gval \<Rightarrow> bool" where "IsZero v \<longleftrightarrow> \<not> IsPresent v"

subsection \<open>Fields\<close>

definition visible :: "field \<Rightarrow> bool" where
  "visible f = (case f of (_, tag, _) \<Rightarrow> tag \<noteq> ''-'')"

definition json_name :: "field \<Rightarrow> string" where
  "json_name f = (case f of (name, tag, _) \<Rightarrow> if tag_name tag = [] then name else tag_name tag)"

text \<open>The field a member is decoded into: the one of that name, or the first that differs from it
  only in case.\<close>

definition find_field :: "field list \<Rightarrow> string \<Rightarrow> field option" where
  "find_field fs k =
     (case find (\<lambda>f. visible f \<and> json_name f = k) fs of
        Some f \<Rightarrow> Some f
      | None \<Rightarrow> find (\<lambda>f. visible f \<and> equal_fold (json_name f) k) fs)"

text \<open>\<open>strconv.ParseInt(literal, 10, 64)\<close> on a JSON number.\<close>

definition parse_int :: "string \<Rightarrow> int option" where
  "parse_int literal =
     (let negative = has_prefix literal ''-'';
          digits = trim_prefix literal ''-'';
          n = (if negative then - int (decimal_value digits) else int (decimal_value digits)) in
      if digits \<noteq> [] \<and> list_all is_digit digits \<and> - (2 ^ 63) \<le> n \<and> n < 2 ^ 63 then Some n else None)"

subsection \<open>Decoding\<close>

lemma json_nodes_pos [simp]: "0 < json_nodes v"
  by (cases v) simp_all

lemma json_nodes_sum_pos: "xs \<noteq> [] \<Longrightarrow> 0 < sum_list (map json_nodes xs)"
  by (cases xs) simp_all

lemma json_nodes_neq [simp]: "json_nodes v \<noteq> 0"
  by (cases v) simp_all

datatype decode_error = UnmarshalTypeError gtype json

text \<open>
  \<open>decodeAdditional\<close>, with the outcome \<open>decoded\<close> of its second \<open>json.Unmarshal\<close>, the one into the
  struct: the members that no field names, \<open>None\<close> (nil) when there are none.  \<open>null\<close> decodes to
  a nil map.
\<close>

definition additional_members :: "field list \<Rightarrow> obj \<Rightarrow> obj" where
  "additional_members fs object = filter (\<lambda>(name, _). name \<notin> set (jsonFieldNames fs)) object"

definition decodeAdditional ::
  "field list \<Rightarrow> json \<Rightarrow> decode_error + (string \<times> gval) list \<Rightarrow>
   decode_error + (string \<times> gval) list \<times> obj option" where
  "decodeAdditional fs data decoded =
     (case data of
        JObj object \<Rightarrow>
          bind_res decoded (\<lambda>known.
            Inr (known, (let rest = additional_members fs object in
                         if rest = [] then None else Some rest)))
      | JNull \<Rightarrow> bind_res decoded (\<lambda>known. Inr (known, None))
      | _ \<Rightarrow> Inl (UnmarshalTypeError TMap data))"

text \<open>
  \<open>json.Unmarshal\<close> of \<open>v\<close> into a variable of type \<open>t\<close> that holds \<open>cur\<close>.  Decoding an object into a
  struct decodes its members in order, each into the field \<open>find_field\<close> gives; a member without
  one is skipped.  \<open>UnmarshalJSON\<close> of an extensible struct starts from the zero value.
\<close>

function (sequential) unmarshal :: "gtype \<Rightarrow> json \<Rightarrow> gval \<Rightarrow> decode_error + gval"
  and unmarshal_items :: "gtype \<Rightarrow> json list \<Rightarrow> decode_error + gval list"
  and unmarshal_members ::
    "field list \<Rightarrow> obj \<Rightarrow> (string \<times> gval) list \<Rightarrow> decode_error + (string \<times> gval) list"
  where
  "unmarshal TString v cur =
     (case v of JStr s \<Rightarrow> Inr (GStr s) | JNull \<Rightarrow> Inr cur | _ \<Rightarrow> Inl (UnmarshalTypeError TString v))"
| "unmarshal TBool v cur =
     (case v of JBool b \<Rightarrow> Inr (GBool b) | JNull \<Rightarrow> Inr cur | _ \<Rightarrow> Inl (UnmarshalTypeError TBool v))"
| "unmarshal TInt v cur =
     (case v of
        JNum literal \<Rightarrow>
          (case parse_int literal of
             Some n \<Rightarrow> Inr (GInt n) | None \<Rightarrow> Inl (UnmarshalTypeError TInt v))
      | JNull \<Rightarrow> Inr cur
      | _ \<Rightarrow> Inl (UnmarshalTypeError TInt v))"
| "unmarshal TAny v cur = Inr (GRaw (if v = JNull then None else Some v))"
| "unmarshal TRaw v cur = Inr (GRaw (Some v))"
| "unmarshal TMap v cur =
     (case v of
        JObj ms \<Rightarrow>
          Inr (GMap (Some (fold (\<lambda>(k, x). AList.update k x) ms
            (case cur of GMap (Some old) \<Rightarrow> old | _ \<Rightarrow> []))))
      | JNull \<Rightarrow> Inr (GMap None)
      | _ \<Rightarrow> Inl (UnmarshalTypeError TMap v))"
| "unmarshal (TSlice t) v cur =
     (case v of
        JArr xs \<Rightarrow> bind_res (unmarshal_items t xs) (\<lambda>vs. Inr (GSlice (Some vs)))
      | JNull \<Rightarrow> Inr (GSlice None)
      | _ \<Rightarrow> Inl (UnmarshalTypeError (TSlice t) v))"
| "unmarshal (TPtr t) v cur =
     (if v = JNull then Inr (GPtr None)
      else bind_res (unmarshal t v (case cur of GPtr (Some old) \<Rightarrow> old | _ \<Rightarrow> zero t))
        (\<lambda>x. Inr (GPtr (Some x))))"
| "unmarshal (TOptional t) v cur =
     (if v = JNull then Inr (GOpt True True (zero t))
      else bind_res (unmarshal t v (case cur of GOpt _ _ old \<Rightarrow> old | _ \<Rightarrow> zero t))
        (\<lambda>x. Inr (GOpt False True x)))"
| "unmarshal (TStruct fs) v cur =
     (let initial = (if extensible fs then zero (TStruct fs) else cur);
          initial = (case initial of GStruct vals \<Rightarrow> vals | _ \<Rightarrow> []);
          decoded = (case v of
              JObj ms \<Rightarrow> unmarshal_members fs ms initial
            | JNull \<Rightarrow> Inr initial
            | _ \<Rightarrow> Inl (UnmarshalTypeError (TStruct fs) v)) in
      if extensible fs then
        bind_res (decodeAdditional fs v decoded) (\<lambda>(known, rest).
          Inr (GStruct (AList.update ''Additional'' (GMap rest) known)))
      else bind_res decoded (\<lambda>known. Inr (GStruct known)))"
| "unmarshal_items t [] = Inr []"
| "unmarshal_items t (x # xs) =
     bind_res (unmarshal t x (zero t)) (\<lambda>y.
       bind_res (unmarshal_items t xs) (\<lambda>ys. Inr (y # ys)))"
| "unmarshal_members fs [] vals = Inr vals"
| "unmarshal_members fs ((k, x) # ms) vals =
     (case find_field fs k of
        None \<Rightarrow> unmarshal_members fs ms vals
      | Some (name, tag, t) \<Rightarrow>
          bind_res (unmarshal t x (case map_of vals name of Some old \<Rightarrow> old | None \<Rightarrow> zero t)) (\<lambda>y.
            unmarshal_members fs ms (AList.update name y vals)))"
  by pat_completeness auto
termination
proof (relation "measures [\<lambda>c. case c of Inl (t, v, cur) \<Rightarrow> json_nodes v
      | Inr (Inl (t, xs)) \<Rightarrow> sum_list (map json_nodes xs)
      | Inr (Inr (fs, ms, vals)) \<Rightarrow> sum_list (map (\<lambda>m. json_nodes (snd m)) ms),
    \<lambda>c. if isl c then 0 else 1,
    \<lambda>c. case c of Inl (t, v, cur) \<Rightarrow> size t | _ \<Rightarrow> 0]")
qed (auto simp: less_Suc_eq_le json_nodes_sum_pos)

subsection \<open>Encoding\<close>

text \<open>\<open>isEmptyValue\<close> of \<open>encoding/json\<close>, the test of \<open>omitempty\<close>.\<close>

fun is_empty_value :: "gval \<Rightarrow> bool" where
  "is_empty_value (GStr s) = (s = [])"
| "is_empty_value (GBool b) = (\<not> b)"
| "is_empty_value (GInt n) = (n = 0)"
| "is_empty_value (GRaw v) = (v = None)"
| "is_empty_value (GMap m) = (m = None \<or> m = Some [])"
| "is_empty_value (GSlice vs) = (vs = None \<or> vs = Some [])"
| "is_empty_value (GPtr v) = (v = None)"
| "is_empty_value _ = False"

definition omitted :: "string \<Rightarrow> gval \<Rightarrow> bool" where
  "omitted tag v \<longleftrightarrow>
     (tag_option tag ''omitempty'' \<and> is_empty_value v) \<or> (tag_option tag ''omitzero'' \<and> IsZero v)"

text \<open>A Go map is encoded with its keys sorted, a struct in the order of its fields.\<close>

definition encodeAdditional :: "field list \<Rightarrow> obj \<Rightarrow> obj option \<Rightarrow> json" where
  "encodeAdditional fs data additional =
     (case additional of
        None \<Rightarrow> JObj data
      | Some [] \<Rightarrow> JObj data
      | Some members \<Rightarrow>
          JObj (sort_key fst (fold (\<lambda>(name, value) object.
            if name \<in> set (jsonFieldNames fs) then object else AList.update name value object)
            members data)))"

definition field_value :: "(string \<times> gval) list \<Rightarrow> string \<Rightarrow> gval" where
  "field_value vals name = (case map_of vals name of Some v \<Rightarrow> v | None \<Rightarrow> GRaw None)"

fun marshal :: "gtype \<Rightarrow> gval \<Rightarrow> json" where
  "marshal (TSlice t) (GSlice (Some vs)) = JArr (map (\<lambda>v. marshal t v) vs)"
| "marshal (TPtr t) (GPtr (Some v)) = marshal t v"
| "marshal (TOptional t) (GOpt null present v) =
     (if null \<or> \<not> present then JNull else marshal t v)"
| "marshal (TStruct fs) (GStruct vals) =
     (let known = concat (map (\<lambda>(name, tag, t).
            if tag = ''-'' \<or> omitted tag (field_value vals name) then []
            else [(json_name (name, tag, t), marshal t (field_value vals name))]) fs) in
      if extensible fs then
        encodeAdditional fs known
          (case field_value vals ''Additional'' of GMap m \<Rightarrow> m | _ \<Rightarrow> None)
      else JObj known)"
| "marshal t (GStr s) = JStr s"
| "marshal t (GBool b) = JBool b"
| "marshal t (GInt n) = JNum (itoa n)"
| "marshal t (GRaw (Some v)) = v"
| "marshal t (GMap (Some ms)) = JObj (sort_key fst ms)"
| "marshal t v = JNull"

end
