(* ===== verification/Additional.thy ===== *)
theory Additional
  imports Codec
begin

section \<open>The codec is faithful\<close>

text \<open>
  What decoding and encoding with additional members (\<open>Codec\<close>) keep: the members no field names,
  the fields against additional members of their names, and, for every type of \<open>models.go\<close>, the
  whole value over a round trip.
\<close>

subsection \<open>Additional members survive decoding\<close>

lemma unmarshal_extensible:
  assumes "extensible fs"
  shows "unmarshal (TStruct fs) (JObj ms) cur =
    bind_res (unmarshal_members fs ms (map (\<lambda>(name, _, t). (name, zero t)) fs)) (\<lambda>known.
      Inr (GStruct (AList.update ''Additional''
        (GMap (let rest = additional_members fs ms in if rest = [] then None else Some rest)) known)))"
  using assms
  by (cases "unmarshal_members fs ms (map (\<lambda>(name, _, t). (name, zero t)) fs)")
    (simp_all add: decodeAdditional_def Let_def)

lemma map_of_filter_fst: "map_of (filter (\<lambda>m. fst m = k) xs) k = map_of xs k"
  by (induction xs) auto

lemma map_of_sort_key: "map_of (sort_key fst (xs :: (string \<times> 'v) list)) k = map_of xs k"
  using map_of_filter_fst [of k "sort_key fst xs"] map_of_filter_fst [of k xs]
  by (simp add: sort_key_stable)

definition add_member :: "field list \<Rightarrow> string \<times> json \<Rightarrow> obj \<Rightarrow> obj" where
  "add_member fs = (\<lambda>(name, value) object.
     if name \<in> set (jsonFieldNames fs) then object else AList.update name value object)"

lemma encodeAdditional_eq:
  "encodeAdditional fs data additional =
     JObj (case additional of None \<Rightarrow> data | Some [] \<Rightarrow> data
       | Some ms \<Rightarrow> sort_key fst (fold (add_member fs) ms data))"
  by (simp add: encodeAdditional_def add_member_def split: option.splits list.splits)

lemma add_member_known:
  "k \<in> set (jsonFieldNames fs) \<Longrightarrow> map_of (add_member fs m data) k = map_of data k"
  by (cases m) (auto simp: add_member_def obj_simps)

lemma add_members_known:
  "k \<in> set (jsonFieldNames fs) \<Longrightarrow> map_of (fold (add_member fs) ms data) k = map_of data k"
  by (induction ms arbitrary: data) (simp_all add: add_member_known)

text \<open>C4: decoding an extensible type keeps exactly the members that none of its fields names, in
  their order and with their values, whatever they are; encoding a value of an extensible type
  never lets one of its additional members replace, or stand in for, a member of its own.\<close>

theorem additional_members_kept:
  "(extensible fs \<and> unmarshal (TStruct fs) (JObj ms) cur = Inr v \<longrightarrow>
     (\<exists>vals rest. v = GStruct vals \<and> map_of vals ''Additional'' = Some (GMap rest) \<and>
        rest \<noteq> Some [] \<and>
        (case rest of None \<Rightarrow> [] | Some kept \<Rightarrow> kept)
          = filter (\<lambda>m. fst m \<notin> set (jsonFieldNames fs)) ms)) \<and>
   (k \<in> set (jsonFieldNames fs) \<longrightarrow>
     (\<exists>object. encodeAdditional fs known additional = JObj object \<and> map_of object k = map_of known k))"
proof (intro conjI impI)
  assume a: "extensible fs \<and> unmarshal (TStruct fs) (JObj ms) cur = Inr v"
  have "additional_members fs ms = filter (\<lambda>m. fst m \<notin> set (jsonFieldNames fs)) ms"
    by (simp add: additional_members_def case_prod_beta')
  then show "\<exists>vals rest. v = GStruct vals \<and> map_of vals ''Additional'' = Some (GMap rest) \<and>
      rest \<noteq> Some [] \<and> (case rest of None \<Rightarrow> [] | Some kept \<Rightarrow> kept)
        = filter (\<lambda>m. fst m \<notin> set (jsonFieldNames fs)) ms"
    using a [unfolded unmarshal_extensible [OF conjunct1 [OF a]] Let_def]
    by (cases "additional_members fs ms = []") (auto simp: bind_res_Inr)
next
  assume "k \<in> set (jsonFieldNames fs)"
  then show "\<exists>object. encodeAdditional fs known additional = JObj object \<and>
      map_of object k = map_of known k"
    by (auto simp: encodeAdditional_eq map_of_sort_key add_member_known add_members_known
        split: option.splits list.splits)
qed

theorem additional_members_kept_witness:
  "(\<exists>vals rest. unmarshal CapabilityLink_type (JObj [(''x'', JNull)]) (GStruct []) = Inr (GStruct vals) \<and>
      map_of vals ''Additional'' = Some (GMap rest) \<and>
      (case rest of None \<Rightarrow> [] | Some kept \<Rightarrow> kept) = [(''x'', JNull)]) \<and>
   (\<exists>object. encodeAdditional [(''Href'', ''href'', TString)] [(''href'', JStr ''/'')]
      (Some [(''href'', JNull)]) = JObj object \<and> map_of object ''href'' = Some (JStr ''/''))"
proof -
  let ?fs = "[(''Additional'', ''-'', TMap), (''Href'', ''href'', TString)]"
  have "find_field ?fs ''x'' = None" by code_simp
  then have run: "\<exists>v. unmarshal (TStruct ?fs) (JObj [(''x'', JNull)]) (GStruct []) = Inr v"
    by (simp add: unmarshal_extensible extensible_def del: unmarshal.simps(10))
  have "extensible ?fs" "''x'' \<notin> set (jsonFieldNames ?fs)" by code_simp+
  moreover have "''href'' \<in> set (jsonFieldNames [(''Href'', ''href'', TString)])" by code_simp
  ultimately show ?thesis
    using run additional_members_kept [of ?fs "[(''x'', JNull)]" "GStruct []"]
      additional_members_kept [of "[(''Href'', ''href'', TString)]" "[]" "GStruct []" _ "''href''"
        "[(''href'', JStr ''/'')]" "Some [(''href'', JNull)]"]
    unfolding CapabilityLink_type_def
    by (fastforce simp del: unmarshal.simps)
qed

subsection \<open>The round trip\<close>

text \<open>What the types of \<open>models.go\<close> have in common: names of fields are distinct, those in JSON
  even when case is ignored, \<open>Additional\<close> is the one field JSON does not see, and only
  \<open>Optional\<close> fields are \<open>omitzero\<close>.\<close>

definition folded_name :: "string \<Rightarrow> nat list" where
  "folded_name s = map fold_rune (decode_runes s)"

fun wf_field :: "field \<Rightarrow> bool" where
  "wf_field (name, tag, t) =
     ((name = ''Additional'') = (tag = ''-'') \<and> (name = ''Additional'' \<longrightarrow> t = TMap) \<and>
      tag_name tag \<noteq> [] \<and> (tag \<noteq> ''-'' \<longrightarrow> tag_name tag \<noteq> ''-''))"

definition wf_fields :: "field list \<Rightarrow> bool" where
  "wf_fields fs \<longleftrightarrow> list_all wf_field fs \<and> distinct (map fst fs) \<and>
     distinct (map (\<lambda>f. folded_name (json_name f)) (filter visible fs))"

fun wf_type :: "gtype \<Rightarrow> bool" where
  "wf_type (TSlice t) = wf_type t"
| "wf_type (TPtr t) = (case t of TStruct _ \<Rightarrow> wf_type t | _ \<Rightarrow> False)"
| "wf_type (TOptional t) = (t = TString)"
| "wf_type (TStruct fs) = (wf_fields fs \<and> list_all (\<lambda>(_, _, t). wf_type t) fs)"
| "wf_type _ = True"

text \<open>The values a type can hold after decoding: an empty map or slice stands where \<open>omitempty\<close>
  allows only nil, maps have sorted keys, and no additional member has the name of a field, in
  any case.\<close>

definition sorted_keys :: "obj \<Rightarrow> bool" where
  "sorted_keys ms \<longleftrightarrow> sorted (map fst ms) \<and> distinct (map fst ms)"

fun canonical :: "gtype \<Rightarrow> gval \<Rightarrow> bool" where
  "canonical TString v = (case v of GStr _ \<Rightarrow> True | _ \<Rightarrow> False)"
| "canonical TBool v = (case v of GBool _ \<Rightarrow> True | _ \<Rightarrow> False)"
| "canonical TInt v = (case v of GInt n \<Rightarrow> - (2 ^ 63) \<le> n \<and> n < 2 ^ 63 | _ \<Rightarrow> False)"
| "canonical TAny v = (case v of GRaw raw \<Rightarrow> raw \<noteq> Some JNull | _ \<Rightarrow> False)"
| "canonical TRaw v = (case v of GRaw raw \<Rightarrow> raw \<noteq> None | _ \<Rightarrow> False)"
| "canonical TMap v =
     (case v of GMap None \<Rightarrow> True | GMap (Some ms) \<Rightarrow> sorted_keys ms | _ \<Rightarrow> False)"
| "canonical (TSlice t) v =
     (case v of GSlice None \<Rightarrow> True | GSlice (Some vs) \<Rightarrow> list_all (\<lambda>x. canonical t x) vs | _ \<Rightarrow> False)"
| "canonical (TPtr t) v =
     (case v of GPtr None \<Rightarrow> True | GPtr (Some x) \<Rightarrow> canonical t x | _ \<Rightarrow> False)"
| "canonical (TOptional t) v =
     (case v of
        GOpt null present x \<Rightarrow> present \<and> (if null then x = zero t else canonical t x)
      | _ \<Rightarrow> False)"
| "canonical (TStruct fs) v =
     (case v of
        GStruct vals \<Rightarrow>
          map fst vals = map fst fs \<and>
          list_all (\<lambda>(name, tag, t).
            if omitted tag (field_value vals name) then field_value vals name = zero t
            else canonical t (field_value vals name)) fs \<and>
          (case field_value vals ''Additional'' of
             GMap (Some ms) \<Rightarrow>
               ms \<noteq> [] \<and> sorted_keys ms \<and> list_all (\<lambda>m. find_field fs (fst m) = None) ms
           | _ \<Rightarrow> True)
      | _ \<Rightarrow> False)"

lemma parse_int_itoa:
  assumes "- (2 ^ 63) \<le> n" and "n < 2 ^ 63"
  shows "parse_int (itoa n) = Some n"
proof (cases "n < 0")
  case True
  then show ?thesis
    using assms nat_digits_all [of "nat (- n)"]
    by (simp add: parse_int_def itoa_def trim_prefix_def decimal_value_nat_digits)
next
  case False
  have "\<not> has_prefix (nat_digits (nat n)) ''-''"
    using nat_digits_all [of "nat n"] nat_digits_nonempty [of "nat n"]
    by (cases "nat_digits (nat n)") (auto simp: is_digit_def)
  with False show ?thesis
    using assms nat_digits_all [of "nat n"]
    by (simp add: parse_int_def itoa_def trim_prefix_def decimal_value_nat_digits)
qed

lemma find_unique:
  assumes "f \<in> set fs" and "P f" and "\<And>g. g \<in> set fs \<Longrightarrow> P g \<Longrightarrow> g = f"
  shows "find P fs = Some f"
  using assms
proof (induction fs)
  case (Cons a fs)
  show ?case
  proof (cases "P a")
    case True
    then have "a = f" by (rule Cons.prems(3) [rotated]) simp
    with True show ?thesis by simp
  next
    case False
    with Cons.prems(1,2) have "f \<in> set fs" by auto
    then have "find P fs = Some f"
      by (rule Cons.IH [OF _ Cons.prems(2)]) (rule Cons.prems(3), simp_all)
    with False show ?thesis by simp
  qed
qed simp

lemma find_field_Some_visible:
  "find_field fs k = Some f \<Longrightarrow> f \<in> set fs \<and> visible f"
  by (auto simp: find_field_def find_Some_iff split: option.splits)

lemma wf_fields_inj:
  assumes "wf_fields fs" and "f \<in> set fs" and "g \<in> set fs"
  shows "fst f = fst g \<Longrightarrow> f = g"
    and "visible f \<Longrightarrow> visible g \<Longrightarrow> json_name f = json_name g \<Longrightarrow> f = g"
proof -
  have "inj_on fst (set fs)" using assms(1) by (simp only: wf_fields_def distinct_map)
  then show "fst f = fst g \<Longrightarrow> f = g" using assms(2,3) by (blast dest: inj_onD)
  have inj: "inj_on (\<lambda>f. folded_name (json_name f)) (set (filter visible fs))"
    using assms(1) by (simp only: wf_fields_def distinct_map)
  then show "visible f \<Longrightarrow> visible g \<Longrightarrow> json_name f = json_name g \<Longrightarrow> f = g"
    using inj_onD [OF inj, of f g] assms(2,3) by simp
qed

lemma find_field_exact:
  assumes "wf_fields fs" and "f \<in> set fs" and "visible f"
  shows "find_field fs (json_name f) = Some f"
proof -
  have "find (\<lambda>g. visible g \<and> json_name g = json_name f) fs = Some f"
  proof (rule find_unique)
    fix g assume "g \<in> set fs" "visible g \<and> json_name g = json_name f"
    with assms show "g = f" by (blast intro: wf_fields_inj(2))
  qed (use assms in auto)
  then show ?thesis by (simp add: find_field_def)
qed

lemma wf_field_name:
  "wf_fields fs \<Longrightarrow> f \<in> set fs \<Longrightarrow> json_name f = tag_name (fst (snd f))"
  by (cases f) (auto simp: wf_fields_def list_all_iff json_name_def)

lemma jsonFieldNames_visible:
  assumes "wf_fields fs" and "f \<in> set fs" and "visible f"
  shows "json_name f \<in> set (jsonFieldNames fs)"
proof -
  obtain n tag t where f: "f = (n, tag, t)" by (cases f)
  with assms have "tag_name tag \<noteq> []" "tag_name tag \<noteq> ''-''"
    by (auto simp: wf_fields_def list_all_iff visible_def)
  with assms f show ?thesis
    by (auto simp: jsonFieldNames_def wf_field_name intro!: image_eqI [of _ _ f])
qed

lemma find_field_None_names:
  assumes "wf_fields fs" and "find_field fs k = None"
  shows "k \<notin> set (jsonFieldNames fs)"
proof
  assume "k \<in> set (jsonFieldNames fs)"
  then obtain f where f: "f \<in> set fs" "k = tag_name (fst (snd f))" "k \<noteq> ''-''"
    by (auto simp: jsonFieldNames_def)
  moreover have "visible f"
  proof (cases f)
    case (fields n tag t)
    have "tag_name ''-'' = ''-''" by code_simp
    with f fields show ?thesis by (auto simp: visible_def)
  qed
  ultimately show False
    using assms find_field_exact wf_field_name by fastforce
qed

lemma update_map:
  assumes "distinct (map fst vals)" and "n \<in> fst ` set vals"
  shows "AList.update n y vals = map (\<lambda>(m, v). (m, if m = n then y else v)) vals"
  using assms
proof (induction vals)
  case (Cons a vals)
  have "map (\<lambda>(m, v). (m, if m = fst a then y else v)) vals = vals" if "fst a \<notin> fst ` set vals"
  proof (rule map_idI)
    fix x assume "x \<in> set vals"
    then have "fst x \<noteq> fst a" using that by (metis imageI)
    then show "(case x of (m, v) \<Rightarrow> (m, if m = fst a then y else v)) = x" by (simp add: case_prod_beta)
  qed
  with Cons show ?case by (cases a) auto
qed simp

lemma update_absent: "map_of d k = None \<Longrightarrow> AList.update k v d = d @ [(k, v)]"
  by (induction d) auto

text \<open>The fields a list of members is decoded into, and the value each gets.\<close>

definition covered :: "field list \<Rightarrow> obj \<Rightarrow> string \<Rightarrow> bool" where
  "covered fs ms n \<longleftrightarrow> (\<exists>m\<in>set ms. \<exists>f. find_field fs (fst m) = Some f \<and> fst f = n)"

definition decodes_to ::
  "field list \<Rightarrow> (string \<Rightarrow> gval) \<Rightarrow> (string \<times> gval) list \<Rightarrow> string \<times> json \<Rightarrow> bool" where
  "decodes_to fs target vals m =
     (case find_field fs (fst m) of
        None \<Rightarrow> True
      | Some f \<Rightarrow> fst m = json_name f \<and>
          unmarshal (snd (snd f)) (snd m) (zero (snd (snd f))) = Inr (target (fst f)) \<and>
          map_of vals (fst f) = Some (zero (snd (snd f))))"

lemma covered_Cons:
  "covered fs (m # ms) n \<longleftrightarrow>
     (\<exists>f. find_field fs (fst m) = Some f \<and> fst f = n) \<or> covered fs ms n"
  by (auto simp: covered_def)

lemma decodes_to_update:
  assumes "wf_fields fs" and "find_field fs k = Some f" and "fst m \<noteq> k" and "k = json_name f"
    and "decodes_to fs target vals m"
  shows "decodes_to fs target (AList.update (fst f) y vals) m"
proof (cases "find_field fs (fst m)")
  case (Some g)
  have "fst g \<noteq> fst f"
  proof
    assume "fst g = fst f"
    moreover from Some assms(2) have "g \<in> set fs" "f \<in> set fs"
      by (simp_all add: find_field_Some_visible)
    ultimately have "g = f" using assms(1) wf_fields_inj(1) by blast
    then show False using assms Some by (simp add: decodes_to_def)
  qed
  then show ?thesis using assms(5) Some by (simp add: decodes_to_def)
qed (simp add: decodes_to_def)

lemma unmarshal_members_eq:
  assumes "wf_fields fs" and "distinct (map fst ms)" and "distinct (map fst vals)"
    and "list_all (decodes_to fs target vals) ms"
  shows "unmarshal_members fs ms vals
    = Inr (map (\<lambda>(n, v). (n, if covered fs ms n then target n else v)) vals)"
  using assms(2-)
proof (induction ms arbitrary: vals)
  case Nil
  have "map (\<lambda>(n, v). (n, if covered fs [] n then target n else v)) vals = vals"
    by (rule map_idI) (auto simp: covered_def)
  then show ?case by simp
next
  case (Cons m ms)
  obtain k x where m: "m = (k, x)" by (cases m)
  have ms: "distinct (map fst ms)" "list_all (decodes_to fs target vals) ms"
    using Cons.prems by simp_all
  show ?case
  proof (cases "find_field fs k")
    case None
    then have "covered fs (m # ms) = covered fs ms" by (simp add: covered_Cons m fun_eq_iff)
    then show ?thesis using Cons.IH [OF ms(1) Cons.prems(2) ms(2)] None by (simp add: m)
  next
    case (Some f)
    obtain n tag t where f: "f = (n, tag, t)" by (cases f)
    have head: "k = json_name f" "unmarshal t x (zero t) = Inr (target n)"
        "map_of vals n = Some (zero t)"
      using Cons.prems(3) Some by (simp_all add: m f decodes_to_def)
    let ?vals = "AList.update n (target n) vals"
    have "n \<in> fst ` set vals" using map_of_SomeD [OF head(3)] by (metis fst_conv imageI)
    note upd = update_map [OF Cons.prems(2) this]
    have "list_all (decodes_to fs target ?vals) ms"
      unfolding list_all_iff
    proof
      fix a assume "a \<in> set ms"
      then have "fst a \<noteq> k" "decodes_to fs target vals a"
        using Cons.prems by (auto simp: m list_all_iff)
      then show "decodes_to fs target ?vals a"
        using decodes_to_update [OF assms(1) Some, of a target vals "target n"] head(1) by (simp add: f)
    qed
    moreover have "distinct (map fst ?vals)" using Cons.prems(2) by (simp only: distinct_update)
    ultimately have "unmarshal_members fs ms ?vals
        = Inr (map (\<lambda>(n, v). (n, if covered fs ms n then target n else v)) ?vals)"
      using Cons.IH [OF ms(1)] by blast
    moreover have "map (\<lambda>(n, v). (n, if covered fs ms n then target n else v)) ?vals
        = map (\<lambda>(n, v). (n, if covered fs (m # ms) n then target n else v)) vals"
      using Some by (auto simp: upd covered_Cons m f)
    ultimately show ?thesis using Some head by (simp add: m f)
  qed
qed

lemma add_members_append:
  assumes "distinct (map fst ms)" and "\<forall>m\<in>set ms. fst m \<notin> fst ` set data"
    and "\<forall>m\<in>set ms. fst m \<notin> set (jsonFieldNames fs)"
  shows "fold (add_member fs) ms data = data @ ms"
  using assms
proof (induction ms arbitrary: data)
  case (Cons m ms)
  have "map_of data (fst m) = None" using Cons.prems(2) by (simp add: map_of_eq_None_iff)
  then have step: "add_member fs m data = data @ [m]"
    using Cons.prems(3) by (cases m) (simp add: add_member_def update_absent)
  have "fold (add_member fs) ms (data @ [m]) = (data @ [m]) @ ms"
    by (rule Cons.IH) (use Cons.prems in \<open>auto simp: image_iff\<close>)
  then show ?case by (simp add: step)
qed simp

text \<open>The members a struct value is encoded to, before the additional ones.\<close>

definition known_members :: "field list \<Rightarrow> (string \<times> gval) list \<Rightarrow> obj" where
  "known_members fs vals =
     map (\<lambda>f. (json_name f, marshal (snd (snd f)) (field_value vals (fst f))))
       (filter (\<lambda>f. visible f \<and> \<not> omitted (fst (snd f)) (field_value vals (fst f))) fs)"

lemma known_members_concat:
  "concat (map (\<lambda>(name, tag, t).
      if tag = ''-'' \<or> omitted tag (field_value vals name) then []
      else [(json_name (name, tag, t), marshal t (field_value vals name))]) fs)
   = known_members fs vals"
  by (induction fs) (auto simp: known_members_def visible_def)

lemma marshal_struct:
  "marshal (TStruct fs) (GStruct vals) =
     (if extensible fs then encodeAdditional fs (known_members fs vals)
        (case field_value vals ''Additional'' of GMap m \<Rightarrow> m | _ \<Rightarrow> None)
      else JObj (known_members fs vals))"
  by (simp add: known_members_concat Let_def)

declare marshal.simps(4) [simp del]

lemma known_members_distinct:
  assumes "wf_fields fs" shows "distinct (map fst (known_members fs vals))"
proof -
  let ?fs = "filter (\<lambda>f. visible f \<and> \<not> omitted (fst (snd f)) (field_value vals (fst f))) fs"
  have "inj_on json_name (set ?fs)"
    by (rule inj_onI) (use assms wf_fields_inj(2) in auto)
  moreover have "distinct ?fs" using assms by (simp add: wf_fields_def distinct_map)
  ultimately have "distinct (map json_name ?fs)" by (simp only: distinct_map simp_thms)
  then show ?thesis by (simp add: known_members_def o_def)
qed

lemma known_members_names:
  assumes "wf_fields fs" and "m \<in> set (known_members fs vals)"
  shows "fst m \<in> set (jsonFieldNames fs)"
  using assms by (auto simp: known_members_def jsonFieldNames_visible)

lemma wf_hidden:
  assumes "wf_fields fs" and "f \<in> set fs"
  shows "visible f \<longleftrightarrow> fst f \<noteq> ''Additional''" and "fst f = ''Additional'' \<Longrightarrow> snd (snd f) = TMap"
proof -
  have "wf_field f" using assms by (simp add: wf_fields_def list_all_iff)
  then show "visible f \<longleftrightarrow> fst f \<noteq> ''Additional''" "fst f = ''Additional'' \<Longrightarrow> snd (snd f) = TMap"
    by (cases f; auto simp: visible_def)+
qed

text \<open>Whatever order the encoded members are in, decoding them gives the fields their values back.\<close>

lemma unmarshal_known:
  assumes wf: "wf_fields fs" and names: "map fst vals = map fst fs"
    and fields: "\<forall>f\<in>set fs. visible f \<longrightarrow>
       (let v = field_value vals (fst f) in
        if omitted (fst (snd f)) v then v = zero (snd (snd f))
        else unmarshal (snd (snd f)) (marshal (snd (snd f)) v) (zero (snd (snd f))) = Inr v)"
    and ms: "distinct (map fst ms)" "set ms = set (known_members fs vals) \<union> extra"
    and extra: "\<forall>m\<in>extra. find_field fs (fst m) = None"
  shows "unmarshal_members fs ms (map (\<lambda>(name, _, t). (name, zero t)) fs)
    = Inr (map (\<lambda>f. (fst f, if visible f then field_value vals (fst f) else zero (snd (snd f)))) fs)"
proof -
  let ?init = "map (\<lambda>(name, _, t). (name, zero t)) fs"
  have distinct: "distinct (map fst fs)" using wf by (simp add: wf_fields_def)
  have init_names: "map fst ?init = map fst fs" by (simp add: case_prod_beta')
  have init: "map_of ?init (fst f) = Some (zero (snd (snd f)))" if "f \<in> set fs" for f
  proof (rule map_of_is_SomeI)
    show "distinct (map fst ?init)" using distinct by (simp only: init_names)
    show "(fst f, zero (snd (snd f))) \<in> set ?init" using that by (force simp: case_prod_beta')
  qed
  have "list_all (decodes_to fs (field_value vals) ?init) ms"
    unfolding list_all_iff
  proof
    fix m assume "m \<in> set ms"
    then consider "m \<in> extra" | "m \<in> set (known_members fs vals)" using ms(2) by blast
    then show "decodes_to fs (field_value vals) ?init m"
    proof cases
      case 1
      then show ?thesis using extra by (simp add: decodes_to_def)
    next
      case 2
      then obtain f where f: "f \<in> set fs" "visible f" "\<not> omitted (fst (snd f)) (field_value vals (fst f))"
          "m = (json_name f, marshal (snd (snd f)) (field_value vals (fst f)))"
        by (auto simp: known_members_def)
      then show ?thesis
        using fields init find_field_exact [OF wf f(1,2)] by (simp add: decodes_to_def Let_def)
    qed
  qed
  then have "unmarshal_members fs ms ?init
      = Inr (map (\<lambda>(n, v). (n, if covered fs ms n then field_value vals n else v)) ?init)"
    using unmarshal_members_eq [OF wf ms(1)] distinct by (simp only: init_names)
  moreover
  have "(if covered fs ms (fst f) then field_value vals (fst f) else zero (snd (snd f)))
      = (if visible f then field_value vals (fst f) else zero (snd (snd f)))" if f: "f \<in> set fs" for f
  proof (cases "covered fs ms (fst f)")
    case True
    then obtain g where "g \<in> set fs" "visible g" "fst g = fst f"
      by (auto simp: covered_def dest: find_field_Some_visible)
    with f wf have "visible f" using wf_fields_inj(1) by blast
    with True show ?thesis by simp
  next
    case False
    have "field_value vals (fst f) = zero (snd (snd f))" if "visible f"
    proof (rule ccontr)
      assume "field_value vals (fst f) \<noteq> zero (snd (snd f))"
      then have "\<not> omitted (fst (snd f)) (field_value vals (fst f))"
        using fields f that by (auto simp: Let_def split: if_splits)
      then have "(json_name f, marshal (snd (snd f)) (field_value vals (fst f))) \<in> set ms"
        using f that ms(2) by (auto simp: known_members_def)
      then have "covered fs ms (fst f)"
        unfolding covered_def by (rule bexI [rotated]) (simp add: find_field_exact [OF wf f that])
      with False show False by simp
    qed
    with False show ?thesis by simp
  qed
  note same = this
  have "map (\<lambda>(n, v). (n, if covered fs ms n then field_value vals n else v)) ?init
      = map (\<lambda>f. (fst f, if visible f then field_value vals (fst f) else zero (snd (snd f)))) fs"
    unfolding map_map
  proof (rule map_cong [OF refl])
    fix f assume "f \<in> set fs"
    from same [OF this]
    show "((\<lambda>(n, v). (n, if covered fs ms n then field_value vals n else v)) \<circ>
        (\<lambda>(name, _, t). (name, zero t))) f
      = (fst f, if visible f then field_value vals (fst f) else zero (snd (snd f)))"
      by (cases f) (simp only: o_apply prod.case fst_conv snd_conv)
  qed
  ultimately show ?thesis by (simp only:)
qed

lemma extensible_field:
  assumes "wf_fields fs" and "extensible fs"
  obtains f where "f \<in> set fs" and "fst f = ''Additional''" and "\<not> visible f" and "snd (snd f) = TMap"
proof -
  from assms(2) obtain f where "f \<in> set fs" "fst f = ''Additional''" by (auto simp: extensible_def)
  with wf_hidden [OF assms(1)] that show thesis by metis
qed

lemma struct_values:
  assumes "map fst vals = map fst fs" and "distinct (map fst fs)"
  shows "map (\<lambda>f. (fst f, field_value vals (fst f))) fs = vals"
proof -
  have "map (\<lambda>n. (n, field_value vals n)) (map fst vals) = vals"
  proof (unfold map_map, rule map_idI)
    fix m assume "m \<in> set vals"
    then have "map_of vals (fst m) = Some (snd m)" using assms by (intro map_of_is_SomeI) simp_all
    then show "((\<lambda>n. (n, field_value vals n)) \<circ> fst) m = m" by (simp add: field_value_def)
  qed
  then show ?thesis by (simp add: assms(1) o_def)
qed

lemma additional_extra:
  fixes vals :: "(string \<times> gval) list"
  assumes wf: "wf_fields fs" and ms: "sorted_keys ms" "\<forall>m\<in>set ms. find_field fs (fst m) = None"
  defines "object \<equiv> sort_key fst (fold (add_member fs) ms (known_members fs vals))"
  shows "set object = set (known_members fs vals) \<union> set ms" and "distinct (map fst object)"
    and "additional_members fs object = ms"
proof -
  have new: "\<forall>m\<in>set ms. fst m \<notin> set (jsonFieldNames fs)"
    using ms(2) find_field_None_names [OF wf] by blast
  have known: "\<forall>m\<in>set (known_members fs vals). fst m \<in> set (jsonFieldNames fs)"
    using known_members_names [OF wf] by blast
  have fresh: "\<forall>m\<in>set ms. fst m \<notin> fst ` set (known_members fs vals)"
    using new known by (metis imageE)
  have distinct: "distinct (map fst ms)" using ms(1) by (simp add: sorted_keys_def)
  have object: "object = sort_key fst (known_members fs vals @ ms)"
    by (simp only: object_def add_members_append [OF distinct fresh new])
  then show "set object = set (known_members fs vals) \<union> set ms" by simp
  have "distinct (map fst (known_members fs vals @ ms))"
    using known_members_distinct [OF wf] distinct fresh
    by (simp add: disjoint_iff) (metis imageE)
  then show "distinct (map fst object)"
    unfolding object by (metis distinct_map set_sort distinct_sort)
  have "filter (\<lambda>m. fst m \<notin> set (jsonFieldNames fs)) (known_members fs vals) = []"
    using known by (simp add: filter_empty_conv)
  moreover have "filter (\<lambda>m. fst m \<notin> set (jsonFieldNames fs)) ms = ms"
    using new by (simp add: filter_id_conv)
  moreover have "sort_key fst ms = ms"
    using ms(1) by (simp add: sorted_keys_def sort_key_id_if_sorted)
  ultimately show "additional_members fs object = ms"
    by (simp add: additional_members_def object filter_sort case_prod_beta')
qed

lemma struct_round_trip:
  assumes wf: "wf_fields fs" and canonical: "canonical (TStruct fs) (GStruct vals)"
    and fields: "\<forall>f\<in>set fs. \<not> omitted (fst (snd f)) (field_value vals (fst f)) \<longrightarrow>
       unmarshal (snd (snd f)) (marshal (snd (snd f)) (field_value vals (fst f)))
         (zero (snd (snd f))) = Inr (field_value vals (fst f))"
  shows "unmarshal (TStruct fs) (marshal (TStruct fs) (GStruct vals)) (zero (TStruct fs))
    = Inr (GStruct vals)"
proof -
  let ?init = "map (\<lambda>(name, _, t). (name, zero t)) fs"
  let ?vals = "map (\<lambda>f. (fst f, if visible f then field_value vals (fst f) else zero (snd (snd f)))) fs"
  have names: "map fst vals = map fst fs" and distinct: "distinct (map fst fs)"
    using wf canonical by (simp_all add: wf_fields_def)
  have visible: "\<forall>f\<in>set fs. visible f \<longrightarrow> (let v = field_value vals (fst f) in
      if omitted (fst (snd f)) v then v = zero (snd (snd f))
      else unmarshal (snd (snd f)) (marshal (snd (snd f)) v) (zero (snd (snd f))) = Inr v)"
    using canonical fields by (auto simp: list_all_iff Let_def split: if_splits)
  note members = unmarshal_known [OF wf names visible]
  note rebuilt = struct_values [OF names distinct]
  show ?thesis
  proof (cases "extensible fs")
    case False
    then have "visible f" if "f \<in> set fs" for f
      using that wf_hidden(1) [OF wf that] by (auto simp: extensible_def image_iff)
    then have "?vals = vals" using rebuilt by (simp cong: map_cong)
    then show ?thesis
      using members [of "known_members fs vals" "{}"] known_members_distinct [OF wf] False
      by (simp add: marshal_struct)
  next
    case True
    obtain h where h: "h \<in> set fs" "fst h = ''Additional''" "\<not> visible h" "snd (snd h) = TMap"
      using extensible_field [OF wf True] .
    have "fst (snd h) = ''-''" using h(3) by (simp add: visible_def case_prod_beta)
    then have "\<not> omitted (fst (snd h)) (field_value vals (fst h))"
      by (simp add: omitted_def tag_option_def)
    moreover have "if omitted (fst (snd h)) (field_value vals (fst h))
        then field_value vals (fst h) = zero (snd (snd h))
        else canonical (snd (snd h)) (field_value vals (fst h))"
      using canonical h(1) by (force simp: list_all_iff case_prod_beta)
    ultimately have "canonical TMap (field_value vals ''Additional'')" using h by simp
    then obtain rest where map: "field_value vals ''Additional'' = GMap rest"
      by (auto split: gval.splits)
    obtain object where object: "marshal (TStruct fs) (GStruct vals) = JObj object"
        "distinct (map fst object)" "set object = set (known_members fs vals) \<union> set (case rest of None \<Rightarrow> [] | Some ms \<Rightarrow> ms)"
        "(let rest = additional_members fs object in if rest = [] then None else Some rest) = rest"
    proof (cases rest)
      case None
      have "additional_members fs (known_members fs vals) = []"
        using known_members_names [OF wf, of _ vals]
        by (auto simp: additional_members_def filter_empty_conv)
      with None that [of "known_members fs vals"] show thesis
        using True known_members_distinct [OF wf] by (simp add: marshal_struct encodeAdditional_eq map)
    next
      case (Some ms)
      then have ms: "ms \<noteq> []" "sorted_keys ms" "\<forall>m\<in>set ms. find_field fs (fst m) = None"
        using canonical map by (auto simp: list_all_iff)
      note extra = additional_extra [OF wf ms(2,3), of vals]
      show thesis
        using that [of "sort_key fst (fold (add_member fs) ms (known_members fs vals))"] extra Some ms(1) True
        by (cases ms) (simp_all add: marshal_struct encodeAdditional_eq map)
    qed
    have "\<forall>m\<in>set (case rest of None \<Rightarrow> [] | Some ms \<Rightarrow> ms). find_field fs (fst m) = None"
      using canonical map by (auto simp: list_all_iff split: option.splits)
    note known = members [OF object(2,3) this]
    have "AList.update ''Additional'' (GMap rest) ?vals = vals"
    proof -
      have names': "map fst ?vals = map fst fs" by simp
      have "AList.update ''Additional'' (GMap rest) ?vals
          = map (\<lambda>(n, v). (n, if n = ''Additional'' then GMap rest else v)) ?vals"
        by (rule update_map) (use distinct names' h in \<open>force simp: o_def\<close>)+
      also have "\<dots> = map (\<lambda>f. (fst f, field_value vals (fst f))) fs"
        using wf_hidden(1) [OF wf] map by auto
      finally show ?thesis by (simp only: rebuilt)
    qed
    with known object(4) show ?thesis
      unfolding object(1) unmarshal_extensible [OF True] by simp
  qed
qed

lemma marshal_struct_object:
  "canonical (TStruct fs) v \<Longrightarrow> marshal (TStruct fs) v \<noteq> JNull"
  by (auto simp: marshal_struct encodeAdditional_eq split: gval.splits)

lemma unmarshal_items_round_trip:
  assumes "\<And>v. v \<in> set vs \<Longrightarrow> unmarshal t (marshal t v) (zero t) = Inr v"
  shows "unmarshal_items t (map (\<lambda>v. marshal t v) vs) = Inr vs"
  using assms by (induction vs) simp_all

lemma fold_update_fresh:
  "distinct (map fst (d @ ms)) \<Longrightarrow> fold (\<lambda>(k, x). AList.update k x) ms d = d @ ms"
proof (induction ms arbitrary: d)
  case (Cons m ms)
  then have "map_of d (fst m) = None" by (auto simp: map_of_eq_None_iff)
  with Cons.IH [of "d @ [m]"] Cons.prems show ?case
    by (cases m) (simp add: update_absent)
qed simp

lemma field_size: "f \<in> set fs \<Longrightarrow> size (snd (snd f)) < size (TStruct fs)"
proof (induction fs)
  case (Cons g fs)
  then show ?case by (cases g) auto
qed simp

lemma round_trip:
  "wf_type t \<Longrightarrow> canonical t v \<Longrightarrow> unmarshal t (marshal t v) (zero t) = Inr v"
proof (induction t arbitrary: v rule: measure_induct_rule [of size])
  case (less t)
  show ?case
  proof (cases t)
    case TString
    then show ?thesis using less.prems by (cases v) simp_all
  next
    case TBool
    then show ?thesis using less.prems by (cases v) simp_all
  next
    case TInt
    then show ?thesis using less.prems by (cases v) (simp_all add: parse_int_itoa)
  next
    case TAny
    then obtain raw where "v = GRaw raw" "raw \<noteq> Some JNull"
      using less.prems by (cases v) auto
    then show ?thesis using TAny by (cases raw) simp_all
  next
    case TRaw
    then show ?thesis using less.prems by (cases v) auto
  next
    case TMap
    then show ?thesis
      using less.prems
      by (auto simp: sorted_keys_def sort_key_id_if_sorted fold_update_fresh [of "[]", simplified]
          split: gval.splits option.splits)
  next
    case (TSlice t')
    from less.prems TSlice consider "v = GSlice None"
      | vs where "v = GSlice (Some vs)" "\<forall>x\<in>set vs. canonical t' x"
      by (auto simp: list_all_iff split: gval.splits option.splits)
    then show ?thesis
      by cases (use less TSlice in \<open>simp_all add: unmarshal_items_round_trip\<close>)
  next
    case (TPtr t')
    then obtain fs where t': "t' = TStruct fs" using less.prems(1) by (auto split: gtype.splits)
    from less.prems TPtr consider "v = GPtr None" | x where "v = GPtr (Some x)" "canonical t' x"
      by (auto split: gval.splits option.splits)
    then show ?thesis
    proof cases
      case 2
      then have "unmarshal t' (marshal t' x) (zero t') = Inr x"
        using less.IH [of t' x] less.prems TPtr t' by simp
      moreover have "marshal t' x \<noteq> JNull"
        using 2(2) unfolding t' by (rule marshal_struct_object)
      ultimately show ?thesis using 2 TPtr by simp
    qed (simp add: TPtr)
  next
    case (TOptional t')
    then show ?thesis
      using less.prems by (auto split: gval.splits if_splits)
  next
    case (TStruct fs)
    then obtain vals where v: "v = GStruct vals"
      using less.prems(2) by (auto split: gval.splits)
    show ?thesis
      unfolding TStruct v
    proof (rule struct_round_trip)
      show "wf_fields fs" using less.prems(1) TStruct by simp
      show "canonical (TStruct fs) (GStruct vals)" using less.prems(2) TStruct v by simp
      show "\<forall>f\<in>set fs. \<not> omitted (fst (snd f)) (field_value vals (fst f)) \<longrightarrow>
          unmarshal (snd (snd f)) (marshal (snd (snd f)) (field_value vals (fst f)))
            (zero (snd (snd f))) = Inr (field_value vals (fst f))"
      proof (intro ballI impI)
        fix f assume f: "f \<in> set fs" "\<not> omitted (fst (snd f)) (field_value vals (fst f))"
        then have "wf_type (snd (snd f))" "canonical (snd (snd f)) (field_value vals (fst f))"
          using less.prems TStruct v by (auto simp: list_all_iff)
        with less.IH [of "snd (snd f)"] field_size [OF f(1)]
        show "unmarshal (snd (snd f)) (marshal (snd (snd f)) (field_value vals (fst f)))
          (zero (snd (snd f))) = Inr (field_value vals (fst f))" by (simp only: TStruct)
      qed
    qed
  qed
qed

text \<open>The member names of \<open>models.go\<close> are lower-case letters and underscores, which folding leaves
  alone.\<close>

definition lower_letters :: string where
  "lower_letters = ''etnirosadlcpumfhgybqwvxkjz_''"

definition lower_name :: "string \<Rightarrow> bool" where
  "lower_name s \<longleftrightarrow> list_all (\<lambda>c. c \<in> set lower_letters) s"

lemma lower_letters_fold:
  "\<forall>c\<in>set lower_letters. byte c < 128 \<and> fold_rune (byte c) = byte c"
  by code_simp

lemma folded_lower_name: "lower_name s \<Longrightarrow> folded_name s = map of_char s"
  using lower_letters_fold
  by (simp add: folded_name_def decode_runes_ascii ascii_def lower_name_def list_all_iff)

definition plain_fields :: "field list \<Rightarrow> bool" where
  "plain_fields fs \<longleftrightarrow> list_all wf_field fs \<and> distinct (map fst fs) \<and>
     list_all (\<lambda>f. lower_name (json_name f)) (filter visible fs) \<and>
     distinct (map json_name (filter visible fs))"

lemma plain_fields_wf: assumes "plain_fields fs" shows "wf_fields fs"
proof -
  have "map (\<lambda>f. folded_name (json_name f)) (filter visible fs)
      = map (map of_char) (map json_name (filter visible fs))"
    using assms by (simp add: plain_fields_def list_all_iff folded_lower_name)
  moreover have "distinct (map (map (of_char :: char \<Rightarrow> nat)) xs) = distinct xs" for xs
    by (simp add: distinct_map inj_on_subset [OF inj_mapI [OF inj_of_char]])
  ultimately show ?thesis using assms by (simp only: wf_fields_def plain_fields_def)
qed

lemma find_field_lower:
  assumes "plain_fields fs" and "lower_name k"
  shows "find_field fs k = find (\<lambda>f. visible f \<and> json_name f = k) fs"
proof -
  have "find (\<lambda>f. visible f \<and> equal_fold (json_name f) k) fs
      = find (\<lambda>f. visible f \<and> json_name f = k) fs"
  proof (rule find_cong [OF refl])
    fix f assume "f \<in> set fs"
    then have "visible f \<longrightarrow> lower_name (json_name f)"
      using assms(1) by (auto simp: plain_fields_def list_all_iff simp del: split_paired_All)
    then show "(visible f \<and> equal_fold (json_name f) k) = (visible f \<and> json_name f = k)"
      using assms(2) folded_lower_name [of k] folded_lower_name [of "json_name f"]
      by (auto simp: equal_fold_def folded_name_def inj_map_eq_map [OF inj_of_char])
  qed
  then show ?thesis by (simp add: find_field_def split: option.splits)
qed

fun plain_type :: "gtype \<Rightarrow> bool" where
  "plain_type (TSlice t) = plain_type t"
| "plain_type (TPtr t) = (case t of TStruct _ \<Rightarrow> plain_type t | _ \<Rightarrow> False)"
| "plain_type (TOptional t) = (t = TString)"
| "plain_type (TStruct fs) = (plain_fields fs \<and> list_all (\<lambda>(_, _, t). plain_type t) fs)"
| "plain_type _ = True"

lemma plain_type_wf: "plain_type t \<Longrightarrow> wf_type t"
  by (induction t rule: plain_type.induct)
    (auto simp: plain_fields_wf list_all_iff split: gtype.splits)

lemma model_types_plain: "list_all plain_type model_types"
  by code_simp

lemma model_types_wf: "list_all wf_type model_types"
  using model_types_plain plain_type_wf by (auto simp: list_all_iff)


definition example_price :: gval where
  "example_price = GStruct [(''Additional'', GMap (Some [(''note'', JBool True)])),
     (''Amount'', GStr ''5''), (''Currency'', GStr ''USD''), (''Maximum'', GStr []),
     (''Minimum'', GStr []), (''Type'', GStr ''fixed''), (''Unit'', GStr [])]"



end
