(* ===== verification/Validation.thy ===== *)
theory Validation
  imports Codec Normalize
begin

section \<open>Parsing and validation\<close>

text \<open>
  The rest of \<open>validation.go\<close>.  A Go struct is the \<open>GStruct\<close> of its fields (\<open>Models\<close>,
  \<open>Additional\<close>), read by \<open>str_field\<close>, \<open>list_field\<close>, \<dots> and written by \<open>set_field\<close>.  The JSON
  Schema validator and \<open>language.Parse\<close> are third-party code and so parameters (\<open>schema_env\<close>); the
  bytes of a document are what the decoder makes of them (\<open>body\<close>).
\<close>

subsection \<open>Fields of struct values\<close>

definition field_of :: "gval \<Rightarrow> string \<Rightarrow> gval" where
  "field_of v name = (case v of GStruct vals \<Rightarrow> field_value vals name | _ \<Rightarrow> GRaw None)"

definition str_field :: "gval \<Rightarrow> string \<Rightarrow> string" where
  "str_field v name = (case field_of v name of GStr s \<Rightarrow> s | _ \<Rightarrow> [])"

definition bool_field :: "gval \<Rightarrow> string \<Rightarrow> bool" where
  "bool_field v name = (case field_of v name of GBool b \<Rightarrow> b | _ \<Rightarrow> False)"

definition int_field :: "gval \<Rightarrow> string \<Rightarrow> int" where
  "int_field v name = (case field_of v name of GInt n \<Rightarrow> n | _ \<Rightarrow> 0)"

definition list_field :: "gval \<Rightarrow> string \<Rightarrow> gval list" where
  "list_field v name = (case field_of v name of GSlice (Some vs) \<Rightarrow> vs | _ \<Rightarrow> [])"

definition strs_field :: "gval \<Rightarrow> string \<Rightarrow> string list" where
  "strs_field v name = map (\<lambda>x. case x of GStr s \<Rightarrow> s | _ \<Rightarrow> []) (list_field v name)"

definition ptr_field :: "gval \<Rightarrow> string \<Rightarrow> gval option" where
  "ptr_field v name = (case field_of v name of GPtr p \<Rightarrow> p | _ \<Rightarrow> None)"

definition additional_of :: "gval \<Rightarrow> obj" where
  "additional_of v = (case field_of v ''Additional'' of GMap (Some ms) \<Rightarrow> ms | _ \<Rightarrow> [])"

definition set_field :: "string \<Rightarrow> gval \<Rightarrow> gval \<Rightarrow> gval" where
  "set_field name x v = (case v of GStruct vals \<Rightarrow> GStruct (AList.update name x vals) | _ \<Rightarrow> v)"

named_theorems field_simps

lemma field_of_set_field [field_simps]:
  "name' \<noteq> name \<Longrightarrow> field_of (set_field name x v) name' = field_of v name'"
  by (cases v) (simp_all add: field_of_def set_field_def field_value_def)

lemmas field_defs = str_field_def bool_field_def int_field_def list_field_def strs_field_def
  ptr_field_def additional_of_def

subsection \<open>Issues and errors\<close>

record issue_record =
  keyword :: string
  message :: string
  params :: obj
  path :: string

datatype odp_error = Text string | ValidationError string "issue_record list"

fun error_text :: "odp_error \<Rightarrow> string" where
  "error_text (Text s) = s"
| "error_text (ValidationError document_type issues) = ''invalid ODP '' @ document_type"

definition issue :: "string \<Rightarrow> string \<Rightarrow> string \<Rightarrow> issue_record" where
  "issue p k m = \<lparr>keyword = k, message = m, params = [], path = p\<rparr>"

text \<open>\<open>strings.ReplaceAll\<close> of \<open>~\<close> first, so that the tildes of \<open>~1\<close> are not escaped again.\<close>

definition escape_token :: "string \<Rightarrow> string" where
  "escape_token part = replace_all (replace_all part CHR ''~'' ''~0'') CHR ''/'' ''~1''"

definition jsonPointer :: "string list \<Rightarrow> string" where
  "jsonPointer parts = (if parts = [] then [] else ''/'' @ join_with ''/'' (map escape_token parts))"

text \<open>A \<open>jsonschema.ValidationError\<close>: its causes, or the keyword path, the text and the instance
  location of a leaf.\<close>

datatype schema_error = SchemaError "schema_error list" "string list" string "string list"

fun schemaIssues :: "schema_error \<Rightarrow> issue_record list" where
  "schemaIssues (SchemaError causes keyword_path text location) =
     (if causes \<noteq> [] then concat (map schemaIssues causes)
      else [issue (jsonPointer location)
              (if keyword_path = [] then ''schema'' else last keyword_path) text])"

datatype verdict = Valid | Invalid schema_error | Broken string

record schema_env =
  load_schemas :: "string + (string \<Rightarrow> (json \<Rightarrow> verdict) option)"
  language_parse :: "string \<Rightarrow> bool"

subsection \<open>\<open>parseJSON\<close>\<close>

text \<open>What \<open>json.NewDecoder\<close> makes of the bytes: the first value or its error, and then the second
  \<open>Decode\<close>, which is to meet the end of input.\<close>

datatype trailing = EndOfInput | AnotherValue | TrailingError string

datatype body = Undecodable string | Decoded json trailing

definition json_error :: "string \<Rightarrow> string \<Rightarrow> odp_error" where
  "json_error document_type text = ValidationError document_type [issue [] ''json'' text]"

definition schemaOrigin :: string where
  "schemaOrigin = ''https://offeringprotocol.org/schemas/''"

definition parseJSON ::
  "schema_env \<Rightarrow> gtype \<Rightarrow> body \<Rightarrow> string \<Rightarrow> string \<Rightarrow> (gval \<Rightarrow> issue_record list) option \<Rightarrow>
   odp_error + gval" where
  "parseJSON env t data schema_name document_type refine =
     (case load_schemas env of
        Inl err \<Rightarrow> Inl (Text (''load ODP schemas: '' @ err))
      | Inr schemas \<Rightarrow>
     (case schemas (schemaOrigin @ schema_name) of
        None \<Rightarrow> Inl (Text (''missing bundled ODP schema '' @ schema_name))
      | Some validate \<Rightarrow>
     (case data of
        Undecodable err \<Rightarrow> Inl (json_error document_type err)
      | Decoded raw AnotherValue \<Rightarrow> Inl (json_error document_type ''multiple JSON values'')
      | Decoded raw (TrailingError err) \<Rightarrow> Inl (json_error document_type err)
      | Decoded raw EndOfInput \<Rightarrow>
     (case validate raw of
        Invalid root \<Rightarrow> Inl (ValidationError document_type (schemaIssues root))
      | Broken err \<Rightarrow> Inl (Text (''validate ODP '' @ document_type @ '': '' @ err))
      | Valid \<Rightarrow>
     (case unmarshal t raw (zero t) of
        Inl _ \<Rightarrow> Inl (Text (''decode validated ODP '' @ document_type))
      | Inr value \<Rightarrow>
     (case refine of
        None \<Rightarrow> Inr value
      | Some issues \<Rightarrow>
          if issues value \<noteq> [] then Inl (ValidationError document_type (issues value))
          else Inr value))))))"

subsection \<open>Language tags\<close>

definition variant_subtag :: "string \<Rightarrow> bool" where
  "variant_subtag subtag \<longleftrightarrow>
     (5 \<le> length subtag \<and> length subtag \<le> 8) \<or> (length subtag = 4 \<and> is_digit (hd subtag))"

text \<open>The loop over the subtags after the first, with the variants and the extension singletons
  met so far; \<open>x\<close> ends it.\<close>

fun subtags_loop :: "string list \<Rightarrow> string list \<Rightarrow> bool \<Rightarrow> string list \<Rightarrow> bool" where
  "subtags_loop variants extensions in_extension [] = True"
| "subtags_loop variants extensions in_extension (subtag # rest) =
     (if length subtag = 1 then
        (if subtag = ''x'' then True
         else if subtag \<in> set extensions then False
         else subtags_loop variants (subtag # extensions) True rest)
      else if in_extension \<or> \<not> variant_subtag subtag then
        subtags_loop variants extensions in_extension rest
      else if subtag \<in> set variants then False
      else subtags_loop (subtag # variants) extensions in_extension rest)"

definition validLanguageTag :: "schema_env \<Rightarrow> string \<Rightarrow> bool" where
  "validLanguageTag env value =
     (if CHR ''_'' \<in> set value then False
      else if \<not> language_parse env value then False
      else
        (let subtags = split_on CHR ''-'' (to_lower value) in
         if hd subtags = ''x'' then True else subtags_loop [] [] False (tl subtags)))"

subsection \<open>The checks a schema cannot express\<close>

text \<open>The loop over \<open>localizations\<close>: its first issue, if any, and the folded tags it has recorded
  when it ends or breaks off.\<close>

fun localizations_loop ::
  "schema_env \<Rightarrow> string list \<Rightarrow> string list \<Rightarrow> issue_record list \<times> string list" where
  "localizations_loop env folded [] = ([], folded)"
| "localizations_loop env folded (tag # rest) =
     (if \<not> validLanguageTag env tag then
        ([issue ''/localizations'' ''language-tag'' ''must contain only language tags''], folded)
      else if to_lower tag \<in> set folded then
        ([issue ''/localizations'' ''unique-language-tag'' ''must be unique without regard to case''],
         folded)
      else localizations_loop env (to_lower tag # folded) rest)"

text \<open>\<open>containsDefault\<close> is set on the tags the loop gets to.\<close>

fun default_loop :: "schema_env \<Rightarrow> string \<Rightarrow> string list \<Rightarrow> string list \<Rightarrow> bool" where
  "default_loop env fallback folded [] = False"
| "default_loop env fallback folded (tag # rest) =
     (if \<not> validLanguageTag env tag \<or> to_lower tag \<in> set folded then False
      else equal_fold tag fallback \<or> default_loop env fallback (to_lower tag # folded) rest)"

definition supports :: "gval list \<Rightarrow> string \<Rightarrow> bool" where
  "supports operations expected \<longleftrightarrow> list_ex (\<lambda>op. str_field op ''Name'' = expected) operations"

definition code_points :: "string list \<Rightarrow> nat" where
  "code_points keywords = sum_list (map rune_count keywords)"

definition serviceDocumentIssues :: "schema_env \<Rightarrow> gval \<Rightarrow> issue_record list" where
  "serviceDocumentIssues env value =
     (if ''id'' \<in> set (map fst (additional_of value))
      then [issue ''/id'' ''prohibited'' ''must not appear in a Service Document''] else []) @
     (if ''web_url'' \<in> set (map fst (additional_of value))
      then [issue ''/web_url'' ''prohibited'' ''must not appear in a Service Document''] else []) @
     (if \<not> validLanguageTag env (str_field value ''Language'')
      then [issue ''/language'' ''language-tag'' ''must be a language tag''] else []) @
     fst (localizations_loop env [] (strs_field value ''Localizations'')) @
     (if \<not> default_loop env (str_field value ''Language'') [] (strs_field value ''Localizations'')
      then [issue ''/localizations'' ''contains-default-language'' ''must contain the default language'']
      else []) @
     (if code_points (strs_field value ''Keywords'') > 1024
      then [issue ''/keywords'' ''max-code-points''
              ''must contain no more than 1024 code points in total''] else []) @
     (if ptr_field value ''SearchCapabilities'' \<noteq> None \<and>
         \<not> supports (list_field value ''Operations'') ''search-offerings''
      then [issue ''/search_capabilities'' ''operation-support''
              ''requires the search-offerings operation''] else [])"

text \<open>The field names are the same for both representations, a Collection and an Offering.\<close>

definition representationIssues :: "schema_env \<Rightarrow> gval \<Rightarrow> issue_record list" where
  "representationIssues env value =
     (let language = str_field value ''Language'';
          localizations = strs_field value ''Localizations'';
          (issues, folded) = localizations_loop env [] localizations;
          sources = map (\<lambda>image. str_field image ''Source'') (list_field value ''Images'') in
      (if language \<noteq> [] \<and> \<not> validLanguageTag env language
       then [issue ''/language'' ''language-tag'' ''must be a language tag''] else []) @
      issues @
      (if language \<noteq> [] \<and> localizations \<noteq> [] \<and> to_lower language \<notin> set folded
       then [issue ''/localizations'' ''contains-language'' ''must contain the representation language'']
       else []) @
      (if first_repeat [] sources \<noteq> None
       then [issue ''/images'' ''unique-image-source'' ''must contain unique image sources'']
       else []))"

definition problem_type :: "string \<Rightarrow> string" where
  "problem_type code =
     ''https://offeringprotocol.org/problems/'' @ to_lower (replace_all code CHR ''_'' ''-'')"

definition problemDetailsIssues :: "gval \<Rightarrow> issue_record list" where
  "problemDetailsIssues value =
     (let expected = problem_type (str_field value ''Code'') in
      if str_field value ''Type'' = expected then []
      else [\<lparr>keyword = ''problem-type'', message = ''must correspond to the problem code'',
             params = [(''expectedType'', JStr expected)], path = ''/type''\<rparr>])"

definition ordering_operator :: "string \<Rightarrow> bool" where
  "ordering_operator operator \<longleftrightarrow> operator \<in> {''gt'', ''gte'', ''lt'', ''lte''}"

definition filterDefinitionIssues :: "gval \<Rightarrow> issue_record list" where
  "filterDefinitionIssues value =
     (if str_field value ''Type'' \<in> {''string'', ''boolean''} \<and>
         list_ex ordering_operator (strs_field value ''Operators'')
      then [issue ''/operators'' ''operator-type''
              ''contains an operator incompatible with the Filter type''] else []) @
     (if str_field value ''Type'' = ''boolean'' \<and> ptr_field value ''Unit'' \<noteq> None
      then [issue ''/unit'' ''unit-type'' ''must not appear on a boolean Filter''] else [])"

subsection \<open>The parsers\<close>

definition ParseServiceDocument :: "schema_env \<Rightarrow> body \<Rightarrow> odp_error + gval" where
  "ParseServiceDocument env data = parseJSON env ServiceDocument_type data
     ''service-document.schema.json'' ''Service Document'' (Some (serviceDocumentIssues env))"

text \<open>\<open>json.Unmarshal\<close> into the map refuses what the decoder refuses, trailing data included; the
  filtered document decodes to what was encoded.\<close>

definition ParseAgentServiceDocument :: "schema_env \<Rightarrow> body \<Rightarrow> odp_error + gval" where
  "ParseAgentServiceDocument env data =
     (case NormalizeAgentResponse
             (case data of Decoded raw EndOfInput \<Rightarrow> Some raw | _ \<Rightarrow> None) ''service-document'' of
        Inl _ \<Rightarrow> ParseServiceDocument env data
      | Inr filtered \<Rightarrow> ParseServiceDocument env (Decoded filtered EndOfInput))"

definition ParseCollection :: "schema_env \<Rightarrow> body \<Rightarrow> odp_error + gval" where
  "ParseCollection env data = parseJSON env Collection_type data
     ''collection.schema.json'' ''Collection'' (Some (representationIssues env))"

definition ParseOffering :: "schema_env \<Rightarrow> body \<Rightarrow> odp_error + gval" where
  "ParseOffering env data = parseJSON env Offering_type data
     ''offering.schema.json'' ''Offering'' (Some (representationIssues env))"

definition ParseProblemDetails :: "schema_env \<Rightarrow> body \<Rightarrow> odp_error + gval" where
  "ParseProblemDetails env data = parseJSON env ProblemDetails_type data
     ''problem-details.schema.json'' ''Problem Details'' (Some problemDetailsIssues)"

definition ParseProblemResponse :: "schema_env \<Rightarrow> body \<Rightarrow> int \<Rightarrow> odp_error + gval" where
  "ParseProblemResponse env data status =
     bind_res (ParseProblemDetails env data) (\<lambda>problem.
       if int_field problem ''Status'' \<noteq> status then
         Inl (ValidationError ''Problem Details''
           [\<lparr>keyword = ''http-status'', message = ''must match the HTTP response status'',
             params = [(''httpStatus'', JNum (itoa status))], path = ''/status''\<rparr>])
       else Inr problem)"

definition ParseResourceIdentity :: "schema_env \<Rightarrow> body \<Rightarrow> odp_error + gval" where
  "ParseResourceIdentity env data = parseJSON env ResourceIdentity_type data
     ''resource-identity.schema.json'' ''resource identity'' None"

definition ParsePage :: "schema_env \<Rightarrow> gtype \<Rightarrow> body \<Rightarrow> odp_error + gval" where
  "ParsePage env item data = parseJSON env (Page_type item) data
     ''page-envelope.schema.json'' ''page envelope'' None"

definition ParseCollectionSearchRequest :: "schema_env \<Rightarrow> body \<Rightarrow> odp_error + gval" where
  "ParseCollectionSearchRequest env data = parseJSON env CollectionSearchRequest_type data
     ''collection-search-request.schema.json'' ''Collection search request'' None"

definition ParseOfferingSearchRequest :: "schema_env \<Rightarrow> body \<Rightarrow> odp_error + gval" where
  "ParseOfferingSearchRequest env data = parseJSON env OfferingSearchRequest_type data
     ''offering-search-request.schema.json'' ''Offering search request'' None"

definition ParseOfferingSearchResponse :: "schema_env \<Rightarrow> body \<Rightarrow> odp_error + gval" where
  "ParseOfferingSearchResponse env data = parseJSON env (OfferingPage_type Offering_type) data
     ''offering-search-response.schema.json'' ''Offering search response'' None"

definition ParseFilterDefinition :: "schema_env \<Rightarrow> body \<Rightarrow> odp_error + gval" where
  "ParseFilterDefinition env data = parseJSON env FilterDefinition_type data
     ''filter-definition.schema.json'' ''Filter Definition'' (Some filterDefinitionIssues)"

definition ParseSortDefinition :: "schema_env \<Rightarrow> body \<Rightarrow> odp_error + gval" where
  "ParseSortDefinition env data = parseJSON env SortDefinition_type data
     ''sort-definition.schema.json'' ''Sort Definition'' None"

definition ParseFilterDefinitionPage :: "schema_env \<Rightarrow> body \<Rightarrow> odp_error + gval" where
  "ParseFilterDefinitionPage env data = parseJSON env (Page_type FilterDefinition_type) data
     ''filter-definition-page.schema.json'' ''Filter Definition page'' None"

definition ParseSortDefinitionPage :: "schema_env \<Rightarrow> body \<Rightarrow> odp_error + gval" where
  "ParseSortDefinitionPage env data = parseJSON env (Page_type SortDefinition_type) data
     ''sort-definition-page.schema.json'' ''Sort Definition page'' None"

subsection \<open>JSON Pointers\<close>

fun unescape_token :: "string \<Rightarrow> string" where
  "unescape_token [] = []"
| "unescape_token (c # s) =
     (case s of
        [] \<Rightarrow> [c]
      | d # s' \<Rightarrow>
          if c = CHR ''~'' \<and> d = CHR ''1'' then CHR ''/'' # unescape_token s'
          else if c = CHR ''~'' \<and> d = CHR ''0'' then CHR ''~'' # unescape_token s'
          else c # unescape_token s)"

definition pointer_tokens :: "string \<Rightarrow> string list" where
  "pointer_tokens p = (if p = [] then [] else map unescape_token (tl (split_on CHR ''/'' p)))"

lemma escape_token_Cons:
  "escape_token (c # s) =
     (if c = CHR ''~'' then ''~0'' else if c = CHR ''/'' then ''~1'' else [c]) @ escape_token s"
  by (simp add: escape_token_def replace_all_def)

lemma escape_token_Nil [simp]: "escape_token [] = []"
  by (simp add: escape_token_def replace_all_def)

lemma unescape_escape_token: "unescape_token (escape_token s) = s"
proof (induction s)
  case (Cons c s)
  then show ?case by (cases "escape_token s") (auto simp: escape_token_Cons)
qed simp

lemma escape_token_no_slash: "CHR ''/'' \<notin> set (escape_token s)"
  by (induction s) (auto simp: escape_token_Cons)

text \<open>A path in an issue names one location and no other: reading a JSON Pointer back, token
  by token, gives the instance location it was built from.\<close>

theorem jsonPointer_round_trip: "pointer_tokens (jsonPointer parts) = parts"
proof (cases "parts = []")
  case False
  have "split_on CHR ''/'' (join_with ''/'' (map escape_token parts)) = map escape_token parts"
    by (rule split_join) (use False escape_token_no_slash in auto)
  with False show ?thesis
    by (simp add: jsonPointer_def pointer_tokens_def unescape_escape_token o_def)
qed (simp add: jsonPointer_def pointer_tokens_def)

subsection \<open>What is accepted\<close>

lemma parseJSON_Inr:
  "parseJSON env t data name document_type refine = Inr v \<longleftrightarrow>
     (\<exists>schemas validate raw. load_schemas env = Inr schemas \<and>
        schemas (schemaOrigin @ name) = Some validate \<and> data = Decoded raw EndOfInput \<and>
        validate raw = Valid \<and> unmarshal t raw (zero t) = Inr v \<and>
        (case refine of None \<Rightarrow> True | Some f \<Rightarrow> f v = []))"
  by (auto simp: parseJSON_def split: sum.splits option.splits body.splits trailing.splits
      verdict.splits if_splits)


lemma subtags_loop_extension:
  "subtags_loop variants extensions True ts \<longleftrightarrow>
     distinct (filter (\<lambda>s. length s = 1) (takeWhile (\<lambda>s. s \<noteq> ''x'') ts)) \<and>
     set (filter (\<lambda>s. length s = 1) (takeWhile (\<lambda>s. s \<noteq> ''x'') ts)) \<inter> set extensions = {}"
  by (induction ts arbitrary: extensions) auto

definition singletons :: "string list \<Rightarrow> string list" where
  "singletons ts = filter (\<lambda>s. length s = 1) (takeWhile (\<lambda>s. s \<noteq> ''x'') ts)"

definition variants :: "string list \<Rightarrow> string list" where
  "variants ts = filter variant_subtag (takeWhile (\<lambda>s. length s \<noteq> 1) ts)"

lemma subtags_loop_eq:
  "subtags_loop vs extensions False ts \<longleftrightarrow>
     distinct (singletons ts) \<and> set (singletons ts) \<inter> set extensions = {} \<and>
     distinct (variants ts) \<and> set (variants ts) \<inter> set vs = {}"
proof (induction ts arbitrary: vs extensions)
  case Nil
  show ?case by (simp add: singletons_def variants_def)
next
  case (Cons t ts)
  show ?case
  proof (cases "length t = 1")
    case True
    then show ?thesis
      by (auto simp: singletons_def variants_def subtags_loop_extension)
  next
    case False
    moreover have "t \<noteq> ''x''" using False by auto
    ultimately show ?thesis
      using Cons.IH by (auto simp: singletons_def variants_def)
  qed
qed

text \<open>\<open>validLanguageTag\<close> accepts a tag \<open>language.Parse\<close> accepts, unless it has an underscore,
  repeats an extension singleton before its private use, or repeats a variant before its first
  extension (case aside in all three).\<close>

theorem validLanguageTag_iff:
  "validLanguageTag env tag \<longleftrightarrow>
     CHR ''_'' \<notin> set tag \<and> language_parse env tag \<and>
     (let ts = split_on CHR ''-'' (to_lower tag) in
      hd ts = ''x'' \<or> (distinct (singletons (tl ts)) \<and> distinct (variants (tl ts))))"
  by (simp add: validLanguageTag_def subtags_loop_eq Let_def)

lemma localizations_loop_ok:
  "fst (localizations_loop env folded tags) = [] \<longleftrightarrow>
     list_all (validLanguageTag env) tags \<and> distinct (map to_lower tags) \<and>
     set (map to_lower tags) \<inter> set folded = {}"
  by (induction tags arbitrary: folded) (auto simp: list_all_iff)

lemma localizations_loop_folded:
  "fst (localizations_loop env folded tags) = [] \<Longrightarrow>
   set (snd (localizations_loop env folded tags)) = set (map to_lower tags) \<union> set folded"
  by (induction tags arbitrary: folded) (auto split: if_splits)

lemma default_loop_ok:
  "fst (localizations_loop env folded tags) = [] \<Longrightarrow>
   default_loop env fallback folded tags = list_ex (\<lambda>tag. equal_fold tag fallback) tags"
  by (induction tags arbitrary: folded) (auto split: if_splits)

text \<open>A Service Document has no issue exactly when its language tags are valid and distinct
  without regard to case, its default language is among its localizations, its keywords fit 1024
  code points together, it advertises \<open>search-offerings\<close> if it describes search capabilities, and
  it does not claim the members of a resource.\<close>

theorem serviceDocumentIssues_none:
  "serviceDocumentIssues env value = [] \<longleftrightarrow>
     ''id'' \<notin> set (map fst (additional_of value)) \<and>
     ''web_url'' \<notin> set (map fst (additional_of value)) \<and>
     list_all (validLanguageTag env)
       (str_field value ''Language'' # strs_field value ''Localizations'') \<and>
     distinct (map to_lower (strs_field value ''Localizations'')) \<and>
     list_ex (\<lambda>tag. equal_fold tag (str_field value ''Language'')) (strs_field value ''Localizations'') \<and>
     code_points (strs_field value ''Keywords'') \<le> 1024 \<and>
     (ptr_field value ''SearchCapabilities'' = None \<or>
      supports (list_field value ''Operations'') ''search-offerings'')"
  using localizations_loop_ok [of env "[]" "strs_field value ''Localizations''"]
    default_loop_ok [of env "[]" "strs_field value ''Localizations''" "str_field value ''Language''"]
  by (auto simp: serviceDocumentIssues_def)

text \<open>A Collection or Offering has no issue exactly when its language tags are valid, its
  localizations are distinct without regard to case and contain its language when it declares
  both, and no two of its images have one source.\<close>

theorem representationIssues_none:
  "representationIssues env value = [] \<longleftrightarrow>
     (str_field value ''Language'' = [] \<or> validLanguageTag env (str_field value ''Language'')) \<and>
     list_all (validLanguageTag env) (strs_field value ''Localizations'') \<and>
     distinct (map to_lower (strs_field value ''Localizations'')) \<and>
     (str_field value ''Language'' = [] \<or> strs_field value ''Localizations'' = [] \<or>
      to_lower (str_field value ''Language'') \<in> set (map to_lower (strs_field value ''Localizations''))) \<and>
     distinct (map (\<lambda>image. str_field image ''Source'') (list_field value ''Images''))"
  using localizations_loop_ok [of env "[]" "strs_field value ''Localizations''"]
    localizations_loop_folded [of env "[]" "strs_field value ''Localizations''"]
  by (auto simp: representationIssues_def first_repeat_None Let_def split: prod.splits)

subsection \<open>What an Agent accepts of a Service Document\<close>


text \<open>A validator that accepts everything, for concrete runs.\<close>

definition lenient_env :: schema_env where
  "lenient_env = \<lparr>load_schemas = Inr (\<lambda>_. Some (\<lambda>_. Valid)), language_parse = (\<lambda>_. True)\<rparr>"

definition small_document :: obj where
  "small_document = [(''localizations'', JArr [JStr []]), (''name'', JStr ''Shop'')]"


end
