(* ===== verification/Negotiation.thy ===== *)
theory Negotiation
  imports GoStrings
begin

section \<open>Content negotiation of the service\<close>

text \<open>
  The header functions of \<open>service/service.go\<close>: \<open>acceptsODP\<close>, \<open>selectLanguage\<close>, \<open>lookup\<close>,
  \<open>covers\<close>, \<open>headerEntries\<close>, \<open>rangeOf\<close>, \<open>qualityOf\<close>, \<open>matchesEntityTag\<close> and
  \<open>representationLanguage\<close>.  A quality has at most three fractional digits, so it is kept in
  thousandths; the order of the \<open>float64\<close> values is the order of these.
\<close>

definition MediaType :: string where "MediaType = ''application/odp+json''"

definition maximumHeaderEntries :: nat where "maximumHeaderEntries = 64"

definition headerEntries :: "string \<Rightarrow> string list" where
  "headerEntries header = take maximumHeaderEntries (split_on CHR '','' header)"

definition rangeOf :: "string \<Rightarrow> string" where
  "rangeOf entry = to_lower (trim_space (fst (cut CHR '';'' entry)))"

text \<open>\<open>qualityValue\<close> with \<open>strconv.ParseFloat\<close> of what it matches, in thousandths.\<close>

fun quality_value :: "string \<Rightarrow> nat option" where
  "quality_value [] = None"
| "quality_value (c # s) =
     (if c \<noteq> CHR ''0'' \<and> c \<noteq> CHR ''1'' then None
      else if s = [] then Some (if c = CHR ''1'' then 1000 else 0)
      else
        (let digits = tl s in
         if hd s = CHR ''.'' \<and> length digits \<le> 3 \<and> list_all is_digit digits \<and>
            (c = CHR ''1'' \<longrightarrow> list_all (\<lambda>d. d = CHR ''0'') digits)
         then Some ((if c = CHR ''1'' then 1000 else 0) +
           decimal_value (digits @ replicate (3 - length digits) CHR ''0''))
         else None))"

fun quality_loop :: "string list \<Rightarrow> nat option" where
  "quality_loop [] = Some 1000"
| "quality_loop (parameter # rest) =
     (case cut CHR ''='' parameter of (name, value, found) \<Rightarrow>
        if \<not> found \<or> \<not> equal_fold (trim_space name) ''q'' then quality_loop rest
        else quality_value (trim_space value))"

definition qualityOf :: "string \<Rightarrow> nat option" where
  "qualityOf entry =
     (case cut CHR '';'' entry of (before, after, found) \<Rightarrow>
        if \<not> found then Some 1000 else quality_loop (split_on CHR '';'' after))"

subsection \<open>\<open>Accept\<close>\<close>

definition specificity_of :: "string \<Rightarrow> nat option" where
  "specificity_of media_range =
     (if media_range = MediaType then Some 2 else if media_range = ''application/*'' then Some 1
      else if media_range = ''*/*'' then Some 0 else None)"

text \<open>The state of the loop: \<open>None\<close> for \<open>bestSpecificity = -1\<close>.\<close>

fun accept_loop :: "(nat \<times> nat) option \<Rightarrow> string list \<Rightarrow> (nat \<times> nat) option" where
  "accept_loop best [] = best"
| "accept_loop best (entry # rest) =
     (case specificity_of (rangeOf entry) of
        None \<Rightarrow> accept_loop best rest
      | Some specificity \<Rightarrow>
          (case qualityOf entry of
             None \<Rightarrow> accept_loop best rest
           | Some quality \<Rightarrow>
               if best = None \<or> specificity > fst (the best) \<or>
                  (specificity = fst (the best) \<and> quality > snd (the best))
               then accept_loop (Some (specificity, quality)) rest
               else accept_loop best rest))"

definition acceptsODP :: "string \<Rightarrow> bool" where
  "acceptsODP accept =
     (if trim_space accept = [] then True
      else case accept_loop None (headerEntries accept) of
          None \<Rightarrow> False
        | Some (_, quality) \<Rightarrow> quality > 0)"

subsection \<open>\<open>Accept-Language\<close>\<close>

text \<open>One truncation: \<open>None\<close> when there is no subtag left to drop.\<close>

definition truncate_range :: "string \<Rightarrow> string option" where
  "truncate_range candidate =
     (case last_index CHR ''-'' candidate of
        None \<Rightarrow> None
      | Some i \<Rightarrow>
          (let shorter = take i candidate in
           case last_index CHR ''-'' shorter of
             Some singleton \<Rightarrow>
               if length shorter - singleton = 2 then Some (take singleton shorter) else Some shorter
           | None \<Rightarrow> Some shorter))"

lemma truncate_range_shorter: "truncate_range c = Some c' \<Longrightarrow> length c' < length c"
  by (auto simp: truncate_range_def Let_def dest!: last_index_Some split: option.splits if_splits)

function lookup_tag :: "string \<Rightarrow> string list \<Rightarrow> string" where
  "lookup_tag candidate localizations =
     (case find (\<lambda>tag. equal_fold tag candidate) localizations of
        Some tag \<Rightarrow> tag
      | None \<Rightarrow>
          (case truncate_range candidate of
             None \<Rightarrow> []
           | Some shorter \<Rightarrow> lookup_tag shorter localizations))"
  by pat_completeness auto
termination
  by (relation "measure (\<lambda>(candidate, _). length candidate)") (auto dest: truncate_range_shorter)

declare lookup_tag.simps [simp del]

definition covers :: "string \<Rightarrow> string \<Rightarrow> bool" where
  "covers value tag \<longleftrightarrow> tag = value \<or> has_prefix tag (value @ ''-'')"

text \<open>The entries of the header that have a range and a weight.\<close>

definition language_entries :: "string \<Rightarrow> (nat \<times> string) list" where
  "language_entries header =
     concat (map (\<lambda>entry.
       (case qualityOf entry of
          None \<Rightarrow> []
        | Some quality \<Rightarrow> if rangeOf entry = [] then [] else [(quality, rangeOf entry)]))
       (headerEntries header))"

definition wanted_ranges :: "(nat \<times> string) list \<Rightarrow> (nat \<times> string) list" where
  "wanted_ranges entries =
     sort_key (\<lambda>e. - int (fst e)) (filter (\<lambda>e. snd e \<noteq> ''*'' \<and> fst e > 0) entries)"

definition refused_ranges :: "(nat \<times> string) list \<Rightarrow> string list" where
  "refused_ranges entries = map snd (filter (\<lambda>e. snd e \<noteq> ''*'' \<and> fst e = 0) entries)"

definition residual :: "(nat \<times> string) list \<Rightarrow> bool" where
  "residual entries \<longleftrightarrow> list_ex (\<lambda>e. snd e = ''*'' \<and> fst e > 0) entries"

definition selectLanguage :: "string \<Rightarrow> string \<Rightarrow> string list \<Rightarrow> string" where
  "selectLanguage header fallback localizations =
     (let entries = language_entries header in
      case find (\<lambda>tag. tag \<noteq> []) (map (\<lambda>e. lookup_tag (snd e) localizations) (wanted_ranges entries)) of
        Some found \<Rightarrow> found
      | None \<Rightarrow>
          if \<not> residual entries then []
          else
            (case find (\<lambda>tag. \<not> list_ex (\<lambda>value. covers value (to_lower tag)) (refused_ranges entries))
                (fallback # localizations) of
               Some tag \<Rightarrow> tag
             | None \<Rightarrow> []))"

definition representationLanguage :: "string \<Rightarrow> string \<Rightarrow> string \<Rightarrow> string" where
  "representationLanguage declared selected fallback =
     (if declared \<noteq> [] then declared else if selected \<noteq> [] then selected else fallback)"

subsection \<open>\<open>If-None-Match\<close>\<close>

definition matchesEntityTag :: "string \<Rightarrow> string \<Rightarrow> bool" where
  "matchesEntityTag header tag =
     (if header = [] then False
      else list_ex (\<lambda>candidate.
          let validator = trim_prefix (trim_space candidate) ''W/'' in
          validator = ''*'' \<or> validator = tag)
        (split_on CHR '','' header))"

subsection \<open>Correctness\<close>

text \<open>The specificities and weights that count, of the entries the bound leaves.\<close>

definition accepted_ranges :: "string list \<Rightarrow> (nat \<times> nat) list" where
  "accepted_ranges entries =
     concat (map (\<lambda>entry.
       (case (specificity_of (rangeOf entry), qualityOf entry) of
          (Some specificity, Some quality) \<Rightarrow> [(specificity, quality)]
        | _ \<Rightarrow> [])) entries)"

definition better :: "nat \<times> nat \<Rightarrow> nat \<times> nat \<Rightarrow> bool" where
  "better x y \<longleftrightarrow> fst y < fst x \<or> (fst x = fst y \<and> snd y < snd x)"

lemma accept_loop_max:
  "case accept_loop best entries of
     None \<Rightarrow> best = None \<and> accepted_ranges entries = []
   | Some m \<Rightarrow> (best = Some m \<or> m \<in> set (accepted_ranges entries)) \<and>
       (\<forall>x\<in>set (accepted_ranges entries). \<not> better x m) \<and>
       (\<forall>b. best = Some b \<longrightarrow> \<not> better b m)"
proof (induction entries arbitrary: best)
  case Nil
  show ?case by (cases best) (auto simp: accepted_ranges_def better_def)
next
  case (Cons entry rest)
  show ?case
  proof (cases "\<exists>s q. specificity_of (rangeOf entry) = Some s \<and> qualityOf entry = Some q")
    case False
    then have skip: "accept_loop best (entry # rest) = accept_loop best rest"
      "accepted_ranges (entry # rest) = accepted_ranges rest"
      by (auto simp: accepted_ranges_def split: option.splits)
    show ?thesis unfolding skip by (rule Cons.IH)
  next
    case True
    then obtain s q where e: "specificity_of (rangeOf entry) = Some s" "qualityOf entry = Some q"
      by blast
    then have ranges: "accepted_ranges (entry # rest) = (s, q) # accepted_ranges rest"
      by (simp add: accepted_ranges_def)
    show ?thesis
    proof (cases "best = None \<or> better (s, q) (the best)")
      case True
      then have "accept_loop best (entry # rest) = accept_loop (Some (s, q)) rest"
        using e by (auto simp: better_def)
      then show ?thesis
        using Cons.IH [of "Some (s, q)"] True
        by (auto simp: ranges better_def split: option.splits)
    next
      case False
      then have "accept_loop best (entry # rest) = accept_loop best rest"
        using e by (auto simp: better_def)
      then show ?thesis
        using Cons.IH [of best] False
        by (auto simp: ranges better_def split: option.splits)
    qed
  qed
qed

text \<open>A request is acceptable exactly when its \<open>Accept\<close> is blank or, among the first 64
  entries, some range that matches \<open>application/odp+json\<close> has a positive weight and no matching
  range is more specific; so \<open>q=0\<close> on the exact type refuses whatever the wildcards say.\<close>

theorem acceptsODP_iff:
  "acceptsODP accept \<longleftrightarrow>
     trim_space accept = [] \<or>
     (let ranges = accepted_ranges (take 64 (split_on CHR '','' accept)) in
      list_ex (\<lambda>x. snd x > 0 \<and> list_all (\<lambda>y. fst y \<le> fst x) ranges) ranges)"
proof -
  let ?entries = "take 64 (split_on CHR '','' accept)"
  have entries: "headerEntries accept = ?entries"
    by (simp add: headerEntries_def maximumHeaderEntries_def)
  show ?thesis
  proof (cases "accept_loop None ?entries")
    case None
    then show ?thesis
      using accept_loop_max [of None ?entries] by (simp add: acceptsODP_def entries)
  next
    case (Some m)
    then have m: "m \<in> set (accepted_ranges ?entries)"
        "\<forall>x\<in>set (accepted_ranges ?entries). \<not> better x m"
      using accept_loop_max [of None ?entries] by simp_all
    have top: "fst x \<le> fst m" "fst x = fst m \<Longrightarrow> snd x \<le> snd m"
      if "x \<in> set (accepted_ranges ?entries)" for x
      using m(2) that by (auto simp: better_def)
    have "(snd m > 0) = list_ex (\<lambda>x. snd x > 0 \<and>
        list_all (\<lambda>y. fst y \<le> fst x) (accepted_ranges ?entries)) (accepted_ranges ?entries)"
      (is "_ = list_ex ?best _")
    proof
      assume "snd m > 0"
      then have "?best m" using top(1) by (simp add: list_all_iff)
      with m(1) show "list_ex ?best (accepted_ranges ?entries)" by (auto simp: list_ex_iff)
    next
      assume "list_ex ?best (accepted_ranges ?entries)"
      then obtain x where x: "x \<in> set (accepted_ranges ?entries)" "?best x"
        by (auto simp: list_ex_iff)
      then have "fst m \<le> fst x" using m(1) by (simp add: list_all_iff)
      with top [OF x(1)] have "snd x \<le> snd m" by simp
      with x(2) show "snd m > 0" by simp
    qed
    then show ?thesis using Some by (simp add: acceptsODP_def entries Let_def case_prod_beta)
  qed
qed

text \<open>A range and its truncations at subtag boundaries.\<close>

definition truncation_of :: "string \<Rightarrow> string \<Rightarrow> bool" where
  "truncation_of value shorter \<longleftrightarrow> shorter = value \<or> has_prefix value (shorter @ ''-'')"

lemma last_index_split:
  assumes "last_index c s = Some i"
  shows "s = take i s @ c # drop (Suc i) s" "c \<notin> set (drop (Suc i) s)"
  using last_index_Some [OF assms] by (auto simp: Cons_nth_drop_Suc)

lemma truncate_range_prefix:
  assumes "truncate_range c = Some c'"
  shows "has_prefix c (c' @ ''-'')" "hd (split_on CHR ''-'' c') = hd (split_on CHR ''-'' c)"
proof -
  obtain i where i: "last_index CHR ''-'' c = Some i"
    using assms by (auto simp: truncate_range_def split: option.splits)
  note c = last_index_split(1) [OF i]
  have hd_split: "hd (split_on d (s @ d # t)) = hd (split_on d s)" for d s t
    by (induction s) (auto split: list.splits simp: neq_Nil_conv)
  from assms i consider "c' = take i c"
    | j where "last_index CHR ''-'' (take i c) = Some j" "c' = take j (take i c)"
    by (auto simp: truncate_range_def Let_def split: option.splits if_splits)
  then have "\<exists>t. c = c' @ CHR ''-'' # t"
  proof cases
    case 1
    with c show ?thesis by blast
  next
    case (2 j)
    have "c = (take j (take i c) @ CHR ''-'' # drop (Suc j) (take i c)) @ CHR ''-'' # drop (Suc i) c"
      using c last_index_split(1) [OF 2(1)] by (simp only:)
    with 2(2) show ?thesis by (metis append.assoc append_Cons)
  qed
  then obtain t where "c = c' @ CHR ''-'' # t" ..
  then show "has_prefix c (c' @ ''-'')" "hd (split_on CHR ''-'' c') = hd (split_on CHR ''-'' c)"
    by (simp_all add: has_prefix_iff hd_split)
qed

lemma lookup_tag_cases:
  "(lookup_tag wanted localizations = [] \<and>
      list_all (\<lambda>tag. \<not> equal_fold tag wanted \<and>
        \<not> equal_fold tag (hd (split_on CHR ''-'' wanted))) localizations) \<or>
   (lookup_tag wanted localizations \<in> set localizations \<and>
      (\<exists>p. truncation_of wanted p \<and> equal_fold (lookup_tag wanted localizations) p) \<and>
      (list_ex (\<lambda>tag. equal_fold tag wanted) localizations \<longrightarrow>
         equal_fold (lookup_tag wanted localizations) wanted))"
proof (induction "length wanted" arbitrary: wanted rule: less_induct)
  case less
  show ?case
  proof (cases "find (\<lambda>tag. equal_fold tag wanted) localizations")
    case (Some tag)
    then have "tag \<in> set localizations" "equal_fold tag wanted"
      by (auto simp: find_Some_iff)
    moreover have "lookup_tag wanted localizations = tag"
      by (subst lookup_tag.simps) (simp add: Some)
    ultimately show ?thesis by (auto simp: truncation_of_def)
  next
    case None
    then have none: "list_all (\<lambda>tag. \<not> equal_fold tag wanted) localizations"
      by (auto simp: find_None_iff list_all_iff)
    show ?thesis
    proof (cases "truncate_range wanted")
      case stop: None
      then have "hd (split_on CHR ''-'' wanted) = wanted"
        by (auto simp: truncate_range_def last_index_None split_on_no_sep Let_def
            split: option.splits if_splits)
      moreover have "lookup_tag wanted localizations = []"
        by (subst lookup_tag.simps) (simp add: None stop)
      ultimately show ?thesis using none by simp
    next
      case (Some shorter)
      have run: "lookup_tag wanted localizations = lookup_tag shorter localizations"
        by (subst lookup_tag.simps) (simp add: None Some)
      have trans: "truncation_of wanted p" if "truncation_of shorter p" for p
        using truncate_range_prefix(1) [OF Some] that
        by (auto simp: truncation_of_def has_prefix_iff)
      show ?thesis
        using less [OF truncate_range_shorter [OF Some]] truncate_range_prefix(2) [OF Some] none trans
        unfolding run by (auto simp: list_all_iff list_ex_iff)
    qed
  qed
qed

text \<open>\<open>lookup\<close> finds a tag that equals the range or a truncation of it at a subtag boundary,
  the range itself when a tag equals it; it finds none only if no tag equals the range or its
  first subtag.\<close>

theorem lookup_tag_correct:
  "lookup_tag wanted localizations = [] \<and>
     list_all (\<lambda>tag. \<not> equal_fold tag wanted \<and>
       \<not> equal_fold tag (hd (split_on CHR ''-'' wanted))) localizations \<or>
   lookup_tag wanted localizations \<in> set localizations \<and>
     list_ex (\<lambda>p. truncation_of wanted p \<and> equal_fold (lookup_tag wanted localizations) p)
       (map (\<lambda>i. take i wanted) [0..<Suc (length wanted)]) \<and>
     (equal_fold (lookup_tag wanted localizations) wanted \<or>
      list_all (\<lambda>tag. \<not> equal_fold tag wanted) localizations)"
proof -
  have short: "p \<in> set (map (\<lambda>i. take i wanted) [0..<Suc (length wanted)])"
    if "truncation_of wanted p" for p
  proof -
    from that obtain t where "wanted = p @ t" by (auto simp: truncation_of_def has_prefix_iff)
    then have "p = take (length p) wanted" "length p \<le> length wanted" by simp_all
    then show ?thesis
      unfolding set_map by (intro image_eqI [of _ _ "length p"]) (simp_all del: upt_Suc)
  qed
  from lookup_tag_cases [of wanted localizations] show ?thesis
    using short by (fastforce simp: list_ex_iff list_all_iff)
qed

lemma wanted_sorted: "sorted (map (\<lambda>e. - int (fst e)) (wanted_ranges entries))"
  by (simp add: wanted_ranges_def)

lemma find_first_match:
  assumes "find P (map f xs) = Some y"
  shows "\<exists>ys x zs. xs = ys @ x # zs \<and> y = f x \<and> P y \<and> (\<forall>z\<in>set ys. \<not> P (f z))"
  using assms
proof (induction xs)
  case (Cons a xs)
  show ?case
  proof (cases "P (f a)")
    case True
    with Cons.prems have "a # xs = [] @ a # xs" "y = f a" "P y" by simp_all
    then show ?thesis by (intro exI conjI) auto
  next
    case False
    with Cons obtain ys x zs where "xs = ys @ x # zs" "y = f x" "P y" "\<forall>z\<in>set ys. \<not> P (f z)"
      by auto
    with False have "a # xs = (a # ys) @ x # zs" "\<forall>z\<in>set (a # ys). \<not> P (f z)" by simp_all
    with \<open>y = f x\<close> \<open>P y\<close> show ?thesis by blast
  qed
qed simp

text \<open>The ranges of a header that name a localization.\<close>

definition matched_ranges :: "string \<Rightarrow> string list \<Rightarrow> (nat \<times> string) list" where
  "matched_ranges header localizations =
     filter (\<lambda>e. snd e \<noteq> ''*'' \<and> fst e > 0 \<and> lookup_tag (snd e) localizations \<noteq> [])
       (language_entries header)"

lemma selectLanguage_matched:
  assumes "matched_ranges header localizations \<noteq> []"
  shows "\<exists>e\<in>set (matched_ranges header localizations).
     selectLanguage header fallback localizations = lookup_tag (snd e) localizations \<and>
     (\<forall>e'\<in>set (matched_ranges header localizations). fst e' \<le> fst e)"
proof -
  let ?wanted = "wanted_ranges (language_entries header)"
  let ?f = "\<lambda>e. lookup_tag (snd e) localizations"
  have set_wanted: "set ?wanted = {e \<in> set (language_entries header). snd e \<noteq> ''*'' \<and> fst e > 0}"
    by (simp add: wanted_ranges_def)
  then have matched: "set (matched_ranges header localizations) = {e \<in> set ?wanted. ?f e \<noteq> []}"
    by (auto simp: matched_ranges_def)
  then have "\<exists>y\<in>set (map ?f ?wanted). y \<noteq> []"
    using assms by (cases "matched_ranges header localizations") auto
  then obtain y where find: "find (\<lambda>tag. tag \<noteq> []) (map ?f ?wanted) = Some y"
    by (cases "find (\<lambda>tag. tag \<noteq> []) (map ?f ?wanted)") (auto simp: find_None_iff)
  obtain ys x zs where split: "?wanted = ys @ x # zs" "y = ?f x" "y \<noteq> []"
      "\<forall>z\<in>set ys. ?f z = []"
    using find_first_match [OF find] by blast
  have "fst e \<le> fst x" if "e \<in> set (matched_ranges header localizations)" for e
  proof -
    from that matched split have "e = x \<or> e \<in> set zs" by auto
    then show ?thesis
      using wanted_sorted [of "language_entries header"] by (auto simp: split(1) sorted_append)
  qed
  moreover have "x \<in> set (matched_ranges header localizations)" using matched split by auto
  moreover have "selectLanguage header fallback localizations = ?f x"
    using find split(2) by (simp add: selectLanguage_def)
  ultimately show ?thesis by blast
qed

lemma selectLanguage_unmatched:
  assumes "matched_ranges header localizations = []"
  shows "selectLanguage header fallback localizations = [] \<or>
     residual (language_entries header) \<and>
     selectLanguage header fallback localizations \<in> set (fallback # localizations) \<and>
     list_all (\<lambda>value. \<not> covers value (to_lower (selectLanguage header fallback localizations)))
       (refused_ranges (language_entries header))"
proof -
  have "find (\<lambda>tag. tag \<noteq> []) (map (\<lambda>e. lookup_tag (snd e) localizations)
      (wanted_ranges (language_entries header))) = None"
    using assms by (auto simp: find_None_iff matched_ranges_def wanted_ranges_def filter_empty_conv)
  then show ?thesis
    by (auto simp: selectLanguage_def Let_def find_Some_iff list_ex_iff list_all_iff
        in_set_conv_nth split: option.splits)
qed

text \<open>The language of a response: when some range of the header names a localization, it is
  the one \<open>lookup\<close> finds for a range of the greatest weight among those; otherwise it is empty
  (the default applies) unless the header has a positive \<open>*\<close>, and then it is the default or a
  localization that no refused range covers.\<close>

theorem selectLanguage_correct:
  "list_ex (\<lambda>e. selectLanguage header fallback localizations = lookup_tag (snd e) localizations \<and>
       list_all (\<lambda>e'. fst e' \<le> fst e) (matched_ranges header localizations))
     (matched_ranges header localizations) \<or>
   matched_ranges header localizations = [] \<and>
     (selectLanguage header fallback localizations = [] \<or>
      residual (language_entries header) \<and>
      selectLanguage header fallback localizations \<in> set (fallback # localizations) \<and>
      list_all (\<lambda>range. \<not> covers range (to_lower (selectLanguage header fallback localizations)))
        (refused_ranges (language_entries header)))"
  using selectLanguage_matched [of header localizations fallback]
    selectLanguage_unmatched [of header localizations fallback]
  by (cases "matched_ranges header localizations = []") (auto simp: list_ex_iff list_all_iff)

end
