(* ===== verification/GoNet.thy ===== *)
theory GoNet
  imports GoStrings "HOL-Library.Word"
begin

section \<open>Addresses\<close>

text \<open>
  \<open>netip.ParseAddr\<close> and \<open>net.ParseIP\<close>: an address is its bytes, four or sixteen, each an
  \<open>8 word\<close>; \<open>ParseIP\<close> returns sixteen, with IPv4 in the mapped form.
\<close>

datatype addr = V4 "8 word list" | V6 "8 word list" string

definition hex_value :: "char \<Rightarrow> nat option" where
  "hex_value c =
     (if is_digit c then Some (byte c - 48)
      else if 97 \<le> byte c \<and> byte c \<le> 102 then Some (byte c - 87)
      else if 65 \<le> byte c \<and> byte c \<le> 70 then Some (byte c - 55)
      else None)"

definition v4_field :: "string \<Rightarrow> 8 word option" where
  "v4_field s =
     (if s \<noteq> [] \<and> length s \<le> 3 \<and> list_all is_digit s \<and> (length s = 1 \<or> hd s \<noteq> CHR ''0'') \<and>
         decimal_value s < 256
      then Some (of_nat (decimal_value s)) else None)"

fun all_some :: "'a option list \<Rightarrow> 'a list option" where
  "all_some [] = Some []"
| "all_some (x # xs) =
     (case x of None \<Rightarrow> None | Some y \<Rightarrow> map_option (\<lambda>ys. y # ys) (all_some xs))"

definition parse_v4 :: "string \<Rightarrow> 8 word list option" where
  "parse_v4 s =
     (let parts = split_on CHR ''.'' s in
      if length parts = 4 then all_some (map v4_field parts) else None)"

text \<open>The groups of an IPv6 address: \<open>bytes\<close> are those read so far, \<open>ellipsis\<close> where \<open>::\<close> stood,
  and the answer has what was read and where the ellipsis stands.\<close>

definition group_bytes :: "string \<Rightarrow> 8 word list" where
  "group_bytes digits =
     (let n = foldl (\<lambda>acc c. 16 * acc + the (hex_value c)) 0 digits in
      [of_nat (n div 256), of_nat (n mod 256)])"

function v6_groups ::
  "8 word list \<Rightarrow> nat option \<Rightarrow> string \<Rightarrow> (8 word list \<times> nat option) option" where
  "v6_groups bytes ellipsis s =
     (if length bytes \<ge> 16 then (if s = [] then Some (bytes, ellipsis) else None)
      else
        (let digits = takeWhile (\<lambda>c. hex_value c \<noteq> None) s;
             rest = drop (length digits) s in
         if digits = [] \<or> length digits > 4 then None
         else if rest \<noteq> [] \<and> hd rest = CHR ''.'' then
           (if (ellipsis = None \<and> length bytes \<noteq> 12) \<or> length bytes > 12 then None
            else map_option (\<lambda>v4. (bytes @ v4, ellipsis)) (parse_v4 s))
         else
           (let bytes' = bytes @ group_bytes digits in
            if rest = [] then Some (bytes', ellipsis)
            else if hd rest \<noteq> CHR '':'' \<or> length rest = 1 then None
            else if hd (tl rest) = CHR '':'' then
              (if ellipsis \<noteq> None then None
               else if tl (tl rest) = [] then Some (bytes', Some (length bytes'))
               else v6_groups bytes' (Some (length bytes')) (tl (tl rest)))
            else v6_groups bytes' ellipsis (tl rest))))"
  by pat_completeness auto
termination
  by (relation "measure (\<lambda>(bytes, _, _). 16 - length bytes)")
    (auto simp: group_bytes_def Let_def)

declare v6_groups.simps [simp del]

definition expand_v6 :: "8 word list \<times> nat option \<Rightarrow> 8 word list option" where
  "expand_v6 g =
     (case g of
        (bytes, None) \<Rightarrow> if length bytes = 16 then Some bytes else None
      | (bytes, Some e) \<Rightarrow>
          if length bytes \<ge> 16 then None
          else Some (take e bytes @ replicate (16 - length bytes) 0 @ drop e bytes))"

definition parse_v6 :: "string \<Rightarrow> 8 word list option" where
  "parse_v6 s =
     (if has_prefix s ''::'' then
        (if length s = 2 then Some (replicate 16 0)
         else Option.bind (v6_groups [] (Some 0) (drop 2 s)) expand_v6)
      else Option.bind (v6_groups [] None s) expand_v6)"

definition ParseAddr :: "string \<Rightarrow> addr option" where
  "ParseAddr s =
     (case find (\<lambda>c. c \<in> set ''.:%'') s of
        Some c \<Rightarrow>
          if c = CHR ''.'' then map_option V4 (parse_v4 s)
          else if c = CHR '':'' then
            (case cut CHR ''%'' s of (a, zone, zoned) \<Rightarrow>
               if zoned \<and> zone = [] then None else map_option (\<lambda>b. V6 b zone) (parse_v6 a))
          else None
      | None \<Rightarrow> None)"

definition v4_mapped :: "8 word list" where
  "v4_mapped = replicate 10 0 @ [255, 255]"

definition ParseIP :: "string \<Rightarrow> 8 word list option" where
  "ParseIP s =
     (case ParseAddr s of
        Some (V4 b) \<Rightarrow> Some (v4_mapped @ b)
      | Some (V6 b zone) \<Rightarrow> if zone = [] then Some b else None
      | None \<Rightarrow> None)"

definition To4 :: "8 word list \<Rightarrow> 8 word list option" where
  "To4 ip =
     (if length ip = 4 then Some ip
      else if length ip = 16 \<and> take 12 ip = v4_mapped then Some (drop 12 ip) else None)"

definition IsLoopback :: "8 word list option \<Rightarrow> bool" where
  "IsLoopback ip =
     (case ip of
        None \<Rightarrow> False
      | Some b \<Rightarrow>
          (case To4 b of
             Some v4 \<Rightarrow> hd v4 = 127
           | None \<Rightarrow> b = replicate 15 0 @ [1]))"

end
