(* ===== verification/GoUrl.thy ===== *)
theory GoUrl
  imports GoNet "HOL-Library.List_Lexorder" "HOL-Library.Char_ord"
begin

section \<open>URLs\<close>

text \<open>
  What the program uses of \<open>net/url\<close>: \<open>Parse\<close>, \<open>ResolveReference\<close>, \<open>EscapedPath\<close>, \<open>String\<close>,
  \<open>Hostname\<close>, \<open>Port\<close>, \<open>ParseQuery\<close> and \<open>Values.Encode\<close>.  User information is kept as the text
  \<open>Userinfo.String\<close> gives for it.
\<close>

datatype encoding = EncodePath | EncodeQueryComponent | EncodeHost | EncodeUserPassword | EncodeFragment

definition alphanumeric :: "char \<Rightarrow> bool" where
  "alphanumeric c \<longleftrightarrow> is_lower c \<or> is_upper c \<or> is_digit c"

definition shouldEscape :: "encoding \<Rightarrow> char \<Rightarrow> bool" where
  "shouldEscape mode c =
     (if alphanumeric c then False
      else if mode = EncodeHost \<and> c \<in> set [CHR ''!'', CHR ''$'', CHR ''&'', CHR 0x27, CHR ''('',
        CHR '')'', CHR ''*'', CHR ''+'', CHR '','', CHR '';'', CHR ''='', CHR '':'', CHR ''['', CHR '']'',
        CHR ''<'', CHR ''>'', CHR 0x22] then False
      else if c \<in> set ''-_.~'' then False
      else if c \<in> set ''$&+,/:;=?@'' then
        (case mode of
           EncodePath \<Rightarrow> c = CHR ''?''
         | EncodeQueryComponent \<Rightarrow> True
         | EncodeUserPassword \<Rightarrow> c \<in> set ''@/?:''
         | EncodeFragment \<Rightarrow> False
         | EncodeHost \<Rightarrow> True)
      else if mode = EncodeFragment \<and> c \<in> set ''!()*'' then False
      else True)"

definition hex_digit :: "nat \<Rightarrow> char" where
  "hex_digit n = ''0123456789ABCDEF'' ! n"

definition escape_byte :: "encoding \<Rightarrow> char \<Rightarrow> string" where
  "escape_byte mode c =
     (if mode = EncodeQueryComponent \<and> c = CHR '' '' then ''+''
      else if shouldEscape mode c then [CHR ''%'', hex_digit (byte c div 16), hex_digit (byte c mod 16)]
      else [c])"

definition escape :: "encoding \<Rightarrow> string \<Rightarrow> string" where
  "escape mode s = concat (map (escape_byte mode) s)"

text \<open>A \<open>%25\<close> in a host introduces a zone; every other escaped byte there must not be ASCII.\<close>

fun unescape :: "encoding \<Rightarrow> string \<Rightarrow> string option" where
  "unescape mode [] = Some []"
| "unescape mode (c # s) =
     (if c = CHR ''%'' then
        (case s of
           h # l # rest \<Rightarrow>
             (case (hex_value h, hex_value l) of
                (Some x, Some y) \<Rightarrow>
                  if mode = EncodeHost \<and> x < 8 \<and> (h, l) \<noteq> (CHR ''2'', CHR ''5'') then None
                  else map_option (\<lambda>t. char_of (16 * x + y) # t) (unescape mode rest)
              | _ \<Rightarrow> None)
         | _ \<Rightarrow> None)
      else if mode = EncodeQueryComponent \<and> c = CHR ''+'' then
        map_option (\<lambda>t. CHR '' '' # t) (unescape mode s)
      else if mode = EncodeHost \<and> byte c < 128 \<and> shouldEscape mode c then None
      else map_option (\<lambda>t. c # t) (unescape mode s))"

record url =
  scheme :: string
  opaque :: string
  user_info :: "string option"
  host :: string
  url_path :: string
  raw_path :: string
  force_query :: bool
  raw_query :: string
  fragment :: string
  raw_fragment :: string

definition has_user :: "url \<Rightarrow> bool" where "has_user u \<longleftrightarrow> user_info u \<noteq> None"

definition empty_url :: url where
  "empty_url = \<lparr>scheme = [], opaque = [], user_info = None, host = [], url_path = [], raw_path = [],
     force_query = False, raw_query = [], fragment = [], raw_fragment = []\<rparr>"

definition validOptionalPort :: "string \<Rightarrow> bool" where
  "validOptionalPort port \<longleftrightarrow> port = [] \<or> (hd port = CHR '':'' \<and> list_all is_digit (tl port))"

text \<open>\<open>getScheme\<close>: \<open>None\<close> for a missing scheme before a colon.\<close>

fun getScheme :: "string \<Rightarrow> string \<Rightarrow> (string \<times> string) option" where
  "getScheme seen [] = Some ([], seen)"
| "getScheme seen (c # s) =
     (if is_lower c \<or> is_upper c then getScheme (seen @ [c]) s
      else if is_digit c \<or> c \<in> set ''+-.'' then
        (if seen = [] then Some ([], c # s) else getScheme (seen @ [c]) s)
      else if c = CHR '':'' then (if seen = [] then None else Some (seen, s))
      else Some ([], seen @ c # s))"

text \<open>\<open>parseHost\<close> of Go 1.26: an IP literal in brackets is an IPv6 address, and elsewhere the one colon
  a host may have introduces its port.  The text of a zone is unescaped as the rest of the host.\<close>

definition parseHost :: "string \<Rightarrow> string option" where
  "parseHost h =
     (case last_index CHR ''['' h of
        Some (Suc _) \<Rightarrow> None
      | Some 0 \<Rightarrow>
          (case last_index CHR '']'' h of
             None \<Rightarrow> None
           | Some i \<Rightarrow>
               if \<not> validOptionalPort (drop (Suc i) h) then None
               else
                 (case unescape EncodeHost (take (i - 1) (tl h)) of
                    None \<Rightarrow> None
                  | Some name \<Rightarrow>
                      (case ParseAddr name of
                         Some (V6 _ _) \<Rightarrow> Some (''['' @ name @ '']'' @ drop (Suc i) h)
                       | _ \<Rightarrow> None)))
      | None \<Rightarrow>
          if validOptionalPort (dropWhile (\<lambda>c. c \<noteq> CHR '':'') h) then unescape EncodeHost h else None)"

definition validUserinfo :: "string \<Rightarrow> bool" where
  "validUserinfo s \<longleftrightarrow> list_all (\<lambda>c. alphanumeric c \<or> c \<in> set ''-._:~!$&()*+,;=%@'' \<or> c = CHR 0x27) s"

text \<open>\<open>Userinfo.String\<close> of the user information written \<open>s\<close>: the name and, after a colon, the password, both
  unescaped and escaped again.\<close>

definition rewritten_userinfo :: "string \<Rightarrow> string option" where
  "rewritten_userinfo s =
     (case cut CHR '':'' s of (name, password, found) \<Rightarrow>
        (case (unescape EncodeUserPassword name, unescape EncodeUserPassword password) of
           (Some n, Some p) \<Rightarrow>
             Some (escape EncodeUserPassword n @ (if found then '':'' @ escape EncodeUserPassword p else []))
         | _ \<Rightarrow> None))"

definition parseAuthority :: "string \<Rightarrow> (string option \<times> string) option" where
  "parseAuthority authority =
     (case last_index CHR ''@'' authority of
        None \<Rightarrow> map_option (Pair None) (parseHost authority)
      | Some i \<Rightarrow>
          (case parseHost (drop (Suc i) authority) of
             None \<Rightarrow> None
           | Some h \<Rightarrow>
               if validUserinfo (take i authority)
               then map_option (\<lambda>user. (Some user, h)) (rewritten_userinfo (take i authority)) else None))"

definition setPath :: "string \<Rightarrow> url \<Rightarrow> url option" where
  "setPath p u =
     map_option (\<lambda>path. u\<lparr>url_path := path, raw_path := (if escape EncodePath path = p then [] else p)\<rparr>)
       (unescape EncodePath p)"

definition contains_ctl :: "string \<Rightarrow> bool" where
  "contains_ctl s \<longleftrightarrow> list_ex (\<lambda>c. byte c < 32 \<or> byte c = 127) s"

text \<open>\<open>parse(rawURL, false)\<close>, in the order of its steps.\<close>

definition split_query :: "string \<Rightarrow> string \<times> string \<times> bool" where
  "split_query rest =
     (if has_suffix rest ''?'' \<and> CHR ''?'' \<notin> set (butlast rest) then (butlast rest, [], True)
      else (case cut CHR ''?'' rest of (before, after, _) \<Rightarrow> (before, after, False)))"

definition parse_rest :: "string \<Rightarrow> url \<Rightarrow> url option" where
  "parse_rest rest u =
     (if scheme u \<noteq> [] \<and> \<not> has_prefix rest ''/'' then Some (u\<lparr>opaque := rest\<rparr>)
      else if \<not> has_prefix rest ''/'' \<and> CHR '':'' \<in> set (fst (cut CHR ''/'' rest)) then None
      else if (scheme u \<noteq> [] \<or> \<not> has_prefix rest ''///'') \<and> has_prefix rest ''//'' then
        (let authority = takeWhile (\<lambda>c. c \<noteq> CHR ''/'') (drop 2 rest);
             path = dropWhile (\<lambda>c. c \<noteq> CHR ''/'') (drop 2 rest) in
         case parseAuthority authority of
           None \<Rightarrow> None
         | Some (user, h) \<Rightarrow> setPath path (u\<lparr>user_info := user, host := h\<rparr>))
      else setPath rest u)"

definition parse_url :: "string \<Rightarrow> url option" where
  "parse_url raw =
     (if contains_ctl raw then None
      else if raw = ''*'' then Some (empty_url\<lparr>url_path := ''*''\<rparr>)
      else
        (case getScheme [] raw of
           None \<Rightarrow> None
         | Some (sch, rest) \<Rightarrow>
             (case split_query rest of (rest', query, force) \<Rightarrow>
                parse_rest rest' (empty_url\<lparr>scheme := to_lower sch, raw_query := query,
                  force_query := force\<rparr>))))"

definition Parse :: "string \<Rightarrow> url option" where
  "Parse raw =
     (case cut CHR ''#'' raw of (u, frag, _) \<Rightarrow>
        (case parse_url u of
           None \<Rightarrow> None
         | Some parsed \<Rightarrow>
             if frag = [] then Some parsed
             else map_option (\<lambda>f. parsed\<lparr>fragment := f, raw_fragment := (if escape EncodeFragment f = frag then [] else frag)\<rparr>)
               (unescape EncodeFragment frag)))"

definition validEncoded :: "encoding \<Rightarrow> string \<Rightarrow> bool" where
  "validEncoded mode s \<longleftrightarrow> list_all (\<lambda>c. c \<in> set ''!$&()*+,;=:@[]%'' \<or> c = CHR 0x27 \<or>
     \<not> shouldEscape mode c) s"

definition EscapedPath :: "url \<Rightarrow> string" where
  "EscapedPath u =
     (if raw_path u \<noteq> [] \<and> validEncoded EncodePath (raw_path u) \<and>
         unescape EncodePath (raw_path u) = Some (url_path u) then raw_path u
      else if url_path u = ''*'' then ''*''
      else escape EncodePath (url_path u))"

definition EscapedFragment :: "url \<Rightarrow> string" where
  "EscapedFragment u =
     (if raw_fragment u \<noteq> [] \<and> validEncoded EncodeFragment (raw_fragment u) \<and>
         unescape EncodeFragment (raw_fragment u) = Some (fragment u) then raw_fragment u
      else escape EncodeFragment (fragment u))"

text \<open>\<open>String\<close> of a URL.  (One that names a scheme and a path but no host may be
  written with an empty authority here and without one there; neither has an origin.)\<close>

definition url_prefix :: "url \<Rightarrow> string" where
  "url_prefix u =
     (if scheme u = [] then [] else scheme u @ '':'') @
     (if opaque u \<noteq> [] then opaque u
      else
        (let authority =
               (if host u \<noteq> [] \<or> has_user u \<or> scheme u \<noteq> [] \<and> url_path u \<noteq> [] then
                  ''//'' @ (case user_info u of Some user \<Rightarrow> user @ ''@'' | None \<Rightarrow> []) @ escape EncodeHost (host u)
                else []);
             p = EscapedPath u in
         authority @
         (if p \<noteq> [] \<and> hd p \<noteq> CHR ''/'' \<and> host u \<noteq> [] then ''/'' else []) @
         (if scheme u = [] \<and> authority = [] \<and> CHR '':'' \<in> set (fst (cut CHR ''/'' p)) then ''./'' else []) @ p))"

definition url_string :: "url \<Rightarrow> string" where
  "url_string u =
     url_prefix u @ (if force_query u \<or> raw_query u \<noteq> [] then ''?'' @ raw_query u else []) @
     (if fragment u \<noteq> [] then ''#'' @ EscapedFragment u else [])"

definition splitHostPort :: "string \<Rightarrow> string \<times> string" where
  "splitHostPort hostPort =
     (let (h, port) =
        (case last_index CHR '':'' hostPort of
           Some colon \<Rightarrow>
             if validOptionalPort (drop colon hostPort) then (take colon hostPort, drop (Suc colon) hostPort)
             else (hostPort, [])
         | None \<Rightarrow> (hostPort, [])) in
      (if has_prefix h ''['' \<and> has_suffix h '']'' then butlast (tl h) else h, port))"

definition Hostname :: "url \<Rightarrow> string" where "Hostname u = fst (splitHostPort (host u))"

definition Port :: "url \<Rightarrow> string" where "Port u = snd (splitHostPort (host u))"

subsection \<open>References\<close>

text \<open>The loop of \<open>resolvePath\<close> over the elements of the path; \<open>dst\<close> is what it has written after
  the leading slash.\<close>

fun resolve_elements :: "string \<Rightarrow> bool \<Rightarrow> string list \<Rightarrow> string" where
  "resolve_elements dst first [] = dst"
| "resolve_elements dst first (elem # elems) =
     (if elem = ''.'' then resolve_elements dst False elems
      else if elem = ''..'' then
        (case last_index CHR ''/'' dst of
           None \<Rightarrow> resolve_elements [] True elems
         | Some i \<Rightarrow> resolve_elements (take i dst) first elems)
      else resolve_elements ((if first then dst else dst @ ''/'') @ elem) False elems)"

definition resolvePath :: "string \<Rightarrow> string \<Rightarrow> string" where
  "resolvePath base ref =
     (let full =
        (if ref = [] then base
         else if hd ref \<noteq> CHR ''/'' then
           (case last_index CHR ''/'' base of None \<Rightarrow> ref | Some i \<Rightarrow> take (Suc i) base @ ref)
         else ref) in
      if full = [] then []
      else
        (let elems = split_on CHR ''/'' full;
             r = CHR ''/'' # resolve_elements [] True elems @
               (if last elems = ''.'' \<or> last elems = ''..'' then ''/'' else []) in
         if length r > 1 \<and> r ! 1 = CHR ''/'' then tl r else r))"

text \<open>\<open>ResolveReference\<close> ignores the error of \<open>setPath\<close>, which leaves the path as it is.\<close>

definition set_path :: "string \<Rightarrow> url \<Rightarrow> url" where
  "set_path p u = (case setPath p u of Some u' \<Rightarrow> u' | None \<Rightarrow> u)"

definition ResolveReference :: "url \<Rightarrow> url \<Rightarrow> url" where
  "ResolveReference u ref =
     (let r = (if scheme ref = [] then ref\<lparr>scheme := scheme u\<rparr> else ref) in
      if scheme ref \<noteq> [] \<or> host ref \<noteq> [] \<or> has_user ref then
        set_path (resolvePath (EscapedPath ref) []) r
      else if opaque ref \<noteq> [] then r\<lparr>user_info := None, host := [], url_path := []\<rparr>
      else
        (let r = (if url_path ref = [] \<and> \<not> force_query ref \<and> raw_query ref = []
                  then (if fragment ref = [] then r\<lparr>raw_query := raw_query u, fragment := fragment u, raw_fragment := raw_fragment u\<rparr>
                        else r\<lparr>raw_query := raw_query u\<rparr>)
                  else r) in
         if url_path ref = [] \<and> opaque u \<noteq> []
         then r\<lparr>opaque := opaque u, user_info := None, host := [], url_path := []\<rparr>
         else set_path (resolvePath (EscapedPath u) (EscapedPath ref))
                (r\<lparr>host := host u, user_info := user_info u\<rparr>)))"

subsection \<open>Queries\<close>

type_synonym query_values = "(string \<times> string list) list"

definition query_add :: "string \<Rightarrow> string \<Rightarrow> query_values \<Rightarrow> query_values" where
  "query_add k v q = AList.update k ((case map_of q k of Some vs \<Rightarrow> vs | None \<Rightarrow> []) @ [v]) q"

definition query_pair :: "string \<Rightarrow> query_values \<Rightarrow> query_values" where
  "query_pair pair q =
     (if CHR '';'' \<in> set pair \<or> pair = [] then q
      else
        (case cut CHR ''='' pair of (k, v, _) \<Rightarrow>
           (case (unescape EncodeQueryComponent k, unescape EncodeQueryComponent v) of
              (Some k', Some v') \<Rightarrow> query_add k' v' q
            | _ \<Rightarrow> q)))"

definition ParseQuery :: "string \<Rightarrow> query_values" where
  "ParseQuery query = fold query_pair (split_on CHR ''&'' query) []"

definition query_get :: "query_values \<Rightarrow> string \<Rightarrow> string list" where
  "query_get q k = (case map_of q k of Some vs \<Rightarrow> vs | None \<Rightarrow> [])"

definition QueryEscape :: "string \<Rightarrow> string" where
  "QueryEscape s = escape EncodeQueryComponent s"

definition Encode :: "query_values \<Rightarrow> string" where
  "Encode q = join_with ''&'' (concat (map (\<lambda>(k, vs). map (\<lambda>v. QueryEscape k @ ''='' @ QueryEscape v) vs)
     (sort_key fst q)))"

subsection \<open>Round trips\<close>

lemma hex_value_digit: "n < 16 \<Longrightarrow> hex_value (hex_digit n) = Some n"
proof -
  have "list_all (\<lambda>n. hex_value (hex_digit n) = Some n) [0..<16]" by code_simp
  then show "n < 16 \<Longrightarrow> hex_value (hex_digit n) = Some n" by (auto simp: list_all_iff)
qed

lemma byte_halves: "byte c div 16 < 16" "byte c mod 16 < 16"
proof -
  have "byte c < 256" by simp
  then show "byte c div 16 < 16" by (rule less_mult_imp_div_less [of _ 16 16, simplified])
  show "byte c mod 16 < 16" by simp
qed

lemma byte_split: "char_of (16 * (byte c div 16) + byte c mod 16) = c"
  by simp

lemma should_escape_percent: "mode \<noteq> EncodeHost \<Longrightarrow> shouldEscape mode CHR ''%''"
  by (simp add: shouldEscape_def alphanumeric_def is_lower_def is_upper_def is_digit_def)

lemma should_escape_query:
  "c \<in> set ''&;=+'' \<Longrightarrow> shouldEscape EncodeQueryComponent c"
  by (auto simp: shouldEscape_def alphanumeric_def is_lower_def is_upper_def is_digit_def)

lemma unescape_escape_byte:
  assumes "mode \<noteq> EncodeHost"
  shows "unescape mode (escape_byte mode c @ s) = map_option (\<lambda>t. c # t) (unescape mode s)"
proof -
  consider "mode = EncodeQueryComponent" "c = CHR '' ''"
    | "\<not> (mode = EncodeQueryComponent \<and> c = CHR '' '')" "shouldEscape mode c"
    | "\<not> (mode = EncodeQueryComponent \<and> c = CHR '' '')" "\<not> shouldEscape mode c"
    by blast
  then show ?thesis
  proof cases
    case 1
    then show ?thesis by (simp add: escape_byte_def)
  next
    case 2
    then show ?thesis
      using assms byte_halves [of c] byte_split [of c]
      by (simp add: escape_byte_def hex_value_digit)
  next
    case 3
    have "c \<noteq> CHR ''%''" using 3 should_escape_percent [OF assms] by auto
    moreover have "\<not> (mode = EncodeQueryComponent \<and> c = CHR ''+'')"
      using 3 should_escape_query by auto
    ultimately show ?thesis using 3 assms by (auto simp: escape_byte_def)
  qed
qed

lemma unescape_escape: "mode \<noteq> EncodeHost \<Longrightarrow> unescape mode (escape mode s) = Some s"
  by (induction s) (simp_all add: escape_def unescape_escape_byte)

lemma escape_safe:
  assumes "c \<in> set ''&;=''"
  shows "c \<notin> set (QueryEscape s)"
proof
  assume "c \<in> set (QueryEscape s)"
  then obtain x where x: "c \<in> set (escape_byte EncodeQueryComponent x)"
    by (auto simp: QueryEscape_def escape_def)
  have hex: "hex_digit n \<notin> set ''&;=''" if "n < 16" for n
  proof -
    have "list_all (\<lambda>n. hex_digit n \<notin> set ''&;='') [0..<16]" by code_simp
    with that show ?thesis by (auto simp: list_all_iff)
  qed
  from x assms have "c = hex_digit (byte x div 16) \<or> c = hex_digit (byte x mod 16) \<or>
      (c = x \<and> \<not> shouldEscape EncodeQueryComponent x)"
    by (auto simp: escape_byte_def split: if_splits)
  then show False
    using hex [OF byte_halves(1) [of x]] hex [OF byte_halves(2) [of x]] assms should_escape_query [of x] by auto
qed

definition query_text :: "(string \<times> string) list \<Rightarrow> string" where
  "query_text kvs = join_with ''&'' (map (\<lambda>(k, v). QueryEscape k @ ''='' @ QueryEscape v) kvs)"

lemma query_pair_text:
  assumes "map_of q k = None"
  shows "query_pair (QueryEscape k @ ''='' @ QueryEscape v) q = q @ [(k, [v])]"
proof -
  have "cut CHR ''='' (QueryEscape k @ ''='' @ QueryEscape v) = (QueryEscape k, QueryEscape v, True)"
    using cut_append [of "CHR ''=''" "QueryEscape k" "QueryEscape v"] escape_safe [of "CHR ''=''"] by simp
  moreover have "CHR '';'' \<notin> set (QueryEscape k @ ''='' @ QueryEscape v)"
    using escape_safe [of "CHR '';''"] by simp
  moreover have "AList.update k [v] q = q @ [(k, [v])]"
    using assms by (induction q) auto
  ultimately show ?thesis
    using assms by (simp add: query_pair_def query_add_def QueryEscape_def unescape_escape)
qed

lemma ParseQuery_text:
  assumes "distinct (map fst kvs)"
  shows "ParseQuery (query_text kvs) = map (\<lambda>(k, v). (k, [v])) kvs"
proof -
  have fold: "fold query_pair (map (\<lambda>(k, v). QueryEscape k @ ''='' @ QueryEscape v) xs) q
      = q @ map (\<lambda>(k, v). (k, [v])) xs"
    if "distinct (map fst q @ map fst xs)" for xs :: "(string \<times> string) list" and q
    using that
  proof (induction xs arbitrary: q)
    case (Cons x xs)
    obtain k v where x: "x = (k, v)" by (cases x)
    with Cons.prems have "map_of q k = None" by (auto simp: map_of_eq_None_iff)
    with Cons.IH [of "q @ [(k, [v])]"] Cons.prems show ?case
      using query_pair_text [of q k v] by (simp add: x)
  qed simp
  show ?thesis
  proof (cases "kvs = []")
    case True
    then show ?thesis by (simp add: ParseQuery_def query_text_def query_pair_def)
  next
    case False
    have "split_on CHR ''&'' (query_text kvs) = map (\<lambda>(k, v). QueryEscape k @ ''='' @ QueryEscape v) kvs"
      unfolding query_text_def
      by (rule split_join) (use False escape_safe [of "CHR ''&''"] in auto)
    then show ?thesis using fold [of "[]" kvs] assms by (simp add: ParseQuery_def)
  qed
qed

end
