(* ===== verification/GoEncoding.thy ===== *)
theory GoEncoding
  imports Json GoStrings
begin

section \<open>Text encodings\<close>

text \<open>\<open>json.Marshal\<close> of a decoded value as text, with HTML escaping, and \<open>base64.RawURLEncoding\<close>.\<close>

definition hex_lower :: "nat \<Rightarrow> char" where
  "hex_lower n = ''0123456789abcdef'' ! n"

definition escape_rune :: "nat \<times> string \<Rightarrow> string" where
  "escape_rune e =
     (case e of (r, bs) \<Rightarrow>
        if r = 34 then [CHR 0x5C, CHR 0x22]
        else if r = 92 then [CHR 0x5C, CHR 0x5C]
        else if r = 8 then [CHR 0x5C, CHR ''b'']
        else if r = 12 then [CHR 0x5C, CHR ''f'']
        else if r = 10 then [CHR 0x5C, CHR ''n'']
        else if r = 13 then [CHR 0x5C, CHR ''r'']
        else if r = 9 then [CHR 0x5C, CHR ''t'']
        else if r < 32 \<or> r = 60 \<or> r = 62 \<or> r = 38 then
          CHR 0x5C # ''u00'' @ [hex_lower (r div 16), hex_lower (r mod 16)]
        else if r = rune_error \<and> length bs = 1 then CHR 0x5C # ''ufffd''
        else if r = 8232 then CHR 0x5C # ''u2028''
        else if r = 8233 then CHR 0x5C # ''u2029''
        else bs)"

definition encode_string :: "string \<Rightarrow> string" where
  "encode_string s = [CHR 0x22] @ concat (map escape_rune (rune_spans s)) @ [CHR 0x22]"

fun encode_json :: "json \<Rightarrow> string" where
  "encode_json JNull = ''null''"
| "encode_json (JBool b) = (if b then ''true'' else ''false'')"
| "encode_json (JNum literal) = literal"
| "encode_json (JStr s) = encode_string s"
| "encode_json (JArr xs) = ''['' @ join_with '','' (map encode_json xs) @ '']''"
| "encode_json (JObj ms) =
     ''{'' @ join_with '','' (map (\<lambda>m. encode_string (fst m) @ '':'' @ encode_json (snd m)) ms) @ ''}''"

subsection \<open>Base 64\<close>

definition base64_alphabet :: string where
  "base64_alphabet = ''ABCDEFGHIJKLMNOPQRSTUVWXYZabcdefghijklmnopqrstuvwxyz0123456789-_''"

definition base64_char :: "nat \<Rightarrow> char" where
  "base64_char n = base64_alphabet ! n"

fun index_of :: "'a \<Rightarrow> 'a list \<Rightarrow> nat option" where
  "index_of x [] = None"
| "index_of x (y # ys) = (if x = y then Some 0 else map_option Suc (index_of x ys))"

lemma index_of_nth: "distinct xs \<Longrightarrow> n < length xs \<Longrightarrow> index_of (xs ! n) xs = Some n"
proof (induction xs arbitrary: n)
  case (Cons x xs)
  then show ?case by (cases n) auto
qed simp

text \<open>The decoding table: where a character stands in the alphabet.\<close>

definition base64_value :: "char \<Rightarrow> nat option" where
  "base64_value c = index_of c base64_alphabet"

fun base64_encode :: "string \<Rightarrow> string" where
  "base64_encode [] = []"
| "base64_encode [a] = [base64_char (byte a div 4), base64_char (byte a mod 4 * 16)]"
| "base64_encode [a, b] =
     [base64_char (byte a div 4), base64_char (byte a mod 4 * 16 + byte b div 16),
      base64_char (byte b mod 16 * 4)]"
| "base64_encode (a # b # c # s) =
     base64_char (byte a div 4) # base64_char (byte a mod 4 * 16 + byte b div 16) #
     base64_char (byte b mod 16 * 4 + byte c div 64) # base64_char (byte c mod 64) #
     base64_encode s"

text \<open>The decoder skips line breaks, takes the bits of whole bytes and ignores the rest of a last,
  partial group; a group of one character is an error.\<close>

fun base64_groups :: "nat list \<Rightarrow> string option" where
  "base64_groups [] = Some []"
| "base64_groups [w] = None"
| "base64_groups [w, x] = Some [char_of (w * 4 + x div 16)]"
| "base64_groups [w, x, y] = Some [char_of (w * 4 + x div 16), char_of (x mod 16 * 16 + y div 4)]"
| "base64_groups (w # x # y # z # s) =
     map_option (\<lambda>t. char_of (w * 4 + x div 16) # char_of (x mod 16 * 16 + y div 4) #
       char_of (y mod 4 * 64 + z) # t) (base64_groups s)"

fun base64_values :: "string \<Rightarrow> nat list option" where
  "base64_values [] = Some []"
| "base64_values (c # s) =
     (if c = CHR 0x0A \<or> c = CHR 0x0D then base64_values s
      else
        (case base64_value c of
           None \<Rightarrow> None
         | Some v \<Rightarrow> map_option (\<lambda>vs. v # vs) (base64_values s)))"

definition base64_decode :: "string \<Rightarrow> string option" where
  "base64_decode s = Option.bind (base64_values s) base64_groups"

lemma base64_alphabet: "length base64_alphabet = 64" "distinct base64_alphabet"
    "set base64_alphabet \<inter> {CHR 0x0A, CHR 0x0D, CHR ''.''} = {}"
  by (simp_all add: base64_alphabet_def)

lemma base64_char_value:
  assumes "n < 64"
  shows "base64_value (base64_char n) = Some n" "base64_char n \<notin> {CHR 0x0A, CHR 0x0D, CHR ''.''}"
proof -
  show "base64_value (base64_char n) = Some n"
    using assms index_of_nth [OF base64_alphabet(2)]
    by (simp add: base64_value_def base64_char_def base64_alphabet(1))
  have "base64_char n \<in> set base64_alphabet"
    using assms by (simp add: base64_char_def base64_alphabet(1))
  with base64_alphabet(3) show "base64_char n \<notin> {CHR 0x0A, CHR 0x0D, CHR ''.''}" by blast
qed

lemma base64_values_char:
  "n < 64 \<Longrightarrow> base64_values (base64_char n # s) = map_option (\<lambda>vs. n # vs) (base64_values s)"
  using base64_char_value [of n] by simp

lemma byte_bounds:
  "byte c div 4 < 64" "byte c mod 4 * 16 < 64" "byte c mod 16 * 4 < 64" "byte c mod 64 < 64"
  "byte c mod 4 * 16 + byte d div 16 < 64" "byte c mod 16 * 4 + byte d div 64 < 64"
proof -
  have "byte c < 256" "byte d < 256" by simp_all
  then show "byte c div 4 < 64" "byte c mod 4 * 16 < 64" "byte c mod 16 * 4 < 64" "byte c mod 64 < 64"
    "byte c mod 4 * 16 + byte d div 16 < 64" "byte c mod 16 * 4 + byte d div 64 < 64" by linarith+
qed

lemma byte_regroup:
  "char_of (byte a div 4 * 4 + (byte a mod 4 * 16 + x) div 16) = a" if "x < 16"
proof -
  have "byte a div 4 * 4 + (byte a mod 4 * 16 + x) div 16 = byte a" using that by simp
  then show ?thesis by simp
qed

lemma byte_regroup2:
  "char_of ((byte a mod 4 * 16 + byte b div 16) mod 16 * 16 + (byte b mod 16 * 4 + y) div 4) = b"
  if "y < 4"
proof -
  have "byte b div 16 < 16" by (simp add: less_mult_imp_div_less)
  then have "(byte a mod 4 * 16 + byte b div 16) mod 16 * 16 + (byte b mod 16 * 4 + y) div 4 = byte b"
    using that by (simp add: mod_mult_self3)
  then show ?thesis by simp
qed

lemma base64_round_trip: "base64_decode (base64_encode s) = Some s"
proof -
  have "\<exists>vs. base64_values (base64_encode s) = Some vs \<and> base64_groups vs = Some s"
  proof (induction s rule: base64_encode.induct)
    case (4 a b c s)
    then obtain vs where vs: "base64_values (base64_encode s) = Some vs" "base64_groups vs = Some s"
      by blast
    have "byte c div 64 < 4" "byte b div 16 < 16" by (simp_all add: less_mult_imp_div_less)
    moreover have "char_of ((byte b mod 16 * 4 + byte c div 64) mod 4 * 64 + byte c mod 64) = c"
    proof -
      have "(byte b mod 16 * 4 + byte c div 64) mod 4 * 64 + byte c mod 64 = byte c"
        using \<open>byte c div 64 < 4\<close> by (simp add: mod_mult_self3)
      then show ?thesis by simp
    qed
    ultimately show ?case
      using vs byte_regroup [of "byte b div 16" a] byte_regroup2 [of "byte c div 64" a b]
      by (simp add: base64_values_char byte_bounds del: base64_values.simps(2))
  qed (use byte_regroup byte_regroup2 in \<open>simp_all add: base64_values_char byte_bounds less_mult_imp_div_less
      del: base64_values.simps(2)\<close>)
  then show ?thesis by (auto simp: base64_decode_def)
qed

lemma base64_char_dot: "n < 64 \<Longrightarrow> CHR ''.'' \<noteq> base64_char n"
  using base64_char_value(2) [of n] by auto

lemma base64_no_dot: "CHR ''.'' \<notin> set (base64_encode s)"
  by (induction s rule: base64_encode.induct) (simp_all add: base64_char_dot byte_bounds)

end
