(* ===== verification/GoJsonText.thy ===== *)
theory GoJsonText
  imports GoEncoding GoNet
begin

section \<open>Reading JSON text\<close>

text \<open>
  The decoder of \<open>encoding/json\<close>.  Numbers keep their literal, invalid UTF-8 in a string becomes
  U+FFFD, and a member that is repeated counts once, with its last value.
\<close>

definition json_space :: "char \<Rightarrow> bool" where
  "json_space c \<longleftrightarrow> c \<in> set [CHR '' '', CHR 0x09, CHR 0x0A, CHR 0x0D]"

definition skip_space :: "string \<Rightarrow> string" where
  "skip_space s = dropWhile json_space s"

subsection \<open>Numbers\<close>

text \<open>The digits at the head, at least one.\<close>

definition scan_digits :: "string \<Rightarrow> (string \<times> string) option" where
  "scan_digits s =
     (let ds = takeWhile is_digit s in if ds = [] then None else Some (ds, drop (length ds) s))"

definition scan_integer :: "string \<Rightarrow> (string \<times> string) option" where
  "scan_integer s =
     (if s \<noteq> [] \<and> hd s = CHR ''0'' then Some (''0'', tl s) else scan_digits s)"

definition scan_fraction :: "string \<Rightarrow> (string \<times> string) option" where
  "scan_fraction s =
     (if s \<noteq> [] \<and> hd s = CHR ''.'' then
        map_option (\<lambda>(ds, rest). (CHR ''.'' # ds, rest)) (scan_digits (tl s))
      else Some ([], s))"

definition scan_exponent :: "string \<Rightarrow> (string \<times> string) option" where
  "scan_exponent s =
     (if s \<noteq> [] \<and> (hd s = CHR ''e'' \<or> hd s = CHR ''E'') then
        (let sign = takeWhile (\<lambda>c. c = CHR ''+'' \<or> c = CHR ''-'') (take 1 (tl s)) in
         map_option (\<lambda>(ds, rest). (hd s # sign @ ds, rest)) (scan_digits (drop (length sign) (tl s))))
      else Some ([], s))"

definition scan_number :: "string \<Rightarrow> (string \<times> string) option" where
  "scan_number s =
     (let (sign, s1) = (if s \<noteq> [] \<and> hd s = CHR ''-'' then (''-'', tl s) else ([], s)) in
      Option.bind (scan_integer s1) (\<lambda>(whole, s2).
      Option.bind (scan_fraction s2) (\<lambda>(fraction, s3).
      Option.bind (scan_exponent s3) (\<lambda>(exponent, s4).
        Some (sign @ whole @ fraction @ exponent, s4)))))"

subsection \<open>Strings\<close>

text \<open>The four hex digits of \<open>\\u\<close>.\<close>

definition hex4 :: "string \<Rightarrow> nat option" where
  "hex4 s =
     (if length s < 4 then None
      else map_option (foldl (\<lambda>n d. 16 * n + d) 0) (all_some (map hex_value (take 4 s))))"

text \<open>A surrogate pair is one rune, a lone surrogate is U+FFFD.  The answer has the rune and how
  much after the first \<open>\\uXXXX\<close> it took.\<close>

definition unicode_escape :: "string \<Rightarrow> (nat \<times> nat) option" where
  "unicode_escape s =
     (case hex4 s of
        None \<Rightarrow> None
      | Some r \<Rightarrow>
          if 55296 \<le> r \<and> r < 57344 then
            (case (if has_prefix (drop 4 s) [CHR 0x5C, CHR ''u''] then hex4 (drop 6 s) else None) of
               Some low \<Rightarrow>
                 if r < 56320 \<and> 56320 \<le> low \<and> low < 57344
                 then Some (65536 + (r - 55296) * 1024 + (low - 56320), 10)
                 else Some (rune_error, 4)
             | None \<Rightarrow> Some (rune_error, 4))
          else Some (r, 4))"

definition simple_escape :: "char \<Rightarrow> char option" where
  "simple_escape c =
     (if c \<in> set [CHR 0x22, CHR 0x5C, CHR ''/''] then Some c
      else if c = CHR ''b'' then Some CHR 0x08
      else if c = CHR ''f'' then Some CHR 0x0C
      else if c = CHR ''n'' then Some CHR 0x0A
      else if c = CHR ''r'' then Some CHR 0x0D
      else if c = CHR ''t'' then Some CHR 0x09
      else None)"

function parse_chars :: "string \<Rightarrow> (string \<times> string) option" where
  "parse_chars [] = None"
| "parse_chars (c # s) =
     (if c = CHR 0x22 then Some ([], s)
      else if c = CHR 0x5C then
        (case s of
           [] \<Rightarrow> None
         | e # s' \<Rightarrow>
             if e = CHR ''u'' then
               (case unicode_escape s' of
                  None \<Rightarrow> None
                | Some (r, n) \<Rightarrow>
                    map_option (\<lambda>(t, rest). (encode_rune r @ t, rest)) (parse_chars (drop n s')))
             else
               (case simple_escape e of
                  None \<Rightarrow> None
                | Some x \<Rightarrow> map_option (\<lambda>(t, rest). (x # t, rest)) (parse_chars s')))
      else if byte c < 32 then None
      else if byte c < 128 then map_option (\<lambda>(t, rest). (c # t, rest)) (parse_chars s)
      else
        (let (r, w) = decode_rune (c # s) in
         map_option (\<lambda>(t, rest). (encode_rune r @ t, rest)) (parse_chars (drop (w - 1) s))))"
  by pat_completeness auto
termination by (relation "measure length") auto

lemma parse_chars_shorter: "parse_chars s = Some (t, rest) \<Longrightarrow> length rest < length s"
proof (induction s arbitrary: t rest rule: parse_chars.induct)
  case (2 c s)
  then show ?case
    by (fastforce split: if_splits list.splits option.splits prod.splits)
qed simp

subsection \<open>Values\<close>

text \<open>The fuel \<open>decode_text\<close> gives is enough for every text (\<open>parse_fuel\<close>).\<close>

fun parse_value :: "nat \<Rightarrow> string \<Rightarrow> (json \<times> string) option"
  and parse_items :: "nat \<Rightarrow> string \<Rightarrow> (json list \<times> string) option"
  and parse_members :: "nat \<Rightarrow> string \<Rightarrow> (obj \<times> string) option"
  where
  "parse_value 0 s = None"
| "parse_value (Suc n) s =
     (let s = skip_space s in
      if has_prefix s ''null'' then Some (JNull, drop 4 s)
      else if has_prefix s ''true'' then Some (JBool True, drop 4 s)
      else if has_prefix s ''false'' then Some (JBool False, drop 5 s)
      else if has_prefix s [CHR 0x22] then
        map_option (\<lambda>(t, rest). (JStr t, rest)) (parse_chars (tl s))
      else if has_prefix s ''['' then
        (if has_prefix (skip_space (tl s)) '']'' then Some (JArr [], tl (skip_space (tl s)))
         else map_option (\<lambda>(xs, rest). (JArr xs, rest)) (parse_items n (tl s)))
      else if has_prefix s ''{'' then
        (if has_prefix (skip_space (tl s)) ''}'' then Some (JObj [], tl (skip_space (tl s)))
         else map_option (\<lambda>(ms, rest). (JObj (fold (\<lambda>(k, v). AList.update k v) ms []), rest))
           (parse_members n (tl s)))
      else map_option (\<lambda>(literal, rest). (JNum literal, rest)) (scan_number s))"
| "parse_items 0 s = None"
| "parse_items (Suc n) s =
     (case parse_value n s of
        None \<Rightarrow> None
      | Some (x, s1) \<Rightarrow>
          (let s1 = skip_space s1 in
           if has_prefix s1 '']'' then Some ([x], tl s1)
           else if has_prefix s1 '','' then
             map_option (\<lambda>(xs, rest). (x # xs, rest)) (parse_items n (tl s1))
           else None))"
| "parse_members 0 s = None"
| "parse_members (Suc n) s =
     (if \<not> has_prefix (skip_space s) [CHR 0x22] then None
      else
        (case parse_chars (tl (skip_space s)) of
           None \<Rightarrow> None
         | Some (k, s1) \<Rightarrow>
             if \<not> has_prefix (skip_space s1) '':'' then None
             else
               (case parse_value n (tl (skip_space s1)) of
                  None \<Rightarrow> None
                | Some (v, s2) \<Rightarrow>
                    (let s2 = skip_space s2 in
                     if has_prefix s2 ''}'' then Some ([(k, v)], tl s2)
                     else if has_prefix s2 '','' then
                       map_option (\<lambda>(ms, rest). ((k, v) # ms, rest)) (parse_members n (tl s2))
                     else None))))"

text \<open>A value takes a byte for every two steps of the parser: from \<open>2 * length s + 2\<close> on, more fuel
  changes nothing.\<close>

lemma skip_space_shorter: "length (skip_space s) \<le> length s"
  by (simp add: skip_space_def length_dropWhile_le)

lemma tl_skip_shorter: "has_prefix (skip_space s) (c # p) \<Longrightarrow> length (tl (skip_space s)) < length s"
  using skip_space_shorter [of s] by (cases "skip_space s") (auto simp: has_prefix_def)

lemma scan_digits_shorter: "scan_digits s = Some (ds, rest) \<Longrightarrow> length rest \<le> length s"
  by (auto simp: scan_digits_def Let_def split: if_splits)

lemma scan_number_shorter:
  assumes "scan_number s = Some (literal, rest)"
  shows "length rest \<le> length s"
proof -
  have int: "scan_integer t = Some (w, r) \<Longrightarrow> length r \<le> length t" for t w r
    by (auto simp: scan_integer_def split: if_splits dest: scan_digits_shorter)
  have frac: "scan_fraction t = Some (w, r) \<Longrightarrow> length r \<le> length t" for t w r
    by (cases t) (auto simp: scan_fraction_def split: if_splits dest!: scan_digits_shorter)
  have exp: "scan_exponent t = Some (w, r) \<Longrightarrow> length r \<le> length t" for t w r
    by (cases t) (auto simp: scan_exponent_def Let_def split: if_splits dest!: scan_digits_shorter)
  show ?thesis
    using assms int frac exp
    by (fastforce simp: scan_number_def Let_def bind_eq_Some_conv split: if_splits)
qed


lemma parsed_shorter:
  "(parse_value n s = Some (v, rest) \<longrightarrow> length rest \<le> length s) \<and>
   (parse_items n s = Some (vs, rest) \<longrightarrow> length rest \<le> length s) \<and>
   (parse_members n s = Some (ms, rest) \<longrightarrow> length rest \<le> length s)"
proof (induction n arbitrary: s v vs ms rest)
  case (Suc n)
  let ?s = "skip_space s"
  have one: "length rest \<le> length t" if "parse_value n t = Some (v, rest)" for t v rest
    using Suc that by blast
  have items: "length rest \<le> length t" if "parse_items n t = Some (vs, rest)" for t vs rest
    using Suc that by blast
  have members: "length rest \<le> length t" if "parse_members n t = Some (ms, rest)" for t ms rest
    using Suc that by blast
  have tl: "length (tl (skip_space t)) \<le> length t" for t
    using skip_space_shorter [of t] by simp
  have "length rest \<le> length s" if "parse_value (Suc n) s = Some (v, rest)"
    using that skip_space_shorter [of s] tl [of s] tl [of "tl ?s"]
    by (auto simp: Let_def split: if_splits dest!: items members parse_chars_shorter scan_number_shorter)
  moreover have "length rest \<le> length s" if some: "parse_items (Suc n) s = Some (vs, rest)"
  proof -
    obtain x s1 where x: "parse_value n s = Some (x, s1)" using some by (auto split: option.splits)
    show ?thesis
      using some one [OF x] tl [of s1] by (auto simp: x Let_def split: if_splits dest!: items)
  qed
  moreover have "length rest \<le> length s" if some: "parse_members (Suc n) s = Some (ms, rest)"
  proof -
    obtain k s1 where k: "parse_chars (tl ?s) = Some (k, s1)"
      using some by (auto split: if_splits option.splits)
    obtain x s2 where x: "parse_value n (tl (skip_space s1)) = Some (x, s2)"
      using some k by (auto split: if_splits option.splits)
    show ?thesis
      using some parse_chars_shorter [OF k] one [OF x] tl [of s] tl [of s1] tl [of s2]
      by (auto simp: k x Let_def split: if_splits dest!: members)
  qed
  ultimately show ?case by blast
qed simp

lemma parse_value_more:
  assumes n: "2 * length s \<le> n"
    and items: "\<And>t. 2 * length t + 2 \<le> n \<Longrightarrow> parse_items (Suc n) t = parse_items n t"
    and members: "\<And>t. 2 * length t + 2 \<le> n \<Longrightarrow> parse_members (Suc n) t = parse_members n t"
  shows "parse_value (Suc (Suc n)) s = parse_value (Suc n) s"
proof -
  let ?s = "skip_space s"
  have "has_prefix ?s ''['' \<Longrightarrow> parse_items (Suc n) (tl ?s) = parse_items n (tl ?s)"
    using n tl_skip_shorter [of s] by (intro items) fastforce
  moreover have "has_prefix ?s ''{'' \<Longrightarrow> parse_members (Suc n) (tl ?s) = parse_members n (tl ?s)"
    using n tl_skip_shorter [of s] by (intro members) fastforce
  ultimately show ?thesis
    by (simp only: parse_value.simps(2) Let_def cong: if_cong)
qed

lemma parse_items_more:
  assumes n: "2 * length s + 1 \<le> n" and one: "parse_value (Suc n) s = parse_value n s"
    and items: "\<And>t. 2 * length t + 2 \<le> n \<Longrightarrow> parse_items (Suc n) t = parse_items n t"
  shows "parse_items (Suc (Suc n)) s = parse_items (Suc n) s"
proof (cases "parse_value n s")
  case None
  then show ?thesis using one by simp
next
  case (Some r)
  obtain x s1 where r: "r = (x, s1)" by (cases r)
  then have "length s1 \<le> length s" using Some parsed_shorter by blast
  then have "has_prefix (skip_space s1) '','' \<Longrightarrow>
      parse_items (Suc n) (tl (skip_space s1)) = parse_items n (tl (skip_space s1))"
    using n tl_skip_shorter [of s1] by (intro items) fastforce
  then show ?thesis
    using one Some r by (simp only: parse_items.simps(2) Let_def option.case prod.case cong: if_cong)
qed

lemma parse_members_more:
  assumes n: "2 * length s + 1 \<le> n"
    and one: "\<And>t. 2 * length t + 1 \<le> n \<Longrightarrow> parse_value (Suc n) t = parse_value n t"
    and members: "\<And>t. 2 * length t + 2 \<le> n \<Longrightarrow> parse_members (Suc n) t = parse_members n t"
  shows "parse_members (Suc (Suc n)) s = parse_members (Suc n) s"
proof (cases "has_prefix (skip_space s) [CHR 0x22] \<and> parse_chars (tl (skip_space s)) \<noteq> None")
  case True
  then obtain k s1 where k: "parse_chars (tl (skip_space s)) = Some (k, s1)" by auto
  let ?t = "tl (skip_space s1)"
  have s1: "length ?t + 2 \<le> length s" if "has_prefix (skip_space s1) '':''"
    using tl_skip_shorter [OF that] parse_chars_shorter [OF k] tl_skip_shorter [of s "CHR 0x22" "[]"] True
    by linarith
  show ?thesis
  proof (cases "has_prefix (skip_space s1) '':'' \<and> parse_value n ?t \<noteq> None")
    case ok: True
    then obtain x s2 where x: "parse_value n ?t = Some (x, s2)" by auto
    have "has_prefix (skip_space s2) '','' \<Longrightarrow>
        parse_members (Suc n) (tl (skip_space s2)) = parse_members n (tl (skip_space s2))"
      using n s1 ok parsed_shorter x tl_skip_shorter [of s2] by (intro members) fastforce
    moreover have "parse_value (Suc n) ?t = Some (x, s2)" using one [of ?t] n s1 ok x by simp
    ultimately show ?thesis
      using x k unfolding parse_members.simps(2) [of "Suc n" s] parse_members.simps(2) [of n s]
      by (simp add: Let_def del: parse_members.simps parse_value.simps)
  next
    case False
    then have "has_prefix (skip_space s1) '':'' \<Longrightarrow> parse_value (Suc n) ?t = None"
      and "has_prefix (skip_space s1) '':'' \<Longrightarrow> parse_value n ?t = None"
      using one [of ?t] n s1 by (simp_all del: parse_value.simps not_None_eq)
    then show ?thesis
      using k unfolding parse_members.simps(2) [of "Suc n" s] parse_members.simps(2) [of n s]
      by (simp del: parse_members.simps parse_value.simps)
  qed
next
  case False
  then show ?thesis by (cases "parse_chars (tl (skip_space s))") auto
qed

lemma parse_more:
  "(2 * length s + 1 \<le> n \<longrightarrow> parse_value (Suc n) s = parse_value n s) \<and>
   (2 * length s + 2 \<le> n \<longrightarrow> parse_items (Suc n) s = parse_items n s) \<and>
   (2 * length s + 2 \<le> n \<longrightarrow> parse_members (Suc n) s = parse_members n s)"
proof (induction n arbitrary: s)
  case (Suc n)
  then show ?case
    by (intro conjI impI parse_value_more parse_items_more parse_members_more) simp_all
qed simp

lemma parse_fuel: "2 * length s + 2 \<le> n \<Longrightarrow> parse_value n s = parse_value (2 * length s + 2) s"
proof (induction rule: dec_induct)
  case (step n)
  then show ?case using parse_more [of s n] by simp
qed simp

text \<open>\<open>json.Unmarshal\<close> of a whole text.\<close>

definition decode_text :: "string \<Rightarrow> json option" where
  "decode_text s =
     (case parse_value (2 * length s + 2) s of
        Some (v, rest) \<Rightarrow> if skip_space rest = [] then Some v else None
      | None \<Rightarrow> None)"

subsection \<open>What is written is read back\<close>

text \<open>Values the round trip covers: ASCII strings, integer numbers and objects without repeated
  members.\<close>

definition int_literal :: "string \<Rightarrow> bool" where
  "int_literal literal \<longleftrightarrow>
     literal = itoa (if has_prefix literal ''-'' then - int (decimal_value (tl literal))
       else int (decimal_value literal))"

lemma itoa_negative: "itoa i = (if i < 0 then CHR ''-'' # nat_digits (nat (- i)) else nat_digits (nat i))"
  by (simp add: itoa_def)

lemma nat_digits_no_sign: "\<not> has_prefix (nat_digits n) ''-''"
  using nat_digits_all [of n] nat_digits_nonempty [of n]
  by (cases "nat_digits n") (auto simp: is_digit_def)

lemma int_literal_itoa: "int_literal (itoa i)"
  using nat_digits_no_sign [of "nat i"]
  by (auto simp: int_literal_def itoa_def decimal_value_nat_digits)

fun plain_json :: "json \<Rightarrow> bool" where
  "plain_json JNull = True"
| "plain_json (JBool b) = True"
| "plain_json (JNum literal) = int_literal literal"
| "plain_json (JStr s) = ascii s"
| "plain_json (JArr xs) = list_all plain_json xs"
| "plain_json (JObj ms) = (distinct (map fst ms) \<and> list_all (\<lambda>m. ascii (fst m) \<and> plain_json (snd m)) ms)"

lemma hex_lower_value: "n < 16 \<Longrightarrow> hex_value (hex_lower n) = Some n"
proof -
  have "list_all (\<lambda>n. hex_value (hex_lower n) = Some n) [0..<16]" by code_simp
  then show "n < 16 \<Longrightarrow> hex_value (hex_lower n) = Some n" by (auto simp: list_all_iff)
qed

lemma hex_value_zero: "hex_value CHR ''0'' = Some 0"
  by code_simp

lemma char_of_specials:
  "char_of (34 :: nat) = CHR 0x22" "char_of (92 :: nat) = CHR 0x5C" "char_of (8 :: nat) = CHR 0x08"
  "char_of (12 :: nat) = CHR 0x0C" "char_of (10 :: nat) = CHR 0x0A" "char_of (13 :: nat) = CHR 0x0D"
  "char_of (9 :: nat) = CHR 0x09" "char_of (48 :: nat) = CHR ''0''"
  by code_simp+

lemma char_of_byte_eq: "byte c = n \<Longrightarrow> c = char_of n"
  by auto

lemma parse_chars_escape:
  assumes "byte c < 128"
  shows "parse_chars (escape_rune (byte c, [c]) @ s)
    = map_option (\<lambda>(t, rest). (c # t, rest)) (parse_chars s)"
proof -
  consider "byte c = 34" | "byte c = 92" | "byte c = 8" | "byte c = 12" | "byte c = 10"
    | "byte c = 13" | "byte c = 9"
    | (hex) "byte c \<notin> {34, 92, 8, 12, 10, 13, 9}" "byte c < 32 \<or> byte c = 60 \<or> byte c = 62 \<or> byte c = 38"
    | (raw) "byte c \<notin> {34, 92, 8, 12, 10, 13, 9}" "\<not> (byte c < 32 \<or> byte c = 60 \<or> byte c = 62 \<or> byte c = 38)"
    by blast
  then show ?thesis
  proof cases
    case hex
    have "unicode_escape (CHR ''0'' # CHR ''0'' # hex_lower (byte c div 16) # hex_lower (byte c mod 16) # s)
        = Some (byte c, 4)"
      using assms
      by (simp add: unicode_escape_def hex4_def hex_lower_value hex_value_zero less_mult_imp_div_less)
    then show ?thesis using hex assms by (simp add: escape_rune_def encode_rune_def)
  next
    case raw
    have "c \<noteq> CHR 0x22" "c \<noteq> CHR 0x5C" using raw by auto
    then show ?thesis using raw assms by (simp add: escape_rune_def rune_error_def)
  qed (drule char_of_byte_eq, simp add: escape_rune_def simple_escape_def char_of_specials)+
qed

lemma parse_chars_encode:
  "ascii s \<Longrightarrow> parse_chars (concat (map escape_rune (rune_spans s)) @ CHR 0x22 # rest) = Some (s, rest)"
proof (induction s)
  case (Cons c s)
  then have "byte c < 128" "ascii s" by (simp_all add: ascii_def)
  with Cons.IH show ?case by (simp add: rune_spans_ascii_Cons parse_chars_escape)
qed simp

subsubsection \<open>Numbers\<close>

lemma nat_digits_zero_head: "hd (nat_digits n) = CHR ''0'' \<Longrightarrow> n = 0"
proof (induction n rule: nat_digits.induct)
  case (1 n)
  show ?case
  proof (cases "n < 10")
    case True
    then have "nat_digits n = [char_of (48 + n)]" by (subst nat_digits.simps) simp
    with 1(2) have "char_of (48 + n) = CHR ''0''" by simp
    then have "byte (char_of (48 + n)) = byte CHR ''0''" by (simp only:)
    with True show ?thesis by (simp add: of_char_of take_bit_eq_mod)
  next
    case False
    then have "nat_digits n = nat_digits (n div 10) @ [char_of (48 + n mod 10)]"
      by (subst nat_digits.simps) simp
    with 1 False have "n div 10 = 0" by simp
    with False show ?thesis by simp
  qed
qed

text \<open>The character after a value.\<close>

definition delimited :: "string \<Rightarrow> bool" where
  "delimited rest \<longleftrightarrow> rest = [] \<or> hd rest \<in> {CHR '','', CHR '']'', CHR ''}''}"

lemma scan_rest: "delimited rest \<Longrightarrow> scan_fraction rest = Some ([], rest) \<and> scan_exponent rest = Some ([], rest)"
  by (cases rest) (auto simp: delimited_def scan_fraction_def scan_exponent_def)

lemma takeWhile_digits:
  assumes "list_all is_digit ds" and "delimited rest"
  shows "takeWhile is_digit (ds @ rest) = ds"
proof -
  have "takeWhile is_digit rest = []"
    using assms(2) by (cases rest) (auto simp: delimited_def is_digit_def)
  then show ?thesis using assms(1) by (simp add: takeWhile_append2 list_all_iff)
qed

lemma scan_integer_digits:
  assumes "delimited rest"
  shows "scan_integer (nat_digits n @ rest) = Some (nat_digits n, rest)"
proof (cases "n = 0")
  case True
  have "nat_digits 0 = ''0''" by (subst nat_digits.simps) (simp add: char_of_specials)
  with True show ?thesis by (simp add: scan_integer_def)
next
  case False
  then have "hd (nat_digits n) \<noteq> CHR ''0''" using nat_digits_zero_head by blast
  then have "hd (nat_digits n @ rest) \<noteq> CHR ''0''" by simp
  then show ?thesis
    using takeWhile_digits [OF nat_digits_all assms]
    by (simp add: scan_integer_def scan_digits_def)
qed

lemma scan_number_itoa:
  assumes "delimited rest"
  shows "scan_number (itoa i @ rest) = Some (itoa i, rest)"
proof (cases "i < 0")
  case True
  then show ?thesis
    using scan_integer_digits [OF assms] scan_rest [OF assms] by (simp add: itoa_def scan_number_def)
next
  case False
  have "hd (nat_digits (nat i) @ rest) \<noteq> CHR ''-''"
    using nat_digits_no_sign [of "nat i"] nat_digits_nonempty [of "nat i"]
    by (cases "nat_digits (nat i)") (auto simp: has_prefix_def)
  then show ?thesis
    using False scan_integer_digits [OF assms] scan_rest [OF assms]
    by (simp add: itoa_def scan_number_def)
qed

subsubsection \<open>Values\<close>

lemma skip_space_id: "s \<noteq> [] \<Longrightarrow> \<not> json_space (hd s) \<Longrightarrow> skip_space s = s"
  by (cases s) (simp_all add: skip_space_def)

lemma json_space_false:
  "\<not> json_space CHR 0x22" "\<not> json_space CHR ''n''" "\<not> json_space CHR ''t''" "\<not> json_space CHR ''f''"
  "\<not> json_space CHR ''[''" "\<not> json_space CHR '']''" "\<not> json_space CHR ''{''" "\<not> json_space CHR ''}''"
  "\<not> json_space CHR '',''" "\<not> json_space CHR '':''" "\<not> json_space CHR ''-''"
  by (simp_all add: json_space_def)

lemma skip_space_Cons: "\<not> json_space c \<Longrightarrow> skip_space (c # s) = c # s"
  by (simp add: skip_space_def)

lemmas skip_simps = skip_space_Cons json_space_false

definition number_start :: "char \<Rightarrow> bool" where
  "number_start c \<longleftrightarrow> is_digit c \<or> c = CHR ''-''"

lemma itoa_start: obtains c t where "itoa i = c # t" "number_start c"
proof (cases "i < 0")
  case True
  then show thesis using that by (simp add: itoa_def number_start_def)
next
  case False
  then show thesis
    using that nat_digits_all [of "nat i"] nat_digits_nonempty [of "nat i"]
    by (cases "nat_digits (nat i)") (auto simp: itoa_def number_start_def)
qed

lemma number_start_distinct:
  "number_start c \<Longrightarrow> \<not> json_space c \<and> c \<notin> {CHR ''n'', CHR ''t'', CHR ''f'', CHR 0x22, CHR ''['', CHR ''{''}"
  by (auto simp: number_start_def json_space_def is_digit_def)

text \<open>Every encoding starts with a character no space precedes and that closes nothing.\<close>

lemma encode_start:
  assumes "plain_json j"
  obtains c t where "encode_json j = c # t" "\<not> json_space c" "c \<noteq> CHR '']''" "c \<noteq> CHR ''}''"
proof (cases j)
  case (JNum literal)
  then obtain i where "literal = itoa i" using assms by (auto simp: int_literal_def)
  moreover obtain c t where "itoa i = c # t" "number_start c" by (rule itoa_start)
  moreover have "c \<noteq> CHR '']''" "c \<noteq> CHR ''}''"
    using \<open>number_start c\<close> by (auto simp: number_start_def is_digit_def)
  ultimately show thesis using that number_start_distinct JNum by simp
next
  case (JBool b)
  then show thesis using that by (cases b) (simp_all add: json_space_def)
qed (use that in \<open>simp_all add: encode_string_def json_space_def split: if_splits\<close>)

definition decodes :: "json \<Rightarrow> bool" where
  "decodes j \<longleftrightarrow> (\<forall>n rest. 2 * length (encode_json j) \<le> n \<longrightarrow> delimited rest \<longrightarrow>
     parse_value n (encode_json j @ rest) = Some (j, rest))"

lemma decodesI:
  assumes "encode_json j \<noteq> []"
    and "\<And>m rest. 2 * length (encode_json j) \<le> Suc m \<Longrightarrow> delimited rest \<Longrightarrow>
      parse_value (Suc m) (encode_json j @ rest) = Some (j, rest)"
  shows "decodes j"
  unfolding decodes_def
proof (intro allI impI)
  fix n rest assume n: "2 * length (encode_json j) \<le> n" and rest: "delimited rest"
  with assms(1) obtain m where "n = Suc m" by (cases n) auto
  with assms(2) n rest show "parse_value n (encode_json j @ rest) = Some (j, rest)" by blast
qed

lemma delimited_simps [simp]:
  "delimited []" "delimited (CHR '','' # s)" "delimited (CHR '']'' # s)" "delimited (CHR ''}'' # s)"
  by (simp_all add: delimited_def)

lemma join_Cons: "join_with sep (x # xs) = x @ (if xs = [] then [] else sep @ join_with sep xs)"
  by (cases xs) simp_all

lemma parse_items_encode:
  assumes "xs \<noteq> []" and "\<forall>x\<in>set xs. decodes x"
    and "2 * length (join_with '','' (map encode_json xs)) + 1 \<le> n"
  shows "parse_items n (join_with '','' (map encode_json xs) @ CHR '']'' # rest) = Some (xs, rest)"
  using assms
proof (induction xs arbitrary: n)
  case (Cons x xs)
  obtain m where n: "n = Suc m" using Cons.prems(3) by (cases n) auto
  show ?case
  proof (cases "xs = []")
    case True
    have "parse_value m (encode_json x @ CHR '']'' # rest) = Some (x, CHR '']'' # rest)"
      using Cons.prems True by (simp add: decodes_def n)
    then show ?thesis by (simp add: True n skip_simps)
  next
    case False
    let ?tail = "join_with '','' (map encode_json xs) @ CHR '']'' # rest"
    have "parse_value m (encode_json x @ CHR '','' # ?tail) = Some (x, CHR '','' # ?tail)"
      using Cons.prems False by (simp add: decodes_def n join_Cons)
    moreover have "parse_items m ?tail = Some (xs, rest)"
      using Cons.IH [of m] Cons.prems False by (simp add: n join_Cons)
    ultimately show ?thesis using False by (simp add: n skip_simps join_Cons)
  qed
qed simp

definition encode_member :: "string \<times> json \<Rightarrow> string" where
  "encode_member m = encode_string (fst m) @ '':'' @ encode_json (snd m)"

lemma parse_member:
  assumes "ascii k" and "decodes v" and "2 * length (encode_member (k, v)) \<le> n" and "delimited rest"
  shows "parse_members (Suc n) (encode_member (k, v) @ rest) =
    (let s2 = skip_space rest in
     if has_prefix s2 ''}'' then Some ([(k, v)], tl s2)
     else if has_prefix s2 '','' then
       map_option (\<lambda>(ms, rest). ((k, v) # ms, rest)) (parse_members n (tl s2))
     else None)"
proof -
  have "parse_value n (encode_json v @ rest) = Some (v, rest)"
    using assms by (simp add: decodes_def encode_member_def)
  moreover have "parse_chars (concat (map escape_rune (rune_spans k)) @ CHR 0x22 # CHR '':'' # encode_json v @ rest)
      = Some (k, CHR '':'' # encode_json v @ rest)"
    using assms(1) by (rule parse_chars_encode)
  ultimately show ?thesis
    by (simp add: encode_member_def encode_string_def skip_simps)
qed

lemma parse_members_encode:
  assumes "ms \<noteq> []" and "\<forall>m\<in>set ms. ascii (fst m) \<and> decodes (snd m)"
    and "2 * length (join_with '','' (map encode_member ms)) + 1 \<le> n"
  shows "parse_members n (join_with '','' (map encode_member ms) @ CHR ''}'' # rest) = Some (ms, rest)"
  using assms
proof (induction ms arbitrary: n)
  case (Cons m ms)
  obtain l where n: "n = Suc l" using Cons.prems(3) by (cases n) auto
  obtain k v where m: "m = (k, v)" by (cases m)
  have kv: "ascii k" "decodes v" "2 * length (encode_member (k, v)) \<le> l"
    using Cons.prems by (simp_all add: m n join_Cons)
  show ?case
  proof (cases "ms = []")
    case True
    then show ?thesis
      using parse_member [OF kv, of "CHR ''}'' # rest"] by (simp add: m n skip_simps)
  next
    case False
    let ?tail = "join_with '','' (map encode_member ms) @ CHR ''}'' # rest"
    have "parse_members l ?tail = Some (ms, rest)"
      using Cons.IH [of l] Cons.prems False by (simp add: n join_Cons)
    then show ?thesis
      using parse_member [OF kv, of "CHR '','' # ?tail"] False by (simp add: m n skip_simps join_Cons)
  qed
qed simp

lemma fold_update_distinct:
  "distinct (map fst (d @ ms)) \<Longrightarrow> fold (\<lambda>(k, v). AList.update k v) ms d = d @ ms"
proof (induction ms arbitrary: d)
  case (Cons m ms)
  have "AList.update (fst m) (snd m) d = d @ [m]" if "fst m \<notin> fst ` set d"
    using that by (induction d) auto
  with Cons.IH [of "d @ [m]"] Cons.prems show ?case by (cases m) auto
qed simp

lemma decodes_plain: "plain_json j \<Longrightarrow> decodes j"
proof (induction j)
  case JNull
  show ?case by (rule decodesI) (simp_all add: skip_simps)
next
  case (JBool b)
  show ?case by (rule decodesI) (simp_all add: skip_simps)
next
  case (JNum literal)
  then obtain i where literal: "literal = itoa i" by (auto simp: int_literal_def)
  obtain c t where c: "itoa i = c # t" "number_start c" by (rule itoa_start)
  show ?case
  proof (rule decodesI)
    fix m rest assume rest: "delimited rest"
    have "skip_space (itoa i @ rest) = itoa i @ rest"
      using c number_start_distinct by (simp add: skip_space_Cons)
    moreover have "\<not> has_prefix (itoa i @ rest) (d # p)"
      if "d \<in> {CHR ''n'', CHR ''t'', CHR ''f'', CHR 0x22, CHR ''['', CHR ''{''}" for d p
      using c number_start_distinct [OF c(2)] that by auto
    ultimately show "parse_value (Suc m) (encode_json (JNum literal) @ rest) = Some (JNum literal, rest)"
      using scan_number_itoa [OF rest, of i] by (simp add: literal)
  qed (simp add: literal c)
next
  case (JStr s)
  show ?case
  proof (rule decodesI)
    fix m rest
    show "parse_value (Suc m) (encode_json (JStr s) @ rest) = Some (JStr s, rest)"
      using JStr parse_chars_encode [of s rest] by (simp add: encode_string_def skip_simps)
  qed (simp add: encode_string_def)
next
  case (JArr xs)
  show ?case
  proof (rule decodesI)
    fix m rest assume m: "2 * length (encode_json (JArr xs)) \<le> Suc m"
    show "parse_value (Suc m) (encode_json (JArr xs) @ rest) = Some (JArr xs, rest)"
    proof (cases xs)
      case Nil
      then show ?thesis by (simp add: skip_simps)
    next
      case (Cons x ys)
      let ?text = "join_with '','' (map encode_json xs) @ CHR '']'' # rest"
      have "plain_json x" using JArr.prems Cons by simp
      then obtain c t where "encode_json x = c # t" "\<not> json_space c" "c \<noteq> CHR '']''"
        by (rule encode_start)
      then have "skip_space ?text = ?text" "\<not> has_prefix ?text '']''"
        by (simp_all add: Cons join_Cons skip_space_Cons)
      moreover have "\<forall>x\<in>set xs. decodes x" using JArr by (simp add: list_all_iff)
      then have "parse_items m ?text = Some (xs, rest)"
        by (intro parse_items_encode) (use m Cons in simp_all)
      ultimately show ?thesis by (simp add: skip_simps)
    qed
  qed simp
next
  case (JObj ms)
  have members: "encode_json (JObj ms) = ''{'' @ join_with '','' (map encode_member ms) @ ''}''"
    by (simp add: encode_member_def [abs_def])
  show ?case
  proof (rule decodesI)
    fix m rest assume m: "2 * length (encode_json (JObj ms)) \<le> Suc m"
    show "parse_value (Suc m) (encode_json (JObj ms) @ rest) = Some (JObj ms, rest)"
    proof (cases ms)
      case Nil
      then show ?thesis by (simp add: skip_simps)
    next
      case (Cons x ys)
      let ?text = "join_with '','' (map encode_member ms) @ CHR ''}'' # rest"
      have "skip_space ?text = ?text" "\<not> has_prefix ?text ''}''"
        by (simp_all add: Cons join_Cons encode_member_def encode_string_def skip_simps)
      moreover have fuel: "2 * length (join_with '','' (map encode_member ms)) + 1 \<le> m"
        using m unfolding members length_append by simp
      moreover have "\<forall>m\<in>set ms. ascii (fst m) \<and> decodes (snd m)"
      proof
        fix e assume e: "e \<in> set ms"
        with JObj.prems have "ascii (fst e)" "plain_json (snd e)" by (auto simp: list_all_iff)
        with JObj.IH [OF e, of "snd e"] show "ascii (fst e) \<and> decodes (snd e)"
          by (cases e) simp
      qed
      then have "parse_members m ?text = Some (ms, rest)"
        using parse_members_encode [of ms m rest] Cons fuel by blast
      moreover have "fold (\<lambda>(k, v). AList.update k v) ms [] = ms"
        using JObj.prems fold_update_distinct [of "[]" ms] by simp
      ultimately show ?thesis unfolding members by (simp add: skip_simps)
    qed
  qed simp
qed

lemma decode_encode:
  assumes "plain_json j"
  shows "decode_text (encode_json j) = Some j"
proof -
  have "parse_value (2 * length (encode_json j) + 2) (encode_json j @ []) = Some (j, [])"
    using decodes_plain [OF assms] delimited_simps(1) unfolding decodes_def by (meson le_add1)
  then show ?thesis
    unfolding decode_text_def append_Nil2 by (simp add: skip_space_def del: parse_value.simps)
qed

subsection \<open>The interface of a text codec\<close>

text \<open>What a client of \<open>encoding/json\<close> relies on when it reads back what it wrote.\<close>

locale text_codec =
  fixes encode :: "'v \<Rightarrow> string" and decode :: "string \<Rightarrow> 'v option" and valid :: "'v \<Rightarrow> bool"
  assumes decode_encoded: "valid v \<Longrightarrow> decode (encode v) = Some v"
begin

lemma encode_inj: "valid v \<Longrightarrow> valid w \<Longrightarrow> encode v = encode w \<Longrightarrow> v = w"
  by (metis decode_encoded option.inject)

end

interpretation json_codec: text_codec encode_json decode_text plain_json
  by unfold_locales (rule decode_encode)

interpretation base64_codec: text_codec base64_encode base64_decode "\<lambda>_. True"
  by unfold_locales (rule base64_round_trip)

end
