(* ===== verification/References.thy ===== *)
theory References
  imports GoUrl Validation
begin

section \<open>References and identities\<close>

text \<open>
  \<open>references.go\<close> and \<open>identity.go\<close>: local identifiers, the path and method of each operation,
  and the URLs an Agent derives from a Service Document.  \<open>idna.Lookup.ToASCII\<close> is third-party code
  and so the parameter \<open>to_ascii\<close>; \<open>None\<close> is its error.
\<close>

subsection \<open>Identifiers and operations\<close>

definition identifier_char :: "char \<Rightarrow> bool" where
  "identifier_char c \<longleftrightarrow> alphanumeric c \<or> c \<in> set ''._~-''"

definition localIdentifier :: "string \<Rightarrow> bool" where
  "localIdentifier s \<longleftrightarrow> 1 \<le> length s \<and> length s \<le> 128 \<and> list_all identifier_char s"

definition IsLocalResourceIdentifier :: "string \<Rightarrow> bool" where
  "IsLocalResourceIdentifier v \<longleftrightarrow> v \<noteq> ''.'' \<and> v \<noteq> ''..'' \<and> localIdentifier v"

definition operationMethods :: "(string \<times> string) list" where
  "operationMethods =
     [(''get-collection'', ''GET''), (''get-offering'', ''GET''),
      (''list-collection-offerings'', ''GET''), (''list-collections'', ''GET''),
      (''list-offerings'', ''GET''), (''search-collections'', ''POST''), (''search-offerings'', ''POST'')]"

definition OperationMethod :: "string \<Rightarrow> string option" where
  "OperationMethod operation = map_of operationMethods operation"

definition operationPath :: "string \<Rightarrow> string \<Rightarrow> odp_error + string" where
  "operationPath operation ident =
     (let resource = operation \<in> {''get-collection'', ''get-offering'', ''list-collection-offerings''} in
      if resource \<and> \<not> IsLocalResourceIdentifier ident then
        Inl (Text (operation @ '' requires a valid local resource identifier''))
      else if \<not> resource \<and> ident \<noteq> [] then
        Inl (Text (operation @ '' does not accept a resource identifier''))
      else if operation = ''list-collections'' then Inr ''/collections''
      else if operation = ''search-collections'' then Inr ''/collections/search''
      else if operation = ''get-collection'' then Inr (''/collections/'' @ ident)
      else if operation = ''list-collection-offerings'' then Inr (''/collections/'' @ ident @ ''/offerings'')
      else if operation = ''list-offerings'' then Inr ''/offerings''
      else if operation = ''search-offerings'' then Inr ''/offerings/search''
      else if operation = ''get-offering'' then Inr (''/offerings/'' @ ident)
      else Inl (Text (''unsupported ODP operation '' @ operation)))"

subsection \<open>Origins\<close>

definition requireSecureURL :: "url \<Rightarrow> odp_error + unit" where
  "requireSecureURL u =
     (let h = Hostname u; loopback = h = ''localhost'' \<or> IsLoopback (ParseIP h) in
      if h = [] then Inl (Text ''ODP URL must include a host'')
      else if scheme u \<noteq> ''https'' \<and> \<not> (scheme u = ''http'' \<and> loopback) then
        Inl (Text ''ODP URL must use HTTPS except on loopback hosts'')
      else Inr ())"

definition default_port :: "string \<Rightarrow> string \<Rightarrow> bool" where
  "default_port sch port \<longleftrightarrow> (sch = ''https'' \<and> port = ''443'') \<or> (sch = ''http'' \<and> port = ''80'')"

definition canonicalOrigin :: "(string \<Rightarrow> string option) \<Rightarrow> url \<Rightarrow> odp_error + string" where
  "canonicalOrigin to_ascii u =
     bind_res
       (if ParseIP (Hostname u) = None then
          (case to_ascii (Hostname u) of
             None \<Rightarrow> Inl (Text ''normalize ODP host'')
           | Some h \<Rightarrow> Inr h)
        else Inr (Hostname u))
       (\<lambda>h.
         let h = to_lower h;
             h = (if CHR '':'' \<in> set h then ''['' @ h @ '']'' else h);
             port = (if default_port (scheme u) (Port u) then [] else Port u) in
         Inr (scheme u @ ''://'' @ h @ (if port = [] then [] else '':'' @ port)))"

definition parse_or :: "string \<Rightarrow> string \<Rightarrow> odp_error + url" where
  "parse_or text raw = (case Parse raw of None \<Rightarrow> Inl (Text text) | Some u \<Rightarrow> Inr u)"

definition DeriveServiceOrigin :: "(string \<Rightarrow> string option) \<Rightarrow> string \<Rightarrow> odp_error + string" where
  "DeriveServiceOrigin to_ascii serviceDocumentURL =
     bind_res (parse_or ''parse Service URL'' serviceDocumentURL) (\<lambda>parsed.
       if has_user parsed then Inl (Text ''Service URL cannot contain user information'')
       else bind_res (requireSecureURL parsed) (\<lambda>_. canonicalOrigin to_ascii parsed))"

definition permitted_start :: "string \<Rightarrow> bool" where
  "permitted_start reference \<longleftrightarrow>
     has_prefix reference ''/'' \<or> has_prefix reference ''https://'' \<or>
     has_prefix reference ''http://localhost'' \<or> has_prefix reference ''http://127.0.0.1'' \<or>
     has_prefix reference ''http://[::1]''"

definition ResolveResourceReference :: "string \<Rightarrow> string \<Rightarrow> odp_error + url" where
  "ResolveResourceReference reference serviceOrigin =
     (if \<not> permitted_start reference then
        Inl (Text ''ODP resource reference must be an origin-relative absolute path or secure absolute URL'')
      else if has_prefix reference ''//'' then
        Inl (Text ''ODP resource reference cannot be scheme-relative'')
      else
        bind_res (parse_or ''parse Service origin'' serviceOrigin) (\<lambda>origin.
        bind_res (parse_or ''parse ODP resource reference'' reference) (\<lambda>ref.
          let resolved = ResolveReference origin ref in
          if fragment resolved \<noteq> [] then
            Inl (Text ''ODP resource reference cannot contain a fragment'')
          else if has_user resolved then
            Inl (Text ''ODP resource reference cannot contain user information'')
          else bind_res (requireSecureURL resolved) (\<lambda>_. Inr resolved))))"

definition ResolveContinuation ::
  "(string \<Rightarrow> string option) \<Rightarrow> string \<Rightarrow> string \<Rightarrow> odp_error + url" where
  "ResolveContinuation to_ascii reference serviceOrigin =
     bind_res (parse_or ''parse Service origin'' serviceOrigin) (\<lambda>origin.
     bind_res (ResolveResourceReference reference serviceOrigin) (\<lambda>resolved.
     bind_res (canonicalOrigin to_ascii resolved) (\<lambda>resolvedOrigin.
     bind_res (canonicalOrigin to_ascii origin) (\<lambda>expectedOrigin.
       if resolvedOrigin \<noteq> expectedOrigin then
         Inl (Text ''ODP continuation reference must remain on the Service origin'')
       else Inr resolved))))"

definition BuildOperationURL :: "string \<Rightarrow> string \<Rightarrow> string \<Rightarrow> string \<Rightarrow> odp_error + url" where
  "BuildOperationURL endpointBase operation serviceOrigin ident =
     (if \<not> has_prefix endpointBase ''/'' \<or> has_prefix endpointBase ''//'' then
        Inl (Text ''ODP endpoint base must be an origin-relative absolute path'')
      else
        bind_res (operationPath operation ident) (\<lambda>path.
          ResolveResourceReference (trim_suffix endpointBase ''/'' @ path) serviceOrigin))"

subsection \<open>Resource identities\<close>

record resource_identity =
  identity_id :: string
  identity_service :: string
  identity_type :: string

definition NewResourceIdentity ::
  "(string \<Rightarrow> string option) \<Rightarrow> string \<Rightarrow> string \<Rightarrow> string \<Rightarrow> odp_error + resource_identity" where
  "NewResourceIdentity to_ascii serviceDocumentURL resourceType ident =
     (if \<not> IsLocalResourceIdentifier ident then Inl (Text ''invalid ODP local resource identifier'')
      else if resourceType \<noteq> ''collection'' \<and> resourceType \<noteq> ''offering'' then
        Inl (Text ''invalid ODP resource type'')
      else
        bind_res (DeriveServiceOrigin to_ascii serviceDocumentURL) (\<lambda>origin.
          Inr \<lparr>identity_id = ident, identity_service = origin, identity_type = resourceType\<rparr>))"

definition Key :: "resource_identity \<Rightarrow> string" where
  "Key identity = join_with [CHR 0x00]
     [identity_service identity, identity_type identity, identity_id identity]"

definition Equal :: "resource_identity \<Rightarrow> resource_identity \<Rightarrow> bool" where
  "Equal identity other \<longleftrightarrow> identity = other"

subsection \<open>Paths name operations\<close>

lemma identifier_char_no_slash: "list_all identifier_char s \<Longrightarrow> CHR ''/'' \<notin> set s"
  by (induction s) (auto simp: identifier_char_def alphanumeric_def is_lower_def is_upper_def is_digit_def)

lemma identifier_no_nul: "list_all identifier_char s \<Longrightarrow> CHR 0x00 \<notin> set s"
  by (induction s) (auto simp: identifier_char_def alphanumeric_def is_lower_def is_upper_def is_digit_def)

lemma IsLocal_no_slash: "IsLocalResourceIdentifier ident \<Longrightarrow> CHR ''/'' \<notin> set ident"
  by (simp add: IsLocalResourceIdentifier_def localIdentifier_def identifier_char_no_slash)

lemma IsLocal_nonempty: "IsLocalResourceIdentifier ident \<Longrightarrow> ident \<noteq> []"
  by (auto simp: IsLocalResourceIdentifier_def localIdentifier_def)

text \<open>The segments of an operation's path.\<close>

definition operation_segments :: "string \<Rightarrow> string \<Rightarrow> string list" where
  "operation_segments operation ident =
     (if operation = ''list-collections'' then [''collections'']
      else if operation = ''search-collections'' then [''collections'', ''search'']
      else if operation = ''get-collection'' then [''collections'', ident]
      else if operation = ''list-collection-offerings'' then [''collections'', ident, ''offerings'']
      else if operation = ''list-offerings'' then [''offerings'']
      else if operation = ''search-offerings'' then [''offerings'', ''search'']
      else [''offerings'', ident])"

definition operations :: "string list" where
  "operations = map fst operationMethods"

text \<open>What an operation's path can be.\<close>

lemma operationPath_forms:
  assumes "operationPath operation ident = Inr p"
  shows "operation = ''list-collections'' \<and> ident = [] \<and> p = ''/collections'' \<or>
    operation = ''search-collections'' \<and> ident = [] \<and> p = ''/collections/search'' \<or>
    operation = ''get-collection'' \<and> IsLocalResourceIdentifier ident \<and> p = ''/collections/'' @ ident \<or>
    operation = ''list-collection-offerings'' \<and> IsLocalResourceIdentifier ident \<and>
      p = ''/collections/'' @ ident @ ''/offerings'' \<or>
    operation = ''list-offerings'' \<and> ident = [] \<and> p = ''/offerings'' \<or>
    operation = ''search-offerings'' \<and> ident = [] \<and> p = ''/offerings/search'' \<or>
    operation = ''get-offering'' \<and> IsLocalResourceIdentifier ident \<and> p = ''/offerings/'' @ ident"
  using assms unfolding operationPath_def Let_def by (simp split: if_split_asm)

lemma operation_segments_no_slash:
  assumes "IsLocalResourceIdentifier ident \<or> ident = []"
  shows "\<forall>s\<in>set (operation_segments operation ident). CHR ''/'' \<notin> set s"
  using assms IsLocal_no_slash [of ident] by (elim disjE) (simp_all add: operation_segments_def)

lemma operationPath_segments:
  assumes "operationPath operation ident = Inr p"
  shows "split_on CHR ''/'' (tl p) = operation_segments operation ident"
proof -
  have p: "tl p = join_with ''/'' (operation_segments operation ident)"
      and "IsLocalResourceIdentifier ident \<or> ident = []"
    using operationPath_forms [OF assms] by (elim disjE conjE; simp add: operation_segments_def)+
  have "split_on CHR ''/'' (join_with ''/'' (operation_segments operation ident)) =
      operation_segments operation ident"
    by (rule split_join)
      (use operation_segments_no_slash [OF \<open>IsLocalResourceIdentifier ident \<or> ident = []\<close>] in
        \<open>auto simp: operation_segments_def\<close>)
  with p show ?thesis by simp
qed

text \<open>C9: two operations have the same path only when they are the same operation on the same
  resource, or one of them is on the resource named \<open>search\<close>, whose path is the search route.\<close>

theorem operationPath_injective:
  assumes "operationPath operation ident = Inr p" and "operationPath operation' ident' = Inr p"
  shows "operation = operation' \<and> ident = ident' \<or>
    ident = ''search'' \<and> operation \<in> {''get-collection'', ''get-offering''} \<or>
    ident' = ''search'' \<and> operation' \<in> {''get-collection'', ''get-offering''}"
proof -
  have "operation_segments operation ident = operation_segments operation' ident'"
    using assms [THEN operationPath_segments] by simp
  with assms [THEN operationPath_forms] show ?thesis
    by (elim disjE conjE) (auto simp: operation_segments_def dest: IsLocal_nonempty)
qed

theorem operationPath_injective_witness:
  "operationPath ''search-offerings'' [] = Inr ''/offerings/search'' \<and>
   operationPath ''get-offering'' ''search'' = Inr ''/offerings/search'' \<and>
   (''search-offerings'' = ''get-offering'' \<and> [] = ''search'' \<or>
    [] = ''search'' \<and> ''search-offerings'' \<in> {''get-collection'', ''get-offering''} \<or>
    ''search'' = ''search'' \<and> ''get-offering'' \<in> {''get-collection'', ''get-offering''})"
proof -
  have paths: "operationPath ''search-offerings'' [] = Inr ''/offerings/search''"
    "operationPath ''get-offering'' ''search'' = Inr ''/offerings/search''"
    by code_simp+
  from paths operationPath_injective [OF paths] show ?thesis by blast
qed

subsection \<open>Where a continuation can lead\<close>

lemma ResolveResourceReference_Inr:
  assumes "ResolveResourceReference reference origin = Inr u"
  shows "fragment u = [] \<and> \<not> has_user u \<and> requireSecureURL u = Inr ()"
  using assms unfolding ResolveResourceReference_def Let_def
  by (auto simp: res_simps split: if_splits)

lemma requireSecureURL_Inr:
  "requireSecureURL u = Inr () \<longleftrightarrow> Hostname u \<noteq> [] \<and>
     (scheme u = ''https'' \<or>
      scheme u = ''http'' \<and> (Hostname u = ''localhost'' \<or> IsLoopback (ParseIP (Hostname u))))"
  by (simp add: requireSecureURL_def Let_def)

text \<open>C10: wherever a page says the next one is, an Agent that resolves the reference stays on the
  Service's canonical origin, over HTTPS (or HTTP on a loopback host), without credentials and
  without a fragment; a scheme-relative reference is never followed.\<close>

theorem ResolveContinuation_safe:
  assumes "ResolveContinuation to_ascii reference serviceOrigin = Inr u"
  shows "fragment u = [] \<and> \<not> has_user u \<and> Hostname u \<noteq> [] \<and>
    (scheme u = ''https'' \<or>
     scheme u = ''http'' \<and> (Hostname u = ''localhost'' \<or> IsLoopback (ParseIP (Hostname u)))) \<and>
    list_ex (\<lambda>origin. canonicalOrigin to_ascii u = canonicalOrigin to_ascii origin)
      (case Parse serviceOrigin of None \<Rightarrow> [] | Some origin \<Rightarrow> [origin]) \<and>
    \<not> has_prefix reference ''//''"
proof -
  from assms obtain origin o' where
      "Parse serviceOrigin = Some origin" "ResolveResourceReference reference serviceOrigin = Inr u"
      "canonicalOrigin to_ascii u = Inr o'" "canonicalOrigin to_ascii origin = Inr o'"
    by (auto simp: ResolveContinuation_def parse_or_def res_simps split: option.splits if_splits)
  moreover from this(2) have "\<not> has_prefix reference ''//''"
    by (auto simp: ResolveResourceReference_def split: if_splits)
  ultimately show ?thesis
    using ResolveResourceReference_Inr [of reference serviceOrigin u] requireSecureURL_Inr [of u]
    by simp
qed

theorem ResolveContinuation_safe_witness:
  "(\<lambda>u. fragment u = [] \<and> \<not> has_user u \<and> Hostname u \<noteq> [] \<and>
      (scheme u = ''https'' \<or>
       scheme u = ''http'' \<and> (Hostname u = ''localhost'' \<or> IsLoopback (ParseIP (Hostname u)))) \<and>
      list_ex (\<lambda>origin. canonicalOrigin Some u = canonicalOrigin Some origin)
        (case Parse ''https://s.co'' of None \<Rightarrow> [] | Some origin \<Rightarrow> [origin]) \<and>
      \<not> has_prefix ''/a?b'' ''//'')
    (empty_url\<lparr>scheme := ''https'', host := ''s.co'', url_path := ''/a'', raw_query := ''b''\<rparr>)"
proof -
  have "ResolveContinuation Some ''/a?b'' ''https://s.co''
      = Inr (empty_url\<lparr>scheme := ''https'', host := ''s.co'', url_path := ''/a'', raw_query := ''b''\<rparr>)"
    by code_simp
  from ResolveContinuation_safe [OF this] show ?thesis .
qed

subsection \<open>Identities\<close>

lemma join3_inject:
  assumes "c \<notin> set t" "c \<notin> set i" "c \<notin> set t'" "c \<notin> set i'"
  shows "s @ c # t @ c # i = s' @ c # t' @ c # i' \<longleftrightarrow> s = s' \<and> t = t' \<and> i = i'"
proof
  assume eq: "s @ c # t @ c # i = s' @ c # t' @ c # i'"
  have last: "x = x' \<and> y = y'" if "x @ c # y = x' @ c # y'" "c \<notin> set y" "c \<notin> set y'" for x x' y y'
    using that by (auto simp: append_eq_append_conv2 Cons_eq_append_conv append_eq_Cons_conv)
  from eq have "(s @ c # t) @ c # i = (s' @ c # t') @ c # i'" by simp
  from last [OF this assms(2,4)] last [of s t s' t'] assms show "s = s' \<and> t = t' \<and> i = i'" by simp
qed simp

lemma NewResourceIdentity_parts:
  assumes "NewResourceIdentity to_ascii doc_url resourceType ident = Inr a"
  shows "CHR 0x00 \<notin> set (identity_type a) \<and> CHR 0x00 \<notin> set (identity_id a)"
  using assms identifier_no_nul [of ident]
  by (auto simp: NewResourceIdentity_def IsLocalResourceIdentifier_def localIdentifier_def res_simps
      split: if_splits)

text \<open>The key of an identity identifies it: of two identities that \<open>NewResourceIdentity\<close> made,
  whatever the URLs, the keys are equal exactly when the identities are.\<close>

theorem Key_identifies:
  assumes "NewResourceIdentity to_ascii doc_url resourceType ident = Inr a"
    and "NewResourceIdentity to_ascii' doc_url' resourceType' ident' = Inr b"
  shows "Key a = Key b \<longleftrightarrow> Equal a b"
  using NewResourceIdentity_parts [OF assms(1)] NewResourceIdentity_parts [OF assms(2)]
  by (cases a; cases b) (auto simp: Key_def Equal_def join3_inject)

theorem Key_identifies_witness:
  "Key \<lparr>identity_id = ''a'', identity_service = ''https://s.co'', identity_type = ''offering''\<rparr> =
     Key \<lparr>identity_id = ''b'', identity_service = ''https://s.co'', identity_type = ''offering''\<rparr> \<longleftrightarrow>
   Equal \<lparr>identity_id = ''a'', identity_service = ''https://s.co'', identity_type = ''offering''\<rparr>
     \<lparr>identity_id = ''b'', identity_service = ''https://s.co'', identity_type = ''offering''\<rparr>"
proof (rule Key_identifies)
  show "NewResourceIdentity Some ''https://s.co/d'' ''offering'' ''a'' =
      Inr \<lparr>identity_id = ''a'', identity_service = ''https://s.co'', identity_type = ''offering''\<rparr>"
    "NewResourceIdentity Some ''https://s.co/d'' ''offering'' ''b'' =
      Inr \<lparr>identity_id = ''b'', identity_service = ''https://s.co'', identity_type = ''offering''\<rparr>"
    by code_simp+
qed

end
