(* ===== verification/GoMime.thy ===== *)
theory GoMime
  imports GoStrings
begin

section \<open>Media types\<close>

text \<open>
  \<open>mime.ParseMediaType\<close>: the media type in lower case and its error.  The values of the parameters
  are not asked for, but a parameter that does not parse is an error; the media type is returned beside
  that error, and only that.
\<close>

definition tspecial :: "char \<Rightarrow> bool" where
  "tspecial c \<longleftrightarrow> c \<in> set ''()<>@,;:/[]?='' \<or> c = CHR 0x22 \<or> c = CHR 0x5C"

definition token_char :: "char \<Rightarrow> bool" where
  "token_char c \<longleftrightarrow> 32 < byte c \<and> byte c < 127 \<and> \<not> tspecial c"

definition consumeToken :: "string \<Rightarrow> string \<times> string" where
  "consumeToken v = (takeWhile token_char v, dropWhile token_char v)"

text \<open>The rest of a quoted string; \<open>None\<close> when it does not end.\<close>

fun consume_quoted :: "string \<Rightarrow> (string \<times> string) option" where
  "consume_quoted [] = None"
| "consume_quoted (c # v) =
     (if c = CHR 0x22 then Some ([], v)
      else if c = CHR 0x5C \<and> v \<noteq> [] \<and> tspecial (hd v) then
        (case v of
           d # v' \<Rightarrow> map_option (\<lambda>(s, rest). (d # s, rest)) (consume_quoted v')
         | [] \<Rightarrow> None)
      else if c = CHR 0x0D \<or> c = CHR 0x0A then None
      else map_option (\<lambda>(s, rest). (c # s, rest)) (consume_quoted v))"

definition consumeValue :: "string \<Rightarrow> string \<times> string" where
  "consumeValue v =
     (if v = [] then ([], [])
      else if hd v \<noteq> CHR 0x22 then consumeToken v
      else (case consume_quoted (tl v) of Some r \<Rightarrow> r | None \<Rightarrow> ([], v)))"

definition trim_left :: "string \<Rightarrow> string" where
  "trim_left s = concat (map snd (dropWhile (\<lambda>(r, _). is_space r) (rune_spans s)))"

definition consumeMediaParam :: "string \<Rightarrow> string \<times> string \<times> string" where
  "consumeMediaParam v =
     (let rest = trim_left v in
      if \<not> has_prefix rest '';'' then ([], [], v)
      else
        (case consumeToken (trim_left (tl rest)) of (param, rest) \<Rightarrow>
           if param = [] then ([], [], v)
           else if \<not> has_prefix (trim_left rest) ''='' then ([], [], v)
           else
             (let start = trim_left (tl (trim_left rest)) in
              case consumeValue start of (val, rest2) \<Rightarrow>
                if val = [] \<and> rest2 = start then ([], [], v) else (to_lower param, val, rest2))))"

definition checkMediaTypeDisposition :: "string \<Rightarrow> bool" where
  "checkMediaTypeDisposition s \<longleftrightarrow>
     (case consumeToken s of (typ, rest) \<Rightarrow>
        typ \<noteq> [] \<and>
        (rest = [] \<or>
         has_prefix rest ''/'' \<and>
           (case consumeToken (tl rest) of (subtype, rest) \<Rightarrow> subtype \<noteq> [] \<and> rest = [])))"

text \<open>The loop over the parameters; a parameter consumes at least its semicolon, so fuel of the length
  of the text is enough (\<open>params_fuel\<close>).  A parameter named twice with different values is an error; the pieces of a
  continued one (\<open>name*0\<close>) are kept by the name before the asterisk and the name itself.\<close>

datatype media_error = InvalidMediaParameter | InvalidMediaType

fun params_loop :: "nat \<Rightarrow> (string \<times> string) list \<Rightarrow> string \<Rightarrow> media_error option" where
  "params_loop 0 seen v = None"
| "params_loop (Suc n) seen v =
     (let v = trim_left v in
      if v = [] then None
      else
        (case consumeMediaParam v of (key, val, rest) \<Rightarrow>
           if key = [] then (if trim_space rest = '';'' then None else Some InvalidMediaParameter)
           else if \<exists>old\<in>set seen. fst old = key \<and> snd old \<noteq> val then Some InvalidMediaType
           else params_loop n ((key, val) # seen) rest))"

lemma trim_left_shorter: "length (trim_left s) \<le> length s"
proof -
  have "length (concat (map snd (dropWhile P rs))) \<le> length (concat (map snd rs))" for P and rs :: "(nat \<times> string) list"
    by (induction rs) auto
  then show ?thesis unfolding trim_left_def by (metis rune_spans_concat)
qed

lemma consumeToken_shorter: "length (snd (consumeToken v)) \<le> length v"
  by (simp add: consumeToken_def length_dropWhile_le)

lemma consume_quoted_shorter: "consume_quoted v = Some (s, rest) \<Longrightarrow> length rest \<le> length v"
proof (induction v arbitrary: s rest rule: consume_quoted.induct)
  case (2 c v)
  then show ?case by (fastforce split: if_splits list.splits)
qed simp

lemma consumeValue_shorter: "length (snd (consumeValue v)) \<le> length v"
  using consumeToken_shorter [of v] consume_quoted_shorter [of "tl v"]
  by (fastforce simp: consumeValue_def split: option.split)

lemma consumeMediaParam_shorter:
  assumes "consumeMediaParam v = (key, val, rest)" and "key \<noteq> []"
  shows "length rest < length v"
proof -
  let ?a = "trim_left v"
  let ?b = "snd (consumeToken (trim_left (tl ?a)))"
  let ?c = "trim_left (tl (trim_left ?b))"
  have "has_prefix ?a '';''" and "rest = snd (consumeValue ?c)"
    using assms by (auto simp: consumeMediaParam_def Let_def split: if_splits prod.splits)
  then show ?thesis
    using trim_left_shorter [of v] trim_left_shorter [of "tl ?a"] consumeToken_shorter [of "trim_left (tl ?a)"]
      trim_left_shorter [of ?b] trim_left_shorter [of "tl (trim_left ?b)"] consumeValue_shorter [of ?c]
    by (cases ?a) (auto simp: has_prefix_def)
qed

lemma params_fuel: "length v \<le> n \<Longrightarrow> params_loop n seen v = params_loop (length v) seen v"
proof (induction n arbitrary: v seen rule: less_induct)
  case (less n)
  show ?case
  proof (cases v)
    case Nil
    then show ?thesis by (cases n) (auto simp: trim_left_def)
  next
    case (Cons c u)
    then obtain m where n: "n = Suc m" "length u \<le> m" using less.prems by (cases n) auto
    obtain key val rest where p: "consumeMediaParam (trim_left v) = (key, val, rest)" by (metis prod_cases3)
    have "params_loop m s rest = params_loop (length u) s rest" if "key \<noteq> []" for s
    proof -
      have "length rest \<le> length u"
        using consumeMediaParam_shorter [OF p that] trim_left_shorter [of v] Cons by simp
      then have "params_loop m s rest = params_loop (length rest) s rest"
        and "params_loop (length u) s rest = params_loop (length rest) s rest"
        using n by (auto intro: less.IH)
      then show ?thesis by simp
    qed
    moreover have "length v = Suc (length u)" using Cons by simp
    ultimately show ?thesis
      using p unfolding n(1) by (simp only: params_loop.simps(2) Let_def prod.case) auto
  qed
qed

definition parse_media_type :: "string \<Rightarrow> string \<times> media_error option" where
  "parse_media_type v =
     (let base = takeWhile (\<lambda>c. c \<noteq> CHR '';'') v;
          mediatype = trim_space (to_lower base);
          failure = (if checkMediaTypeDisposition mediatype then params_loop (length v) [] (drop (length base) v)
                     else Some InvalidMediaType) in
      (if failure = Some InvalidMediaType then [] else mediatype, failure))"

definition ParseMediaType :: "string \<Rightarrow> string option" where
  "ParseMediaType v = (case parse_media_type v of (mediatype, failure) \<Rightarrow>
     if failure = None then Some mediatype else None)"

end
