(* ===== verification/Representation.thy ===== *)
theory Representation
  imports Additional Validation Negotiation References GoJsonText GoMime
begin

section \<open>What a Service may send\<close>

text \<open>
  The checks of \<open>service/service.go\<close> on what a catalog hands to the Service: resources, pages and
  their continuations.  A \<open>*service.Error\<close> is \<open>Problem\<close>, every other error of a handler is
  \<open>Unexpected\<close>.  An HTTP request is a record of what the code reads of it; a body is the bytes its
  reader delivers and whether the reader then fails.  Strings of Go values are taken to be valid
  UTF-8, as decoded ones are: \<open>encoded\<close> is \<open>json.Marshal\<close> followed by the decoder of the parser.
\<close>

definition Version :: string where "Version = ''1.0''"

definition maximumNextBytes :: nat where "maximumNextBytes = 2048"

definition maximumPageItems :: nat where "maximumPageItems = 100"

record problem =
  problem_code :: string
  problem_header :: "(string \<times> string list) list"
  problem_message :: string
  problem_status :: int

datatype service_error = Problem problem | Unexpected odp_error

record http_request =
  rq_method :: string
  rq_url :: url
  rq_header :: "string \<Rightarrow> string"
  rq_host :: string
  rq_tls :: bool
  rq_content_length :: int
  rq_body :: string
  rq_body_fails :: bool

record catalog_request =
  cr_cursor :: string
  cr_language :: string
  cr_limit :: int
  cr_representation :: string
  cr_request :: http_request

text \<open>The bytes of \<open>json.Marshal\<close> as the parser sees them.\<close>

definition encoded :: "gtype \<Rightarrow> gval \<Rightarrow> body" where
  "encoded t v = Decoded (marshal t v) EndOfInput"

text \<open>The bytes of a request as the parser sees them.  The texts of decoding errors are not modelled;
  none of them reaches a response.\<close>

definition read_json :: "string \<Rightarrow> body" where
  "read_json s =
     (case parse_value (2 * length s + 2) s of
        None \<Rightarrow> Undecodable ''invalid JSON''
      | Some (v, rest) \<Rightarrow>
          Decoded v
            (if skip_space rest = [] then EndOfInput
             else if parse_value (2 * length rest + 2) rest \<noteq> None then AnotherValue
             else TrailingError ''invalid JSON''))"

subsection \<open>Resources\<close>

definition validateOffering :: "schema_env \<Rightarrow> gval \<Rightarrow> string \<Rightarrow> odp_error + gval" where
  "validateOffering env offering representation =
     (let forValidation = set_field ''ODPVersion'' (GStr Version) offering in
      bind_res (ParseOffering env (encoded Offering_type forValidation)) (\<lambda>validated.
        if representation = ''terse'' \<and> list_field validated ''Actions'' \<noteq> [] then
          Inl (Text ''ODP Terse Offering cannot contain Actions'')
        else if first_repeat [] (map (\<lambda>a. str_field a ''ID'') (list_field validated ''Actions'')) \<noteq> None then
          Inl (Text ''ODP Offering Action identifiers must be unique'')
        else if representation = ''full'' \<and> list_field validated ''DetailFields'' \<noteq> [] then
          Inl (Text ''ODP Full Offering cannot contain detail_fields'')
        else Inr (set_field ''ODPVersion'' (GStr []) validated)))"

definition validateCollection :: "schema_env \<Rightarrow> gval \<Rightarrow> string \<Rightarrow> odp_error + gval" where
  "validateCollection env collection representation =
     (let forValidation = set_field ''ODPVersion'' (GStr Version) collection in
      bind_res (ParseCollection env (encoded Collection_type forValidation)) (\<lambda>validated.
        if representation = ''full'' \<and> list_field validated ''DetailFields'' \<noteq> [] then
          Inl (Text ''ODP Full Collection cannot contain detail_fields'')
        else Inr (set_field ''ODPVersion'' (GStr []) validated)))"

definition validateItems ::
  "gval list \<Rightarrow> string \<Rightarrow> (gval \<Rightarrow> string \<Rightarrow> odp_error + gval) \<Rightarrow> odp_error + gval list" where
  "validateItems items representation validate =
     (if length items > maximumPageItems then Inl (Text ''ODP page contains more than 100 items'')
      else map_res (\<lambda>item. validate item representation) items)"

subsection \<open>Continuations\<close>

definition statedPort :: "url \<Rightarrow> string" where
  "statedPort u =
     (let port = Port u in
      if (port = ''443'' \<and> equal_fold (scheme u) ''https'') \<or> (port = ''80'' \<and> equal_fold (scheme u) ''http'')
      then [] else port)"

definition sameAuthority :: "url \<Rightarrow> url \<Rightarrow> bool" where
  "sameAuthority left right \<longleftrightarrow>
     equal_fold (Hostname left) (Hostname right) \<and> statedPort left = statedPort right"

definition currentURL :: "http_request \<Rightarrow> url" where
  "currentURL request =
     (let u = rq_url request;
          sch = (if scheme u \<noteq> [] then scheme u else if rq_tls request then ''https'' else ''http'');
          h = (if rq_host request \<noteq> [] then rq_host request else host u) in
      empty_url\<lparr>host := h, url_path := url_path u, raw_path := raw_path u, raw_query := raw_query u,
        scheme := sch\<rparr>)"

definition requireContinuation :: "string \<Rightarrow> http_request \<Rightarrow> odp_error + unit" where
  "requireContinuation reference request =
     (if reference = [] then Inr ()
      else if length reference > maximumNextBytes then
        Inl (Text ''ODP continuation reference exceeds its length limit'')
      else if list_ex (\<lambda>r. r < 32 \<or> r > 126) (decode_runes reference) then
        Inl (Text ''ODP continuation reference must be printable ASCII'')
      else
        (case Parse reference of
           None \<Rightarrow> Inl (Text ''ODP continuation reference is not a valid reference'')
         | Some ref \<Rightarrow>
             (let current = currentURL request; resolved = ResolveReference current ref in
              if has_user resolved \<or> \<not> sameAuthority resolved current \<or>
                 \<not> (equal_fold (scheme resolved) ''https'' \<or> equal_fold (scheme resolved) (scheme current))
              then Inl (Text ''ODP continuation reference must remain on the Service origin'')
              else if EscapedPath resolved = EscapedPath current \<and> raw_query resolved = raw_query current
              then Inl (Text ''ODP continuation reference must advance past this request'')
              else Inr ())))"

text \<open>The loop over the groups, with the filters seen so far.\<close>

fun refinements_loop :: "string list \<Rightarrow> string list \<Rightarrow> string list \<Rightarrow> odp_error + unit" where
  "refinements_loop requested seen [] = Inr ()"
| "refinements_loop requested seen (filter_id # groups) =
     (if filter_id \<notin> set requested then
        Inl (Text (''ODP Offering search returned refinement '' @ filter_id @ '' that was not requested''))
      else if filter_id \<in> set seen then
        Inl (Text (''ODP Offering search returned refinement '' @ filter_id @ '' more than once''))
      else refinements_loop requested (filter_id # seen) groups)"

definition requireRefinements ::
  "gval list \<Rightarrow> catalog_request \<Rightarrow> string list \<Rightarrow> odp_error + unit" where
  "requireRefinements groups input requested =
     (if groups = [] then Inr ()
      else if cr_cursor input \<noteq> [] then
        Inl (Text ''ODP Offering search continuation cannot contain refinements'')
      else refinements_loop requested [] (map (\<lambda>g. str_field g ''FilterID'') groups))"

subsection \<open>Pages\<close>

definition with_items :: "gval \<Rightarrow> gval list \<Rightarrow> gval" where
  "with_items page items =
     set_field ''ODPVersion'' (GStr Version) (set_field ''Items'' (GSlice (Some items)) page)"

definition offeringPage :: "schema_env \<Rightarrow> gval \<Rightarrow> catalog_request \<Rightarrow> odp_error + gval" where
  "offeringPage env page input =
     bind_res (validateItems (list_field page ''Items'') (cr_representation input) (validateOffering env))
       (\<lambda>items.
     bind_res (requireContinuation (str_field page ''Next'') (cr_request input)) (\<lambda>_.
       ParsePage env Offering_type (encoded (Page_type Offering_type) (with_items page items))))"

definition collectionPage :: "schema_env \<Rightarrow> gval \<Rightarrow> catalog_request \<Rightarrow> odp_error + gval" where
  "collectionPage env page input =
     bind_res (validateItems (list_field page ''Items'') (cr_representation input) (validateCollection env))
       (\<lambda>items.
     bind_res (requireContinuation (str_field page ''Next'') (cr_request input)) (\<lambda>_.
       ParsePage env Collection_type (encoded (Page_type Collection_type) (with_items page items))))"

definition offeringSearchPage ::
  "schema_env \<Rightarrow> gval \<Rightarrow> catalog_request \<Rightarrow> string list \<Rightarrow> odp_error + gval" where
  "offeringSearchPage env page input requested =
     bind_res (validateItems (list_field page ''Items'') (cr_representation input) (validateOffering env))
       (\<lambda>items.
     bind_res (requireContinuation (str_field page ''Next'') (cr_request input)) (\<lambda>_.
     bind_res (requireRefinements (list_field page ''Refinements'') input requested) (\<lambda>_.
       ParseOfferingSearchResponse env
         (encoded (OfferingPage_type Offering_type) (with_items page items)))))"

subsection \<open>Checking a resource changes its version and nothing else\<close>

lemma update_fst: "k \<in> fst ` set d \<Longrightarrow> map fst (AList.update k v d) = map fst d"
  by (simp add: update_keys)

lemma field_value_update [simp]:
  "field_value (AList.update k v d) k' = (if k' = k then v else field_value d k')"
  by (simp add: field_value_def)

text \<open>A field other than \<open>Additional\<close> can be set to any value its type can hold.\<close>

lemma canonical_set_field:
  assumes "canonical (TStruct fs) v" and field: "(name, tag, t) \<in> set fs" and "wf_type (TStruct fs)"
    and "if omitted tag x then x = zero t else canonical t x" and "name \<noteq> ''Additional''"
  shows "canonical (TStruct fs) (set_field name x v)"
proof -
  from assms(1) obtain vals where v: "v = GStruct vals" and names: "map fst vals = map fst fs"
    by (cases v) auto
  have "distinct (map fst fs)" using assms(3) by (simp add: wf_fields_def)
  then have own: "tag' = tag \<and> t' = t" if "(name, tag', t') \<in> set fs" for tag' t'
    using field that by (metis eq_key_imp_eq_value prod.inject)
  have "name \<in> fst ` set vals"
    using field names by (metis fst_conv image_eqI list.set_map)
  then have "map fst (AList.update name x vals) = map fst fs"
    using names by (simp add: update_fst)
  moreover have "if omitted tag' (field_value (AList.update name x vals) name')
      then field_value (AList.update name x vals) name' = zero t'
      else canonical t' (field_value (AList.update name x vals) name')"
    if "(name', tag', t') \<in> set fs" for name' tag' t'
    using that own assms(1,4) unfolding v by (fastforce simp: list_all_iff)
  ultimately show ?thesis
    using assms(1,5) unfolding v set_field_def by (fastforce simp: list_all_iff)
qed

lemma resource_types_wf: "wf_type Offering_type" "wf_type Collection_type"
    "wf_type (Page_type Offering_type)" "wf_type (Page_type Collection_type)"
    "wf_type (OfferingPage_type Offering_type)"
  using model_types_wf by (simp_all add: list_all_iff model_types_def)

lemma no_option_omitzero: "\<not> tag_option ''odp_version'' opt" "\<not> tag_option ''items'' opt"
  by (simp_all add: tag_option_def)

lemma version_tag: "omitted ''odp_version,omitempty'' (GStr s) \<longrightarrow> GStr s = zero TString"
  by (auto simp: omitted_def tag_option_def)

lemma canonical_version:
  assumes "t = Offering_type \<or> t = Collection_type" and "canonical t v"
  shows "canonical t (set_field ''ODPVersion'' (GStr s) v)"
proof -
  obtain fs where fs: "t = TStruct fs" "(''ODPVersion'', ''odp_version,omitempty'', TString) \<in> set fs"
    using assms(1) by (auto simp: Offering_type_def Collection_type_def)
  have "wf_type t" using assms(1) resource_types_wf by (auto simp del: wf_type.simps)
  then have "wf_type (TStruct fs)" by (simp only: fs(1))
  with assms(2) fs version_tag [of s] show ?thesis
    by (auto intro!: canonical_set_field [OF _ fs(2)] simp del: canonical.simps(10))
qed

lemma set_field_twice [simp]: "set_field name x (set_field name y v) = set_field name x v"
  by (cases v) (simp_all add: set_field_def)

lemma list_field_set_field: "name' \<noteq> name \<Longrightarrow> list_field (set_field name x v) name' = list_field v name'"
  by (simp add: list_field_def field_of_set_field)

text \<open>The bundled schema of that name accepts the document.\<close>

definition schema_accepts :: "schema_env \<Rightarrow> string \<Rightarrow> json \<Rightarrow> bool" where
  "schema_accepts env name raw \<longleftrightarrow>
     (case load_schemas env of
        Inl _ \<Rightarrow> False
      | Inr schemas \<Rightarrow>
          (case schemas (schemaOrigin @ name) of None \<Rightarrow> False | Some validate \<Rightarrow> validate raw = Valid))"

lemma parse_encoded_iff:
  assumes "wf_type t" and "canonical t v"
  shows "parseJSON env t (encoded t v) name doc refine = Inr w \<longleftrightarrow>
    w = v \<and> schema_accepts env name (marshal t v) \<and> (case refine of None \<Rightarrow> True | Some f \<Rightarrow> f v = [])"
  using round_trip [OF assms]
  by (auto simp: parseJSON_Inr encoded_def schema_accepts_def split: option.splits sum.splits verdict.splits)

lemma validateOffering_canonical:
  assumes "canonical Offering_type offering"
  shows "validateOffering env offering representation = Inr v \<longleftrightarrow>
    v = set_field ''ODPVersion'' (GStr []) offering \<and>
    schema_accepts env ''offering.schema.json''
      (marshal Offering_type (set_field ''ODPVersion'' (GStr Version) offering)) \<and>
    representationIssues env (set_field ''ODPVersion'' (GStr Version) offering) = [] \<and>
    (representation = ''terse'' \<longrightarrow> list_field offering ''Actions'' = []) \<and>
    distinct (map (\<lambda>a. str_field a ''ID'') (list_field offering ''Actions'')) \<and>
    (representation = ''full'' \<longrightarrow> list_field offering ''DetailFields'' = [])"
  using parse_encoded_iff [OF resource_types_wf(1) canonical_version [of Offering_type offering Version],
      of env "''offering.schema.json''" "''Offering''" "Some (representationIssues env)"] assms
  by (auto simp: validateOffering_def ParseOffering_def res_simps list_field_set_field Let_def
      first_repeat_None)

text \<open>A Service accepts an Offering as an item or a resource exactly when, with the protocol
  version in it, the schema accepts what it encodes to and the representation has no issue, the
  terse form has no Actions, no two Actions share an identifier and the full form has no
  \<open>detail_fields\<close>; what it goes on with is the same Offering without the version.\<close>

theorem validateOffering_iff:
  assumes "canonical Offering_type offering"
  shows "validateOffering env offering representation = Inr v \<longleftrightarrow>
    v = set_field ''ODPVersion'' (GStr []) offering \<and>
    schema_accepts env ''offering.schema.json''
      (marshal Offering_type (set_field ''ODPVersion'' (GStr Version) offering)) \<and>
    representationIssues env (set_field ''ODPVersion'' (GStr Version) offering) = [] \<and>
    (representation = ''terse'' \<longrightarrow> list_field offering ''Actions'' = []) \<and>
    distinct (map (\<lambda>a. str_field a ''ID'') (list_field offering ''Actions'')) \<and>
    (representation = ''full'' \<longrightarrow> list_field offering ''DetailFields'' = [])"
  by (rule validateOffering_canonical [OF assms])

lemma validateCollection_canonical:
  assumes "canonical Collection_type collection"
  shows "validateCollection env collection representation = Inr v \<longleftrightarrow>
    v = set_field ''ODPVersion'' (GStr []) collection \<and>
    schema_accepts env ''collection.schema.json''
      (marshal Collection_type (set_field ''ODPVersion'' (GStr Version) collection)) \<and>
    representationIssues env (set_field ''ODPVersion'' (GStr Version) collection) = [] \<and>
    (representation = ''full'' \<longrightarrow> list_field collection ''DetailFields'' = [])"
  using parse_encoded_iff [OF resource_types_wf(2) canonical_version [of Collection_type collection Version],
      of env "''collection.schema.json''" "''Collection''" "Some (representationIssues env)"] assms
  by (auto simp: validateCollection_def ParseCollection_def res_simps list_field_set_field Let_def)

definition example_offering :: gval where
  "example_offering = set_field ''Name'' (GStr ''Tea'') (set_field ''ID'' (GStr ''tea'') (zero Offering_type))"

lemma example_offering_canonical: "canonical Offering_type example_offering"
  by code_simp

text \<open>A fact about the example.\<close>

lemma example_offering_fields:
  "list_field example_offering ''Actions'' = []" "list_field example_offering ''DetailFields'' = []"
  "representationIssues lenient_env (set_field ''ODPVersion'' (GStr Version) example_offering) = []"
  by code_simp+

lemma example_offering_valid:
  "validateOffering lenient_env example_offering ''full''
     = Inr (set_field ''ODPVersion'' (GStr []) example_offering)"
  using validateOffering_canonical [OF example_offering_canonical, of lenient_env "''full''"]
    example_offering_fields
  by (simp add: schema_accepts_def lenient_env_def)

theorem validateOffering_iff_witness:
  "validateOffering lenient_env example_offering ''full''
     = Inr (set_field ''ODPVersion'' (GStr []) example_offering)"
  using validateOffering_iff [OF example_offering_canonical, of lenient_env "''full''"]
    example_offering_fields
  by (simp add: schema_accepts_def lenient_env_def)

subsection \<open>Checking a page\<close>

lemma map_res_function:
  assumes "\<And>x y. x \<in> set xs \<Longrightarrow> f x = Inr y \<Longrightarrow> y = g x"
  shows "map_res f xs = Inr ys \<longleftrightarrow> ys = map g xs \<and> list_all (\<lambda>x. \<not> isl (f x)) xs"
  using assms
proof (induction xs arbitrary: ys)
  case (Cons x xs)
  then show ?case by (cases "f x") (auto simp: res_simps)
qed auto

definition unversioned :: "gval \<Rightarrow> gval" where
  "unversioned v = set_field ''ODPVersion'' (GStr []) v"

lemma canonical_page:
  assumes "item = Offering_type \<or> item = Collection_type" and "canonical (Page_type item) page"
    and "list_all (\<lambda>v. canonical item v) items"
  shows "canonical (Page_type item) (with_items page items)"
proof -
  let ?fs = "[(''Additional'', ''-'', TMap), (''AuthExpands'', ''auth_expands,omitempty'', TBool),
     (''Items'', ''items'', TSlice item), (''Next'', ''next,omitempty'', TString),
     (''ODPVersion'', ''odp_version'', TString)]"
  have fs: "Page_type item = TStruct ?fs" by (simp add: Page_type_def)
  have "wf_type (Page_type item)" using assms(1) resource_types_wf by (auto simp del: wf_type.simps)
  then have wf: "wf_type (TStruct ?fs)" by (simp only: fs)
  have "canonical (TStruct ?fs) (set_field ''Items'' (GSlice (Some items)) page)"
    by (rule canonical_set_field [OF _ _ wf, of _ _ "''items''" "TSlice item"])
      (use assms(2,3) in \<open>simp_all only: fs\<close>, simp_all add: omitted_def no_option_omitzero)
  then have "canonical (TStruct ?fs) (with_items page items)"
    unfolding with_items_def
    by (rule canonical_set_field [OF _ _ wf, of _ _ "''odp_version''" TString])
      (simp_all add: omitted_def no_option_omitzero)
  then show ?thesis by (simp only: fs)
qed

lemma page_items_canonical:
  assumes "canonical (Page_type item) page"
  shows "list_all (\<lambda>v. canonical item v) (list_field page ''Items'')"
proof -
  from assms obtain vals where v: "page = GStruct vals" by (cases page) (auto simp: Page_type_def)
  with assms have "canonical (TSlice item) (field_value vals ''Items'')"
    by (simp add: Page_type_def omitted_def no_option_omitzero)
  then show ?thesis
    by (simp add: v list_field_def field_of_def split: gval.splits option.splits)
qed

lemma offeringPage_canonical:
  assumes "canonical (Page_type Offering_type) page"
  shows "offeringPage env page input = Inr p \<longleftrightarrow>
    p = with_items page (map unversioned (list_field page ''Items'')) \<and>
    length (list_field page ''Items'') \<le> 100 \<and>
    list_all (\<lambda>item. \<not> isl (validateOffering env item (cr_representation input))) (list_field page ''Items'') \<and>
    requireContinuation (str_field page ''Next'') (cr_request input) = Inr () \<and>
    schema_accepts env ''page-envelope.schema.json'' (marshal (Page_type Offering_type) p)"
proof -
  let ?items = "list_field page ''Items''"
  have items: "list_all (canonical Offering_type) ?items"
    using page_items_canonical [OF assms] .
  have checked: "validateItems ?items r (validateOffering env) = Inr vs \<longleftrightarrow>
      length ?items \<le> 100 \<and> vs = map unversioned ?items \<and>
      list_all (\<lambda>item. \<not> isl (validateOffering env item r)) ?items" for r vs
    unfolding validateItems_def maximumPageItems_def
    using map_res_function [of ?items "\<lambda>i. validateOffering env i r" unversioned vs] items
    by (auto simp: list_all_iff validateOffering_canonical unversioned_def)
  have "canonical Offering_type (unversioned item)" if "item \<in> set ?items" for item
    using items that by (simp add: list_all_iff unversioned_def canonical_version)
  then have "canonical (Page_type Offering_type) (with_items page (map unversioned ?items))"
    by (intro canonical_page) (use assms in \<open>simp_all add: list_all_iff\<close>)
  from parse_encoded_iff [OF resource_types_wf(3) this, of env _ _ None] checked show ?thesis
    by (auto simp: offeringPage_def ParsePage_def res_simps)
qed

text \<open>A Service sends a page of Offerings exactly when it has at most 100 items, each acceptable in
  the representation asked for, its continuation is one an Agent may follow and the envelope as
  sent satisfies the schema; what it sends is the catalog's page with the versions moved from the
  items to the envelope.\<close>

theorem offeringPage_iff:
  assumes "canonical (Page_type Offering_type) page"
  shows "offeringPage env page input = Inr p \<longleftrightarrow>
    p = with_items page (map unversioned (list_field page ''Items'')) \<and>
    length (list_field page ''Items'') \<le> 100 \<and>
    list_all (\<lambda>item. \<not> isl (validateOffering env item (cr_representation input))) (list_field page ''Items'') \<and>
    requireContinuation (str_field page ''Next'') (cr_request input) = Inr () \<and>
    schema_accepts env ''page-envelope.schema.json'' (marshal (Page_type Offering_type) p)"
  by (rule offeringPage_canonical [OF assms])

definition example_request :: catalog_request where
  "example_request =
     \<lparr>cr_cursor = [], cr_language = [], cr_limit = 0, cr_representation = ''full'',
      cr_request = \<lparr>rq_method = ''GET'', rq_url = empty_url\<lparr>url_path := ''/odp/offerings''\<rparr>,
        rq_header = (\<lambda>_. []), rq_host = ''shop.example'', rq_tls = True, rq_content_length = 0,
        rq_body = [], rq_body_fails = False\<rparr>\<rparr>"

definition example_page :: gval where
  "example_page = set_field ''Items'' (GSlice (Some [example_offering])) (zero (Page_type Offering_type))"

theorem offeringPage_iff_witness:
  "offeringPage lenient_env example_page example_request
     = Inr (with_items example_page [unversioned example_offering])"
proof -
  have "canonical (Page_type Offering_type) example_page" by code_simp
  moreover have "list_field example_page ''Items'' = [example_offering]" "str_field example_page ''Next'' = []"
    by (simp_all add: example_page_def list_field_def str_field_def field_of_def set_field_def Page_type_def
        field_value_def)
  moreover have "\<not> isl (validateOffering lenient_env example_offering (cr_representation example_request))"
    by (simp add: example_request_def example_offering_valid)
  ultimately show ?thesis
    using offeringPage_iff [of example_page lenient_env example_request]
    by (simp add: schema_accepts_def lenient_env_def requireContinuation_def)
qed

end
