(* ===== verification/Requests.thy ===== *)
theory Requests
  imports Representation
begin

section \<open>What a Service reads of a request\<close>

text \<open>
  The request side of \<open>service/service.go\<close>: methods, identifiers in paths, \<open>limit\<close>, \<open>cursor\<close> and
  \<open>representation\<close> in the query, and the body of a search.  The one part of the Service they read is
  the language and the localizations of its document.
\<close>

definition MaximumRequestBodyBytes :: nat where "MaximumRequestBodyBytes = 65536"

definition maximumResourceDepth :: nat where "maximumResourceDepth = 16"

definition requestError :: "int \<Rightarrow> string \<Rightarrow> string \<Rightarrow> service_error" where
  "requestError status code text =
     Problem \<lparr>problem_code = code, problem_header = [], problem_message = text, problem_status = status\<rparr>"

definition invalid_request :: "string \<Rightarrow> service_error" where
  "invalid_request text = requestError 400 ''INVALID_REQUEST'' text"

definition notFound :: service_error where
  "notFound = requestError 404 ''NOT_FOUND'' ''ODP resource not found''"

definition unsupported :: "string \<Rightarrow> service_error" where
  "unsupported operation = requestError 404 ''NOT_FOUND'' (operation @ '' is not supported'')"

text \<open>\<open>invalidRequest\<close>: the text of a validation error names the document and nothing of its issues.\<close>

definition invalidRequest :: "odp_error \<Rightarrow> service_error" where
  "invalidRequest err =
     (case err of
        ValidationError _ _ \<Rightarrow> invalid_request (error_text err)
      | Text _ \<Rightarrow> invalid_request ''ODP request body is invalid'')"

definition requireMethod :: "string \<Rightarrow> bool \<Rightarrow> service_error + unit" where
  "requireMethod verb post =
     (if verb = ''GET'' \<or> (post \<and> verb = ''POST'') then Inr ()
      else
        (let allow = (if post then ''GET, HEAD, POST'' else ''GET, HEAD'') in
         Inl (Problem \<lparr>problem_code = ''METHOD_NOT_ALLOWED'', problem_header = [(''Allow'', [allow])],
           problem_message = ''ODP operation requires '' @ allow, problem_status = 405\<rparr>)))"

subsection \<open>Paths\<close>

definition identifier_segment :: "string \<Rightarrow> service_error + string option" where
  "identifier_segment v =
     (if \<not> IsLocalResourceIdentifier v then Inl (invalid_request ''Resource identifier is malformed'')
      else Inr (Some v))"

definition resourceID :: "string \<Rightarrow> string \<Rightarrow> service_error + string option" where
  "resourceID p start =
     (if \<not> has_prefix p start then Inr None
      else
        (let suffix = trim_prefix p start in
         if suffix = [] \<or> CHR ''/'' \<in> set suffix then Inr None else identifier_segment suffix))"

definition collectionOfferingID :: "string \<Rightarrow> service_error + string option" where
  "collectionOfferingID p =
     (if \<not> has_prefix p ''/collections/'' \<or> \<not> has_suffix p ''/offerings'' \<or>
         length p \<le> length ''/collections/'' + length ''/offerings''
      then Inr None
      else
        (let ident = trim_suffix (trim_prefix p ''/collections/'') ''/offerings'' in
         if ident = [] \<or> CHR ''/'' \<in> set ident then Inr None else identifier_segment ident))"

subsection \<open>Queries\<close>

definition limitValue :: "string \<Rightarrow> bool" where
  "limitValue s \<longleftrightarrow> 1 \<le> length s \<and> length s \<le> 3 \<and> list_all is_digit s"

definition limit_error :: service_error where
  "limit_error = invalid_request ''limit must be an integer from 1 through 100''"

definition queryLimit :: "query_values \<Rightarrow> string \<Rightarrow> service_error + int" where
  "queryLimit query verb =
     (let vs = query_get query ''limit'' in
      if verb = ''POST'' then
        (if vs \<noteq> [] then Inl (invalid_request ''A POST search carries limit as a request-body member'')
         else Inr 0)
      else if length vs > 1 then Inl (invalid_request ''limit must not be repeated'')
      else if vs = [] then Inr 0
      else if \<not> limitValue (hd vs) then Inl limit_error
      else
        (let limit = int (decimal_value (hd vs)) in
         if limit < 1 \<or> limit > int maximumPageItems then Inl limit_error else Inr limit))"

definition catalogRequest ::
  "gval \<Rightarrow> http_request \<Rightarrow> string \<Rightarrow> string \<Rightarrow> service_error + catalog_request" where
  "catalogRequest document request verb defaultRepresentation =
     (let query = ParseQuery (raw_query (rq_url request));
          representations = query_get query ''representation'';
          representation = (if length representations = 1 then hd representations else defaultRepresentation);
          cursors = query_get query ''cursor'' in
      if length representations > 1 then Inl (invalid_request ''representation must not be repeated'')
      else if representation \<noteq> ''terse'' \<and> representation \<noteq> ''full'' then
        Inl (invalid_request ''representation must be terse or full'')
      else
        bind_res (queryLimit query verb) (\<lambda>limit.
          if length cursors > 1 then Inl (invalid_request ''cursor must not be repeated'')
          else
            Inr \<lparr>cr_cursor = (if length cursors = 1 then hd cursors else []),
              cr_language = selectLanguage (rq_header request ''Accept-Language'')
                (str_field document ''Language'') (strs_field document ''Localizations''),
              cr_limit = limit, cr_representation = representation, cr_request = request\<rparr>))"

subsection \<open>Bodies\<close>

text \<open>\<open>io.ReadAll\<close> of a \<open>LimitReader\<close>: the reader's error is met only within the limit.\<close>

definition read_limited :: "nat \<Rightarrow> http_request \<Rightarrow> string option" where
  "read_limited n request =
     (if length (rq_body request) \<ge> n then Some (take n (rq_body request))
      else if rq_body_fails request then None else Some (rq_body request))"

definition first_value :: "body \<Rightarrow> json option" where
  "first_value b = (case b of Undecodable _ \<Rightarrow> None | Decoded v _ \<Rightarrow> Some v)"

definition readRequestBody :: "http_request \<Rightarrow> service_error + string" where
  "readRequestBody request =
     (if (case ParseMediaType (rq_header request ''Content-Type'') of
            None \<Rightarrow> True | Some contentType \<Rightarrow> \<not> equal_fold contentType MediaType)
      then Inl (requestError 415 ''UNSUPPORTED_MEDIA_TYPE'' (''Content-Type must be '' @ MediaType))
      else if rq_content_length request > int MaximumRequestBodyBytes then
        Inl (requestError 413 ''REQUEST_TOO_LARGE'' ''ODP request body exceeds its byte limit'')
      else
        (case read_limited (MaximumRequestBodyBytes + 1) request of
           None \<Rightarrow> Inl (invalid_request ''ODP request body is invalid'')
         | Some data \<Rightarrow>
             if length data > MaximumRequestBodyBytes then
               Inl (requestError 413 ''REQUEST_TOO_LARGE'' ''ODP request body exceeds its byte limit'')
             else if \<not> utf8_valid data then
               Inl (invalid_request ''ODP request body must use UTF-8'')
             else if Depth (first_value (read_json data)) > maximumResourceDepth then
               Inl (invalid_request ''ODP request body exceeds its JSON depth limit'')
             else Inr data))"

subsection \<open>Bounds\<close>

lemma queryLimit_Inr:
  "queryLimit query verb = Inr n \<longleftrightarrow>
     query_get query ''limit'' = [] \<and> n = 0 \<or>
     verb \<noteq> ''POST'' \<and> list_ex (\<lambda>v. query_get query ''limit'' = [v] \<and> limitValue v \<and>
       n = int (decimal_value v) \<and> 1 \<le> n \<and> n \<le> 100) (query_get query ''limit'')"
proof (cases "query_get query ''limit''")
  case (Cons v vs)
  then show ?thesis by (cases vs) (auto simp: queryLimit_def Let_def maximumPageItems_def list_ex_iff)
qed (auto simp: queryLimit_def)

text \<open>The page size a request may ask for is from 1 through 100, written once, in the query of a GET
  and never of a POST; every other \<open>limit\<close> is refused, and none is 0, the default.\<close>

theorem queryLimit_iff:
  "queryLimit query verb = Inr n \<longleftrightarrow>
     query_get query ''limit'' = [] \<and> n = 0 \<or>
     verb \<noteq> ''POST'' \<and> list_ex (\<lambda>v. query_get query ''limit'' = [v] \<and> limitValue v \<and>
       n = int (decimal_value v) \<and> 1 \<le> n \<and> n \<le> 100) (query_get query ''limit'')"
  by (rule queryLimit_Inr)

lemma ParseMediaType_odp: "ParseMediaType MediaType = Some MediaType"
proof -
  have "to_lower MediaType = MediaType" "checkMediaTypeDisposition MediaType" by code_simp+
  moreover have "trim_space MediaType = MediaType"
    by (rule trim_space_no_space) (simp_all add: MediaType_def ascii_def is_space_def)
  moreover have "params_loop (length MediaType) [] [] = None"
    by (simp add: MediaType_def trim_left_def)
  ultimately show ?thesis
    unfolding ParseMediaType_def parse_media_type_def Let_def by (simp add: MediaType_def)
qed

text \<open>A search body that is read is all the client sent, at most 65536 bytes of valid UTF-8 that nest
  no deeper than 16; a longer one is refused whatever length its header claims.\<close>

theorem readRequestBody_bounds:
  assumes "readRequestBody request = Inr data"
  shows "data = rq_body request \<and> length data \<le> 65536 \<and> utf8_valid data \<and>
    Depth (first_value (read_json data)) \<le> 16"
  using assms
  by (auto simp: readRequestBody_def read_limited_def MaximumRequestBodyBytes_def maximumResourceDepth_def
      split: if_splits option.splits)

theorem readRequestBody_bounds_witness:
  "''{}'' = rq_body (cr_request example_request\<lparr>rq_body := ''{}''\<rparr>) \<and> length ''{}'' \<le> 65536 \<and>
   utf8_valid ''{}'' \<and> Depth (first_value (read_json ''{}'')) \<le> 16"
proof -
  let ?request = "cr_request example_request\<lparr>rq_body := ''{}'', rq_header := (\<lambda>_. MediaType)\<rparr>"
  note ParseMediaType_odp
  moreover have "utf8_valid ''{}''" by (simp add: utf8_valid_ascii ascii_def)
  moreover have "Depth (first_value (read_json ''{}'')) = 1" by code_simp
  ultimately have "readRequestBody ?request = Inr ''{}''"
    by (simp add: readRequestBody_def read_limited_def MaximumRequestBodyBytes_def maximumResourceDepth_def
        example_request_def)
  from readRequestBody_bounds [OF this] show ?thesis by simp
qed

end
