(* ===== verification/GoHash.thy ===== *)
theory GoHash
  imports GoStrings "HOL-Library.Word"
begin

section \<open>Digests\<close>

text \<open>
  \<open>crypto/sha256\<close> and \<open>crypto/hmac\<close>, from FIPS 180-4 and RFC 2104 (constants in decimal): a message is padded to blocks of
  sixteen \<open>32 word\<close>s and folded through 64 rounds; a byte is a character.
\<close>

unbundle bit_operations_syntax

definition sha256_constants :: "32 word list" where
  "sha256_constants = [
     1116352408, 1899447441, 3049323471, 3921009573, 961987163, 1508970993, 2453635748, 2870763221,
     3624381080, 310598401, 607225278, 1426881987, 1925078388, 2162078206, 2614888103, 3248222580,
     3835390401, 4022224774, 264347078, 604807628, 770255983, 1249150122, 1555081692, 1996064986,
     2554220882, 2821834349, 2952996808, 3210313671, 3336571891, 3584528711, 113926993, 338241895,
     666307205, 773529912, 1294757372, 1396182291, 1695183700, 1986661051, 2177026350, 2456956037,
     2730485921, 2820302411, 3259730800, 3345764771, 3516065817, 3600352804, 4094571909, 275423344,
     430227734, 506948616, 659060556, 883997877, 958139571, 1322822218, 1537002063, 1747873779,
     1955562222, 2024104815, 2227730452, 2361852424, 2428436474, 2756734187, 3204031479, 3329325298]"

definition sha256_initial :: "32 word list" where
  "sha256_initial = [
     1779033703, 3144134277, 1013904242, 2773480762, 1359893119, 2600822924, 528734635, 1541459225]"

definition rotr :: "nat \<Rightarrow> 32 word \<Rightarrow> 32 word" where
  "rotr n x = (drop_bit n x) OR (push_bit (32 - n) x)"

definition big_endian :: "nat \<Rightarrow> nat \<Rightarrow> string" where
  "big_endian width n = map (\<lambda>i. char_of (n div 256 ^ i mod 256)) (rev [0..<width])"

definition word_of_bytes :: "string \<Rightarrow> 32 word" where
  "word_of_bytes s = of_nat (foldl (\<lambda>n c. 256 * n + byte c) 0 s)"

fun chunks :: "nat \<Rightarrow> nat \<Rightarrow> 'a list \<Rightarrow> 'a list list" where
  "chunks 0 width xs = []"
| "chunks (Suc n) width xs = take width xs # chunks n width (drop width xs)"

definition pad_message :: "string \<Rightarrow> string" where
  "pad_message s =
     s @ char_of (128 :: nat) # replicate ((119 - length s mod 64) mod 64) (char_of (0 :: nat)) @
       big_endian 8 (8 * length s)"

text \<open>The message schedule, sixteen words at first and 48 more from the last sixteen.\<close>

definition schedule_word :: "32 word list \<Rightarrow> 32 word" where
  "schedule_word w =
     (let n = length w; x = w ! (n - 15); y = w ! (n - 2) in
      w ! (n - 16) + (rotr 7 x XOR rotr 18 x XOR drop_bit 3 x) + w ! (n - 7) +
        (rotr 17 y XOR rotr 19 y XOR drop_bit 10 y))"

definition schedule :: "32 word list \<Rightarrow> 32 word list" where
  "schedule block = ((\<lambda>w. w @ [schedule_word w]) ^^ 48) block"

fun sha256_round :: "32 word list \<Rightarrow> 32 word \<times> 32 word \<Rightarrow> 32 word list" where
  "sha256_round [a, b, c, d, e, f, g, h] (k, w) =
     (let t1 = h + (rotr 6 e XOR rotr 11 e XOR rotr 25 e) + ((e AND f) XOR (NOT e AND g)) + k + w;
          t2 = (rotr 2 a XOR rotr 13 a XOR rotr 22 a) + ((a AND b) XOR (a AND c) XOR (b AND c)) in
      [t1 + t2, a, b, c, d + t1, e, f, g])"
| "sha256_round state _ = state"

definition sha256_block :: "32 word list \<Rightarrow> 32 word list \<Rightarrow> 32 word list" where
  "sha256_block state block =
     map2 (+) state (foldl sha256_round state (zip sha256_constants (schedule block)))"

definition sha256 :: "string \<Rightarrow> string" where
  "sha256 s =
     (let padded = pad_message s;
          blocks = map (\<lambda>b. map word_of_bytes (chunks 16 4 b)) (chunks (length padded div 64) 64 padded) in
      concat (map (\<lambda>w. big_endian 4 (unat w)) (foldl sha256_block sha256_initial blocks)))"

definition xor_byte :: "nat \<Rightarrow> char \<Rightarrow> char" where
  "xor_byte n c = char_of (unat ((of_nat n :: 8 word) XOR of_nat (byte c)))"

definition hmac_sha256 :: "string \<Rightarrow> string \<Rightarrow> string" where
  "hmac_sha256 key payload =
     (let key = (if length key > 64 then sha256 key else key);
          key = key @ replicate (64 - length key) (char_of (0 :: nat)) in
      sha256 (map (xor_byte 92) key @ sha256 (map (xor_byte 54) key @ payload)))"

lemma sha256_round_length: "length state = 8 \<Longrightarrow> length (sha256_round state kw) = 8"
  by (cases kw; cases "(state, kw)" rule: sha256_round.cases) (simp_all add: Let_def)

lemma sha256_rounds_length: "length state = 8 \<Longrightarrow> length (foldl sha256_round state kws) = 8"
  by (induction kws arbitrary: state) (simp_all add: sha256_round_length)

lemma sha256_block_length: "length state = 8 \<Longrightarrow> length (sha256_block state block) = 8"
  by (simp add: sha256_block_def sha256_rounds_length)

text \<open>A digest has 32 bytes.\<close>

lemma sha256_length: "length (sha256 s) = 32"
proof -
  have fold: "length (foldl sha256_block state blocks) = 8" if "length state = 8" for state blocks
    using that by (induction blocks arbitrary: state) (simp_all add: sha256_block_length)
  have "length (concat (map (\<lambda>w. big_endian 4 (unat w)) ws)) = 4 * length ws" for ws :: "32 word list"
    by (induction ws) (simp_all add: big_endian_def)
  then show ?thesis by (simp add: sha256_def Let_def fold sha256_initial_def)
qed

lemma hmac_sha256_length: "length (hmac_sha256 key payload) = 32"
  by (simp add: hmac_sha256_def Let_def sha256_length)

end
