(* ===== verification/StaticCatalog.thy ===== *)
theory StaticCatalog
  imports Requests GoHash
begin

section \<open>The static catalog\<close>

text \<open>
  \<open>service/static_catalog.go\<close>: a catalog over lists of Collections and Offerings, paged by signed
  continuations.  The handlers of a \<open>Catalog\<close> are functions of what they are called with (a request
  makes one call at most); \<open>None\<close> is a nil handler.  Those of a static catalog also read the clock,
  \<open>now\<close>, in Unix seconds, and \<open>fresh\<close> is what \<open>rand.Read\<close> gave, \<open>None\<close> its error.
\<close>

record catalog =
  GetCollection :: "(string \<Rightarrow> catalog_request \<Rightarrow> service_error + gval option) option"
  GetOffering :: "(string \<Rightarrow> catalog_request \<Rightarrow> service_error + gval option) option"
  ListCollectionOfferings :: "(string \<Rightarrow> catalog_request \<Rightarrow> service_error + gval) option"
  ListCollections :: "(catalog_request \<Rightarrow> service_error + gval) option"
  ListOfferings :: "(catalog_request \<Rightarrow> service_error + gval) option"
  SearchCollections :: "(gval option \<Rightarrow> catalog_request \<Rightarrow> service_error + gval) option"
  SearchOfferings :: "(gval option \<Rightarrow> catalog_request \<Rightarrow> service_error + gval) option"

definition defaultPageLimit :: int where "defaultPageLimit = 50"

definition continuationLifetime :: int where "continuationLifetime = 3600"

definition staticContinuation_type :: gtype where
  "staticContinuation_type = TStruct [
     (''ExpiresAt'', ''expires_at'', TInt),
     (''Language'', ''language'', TString),
     (''Limit'', ''limit'', TInt),
     (''Offset'', ''offset'', TInt),
     (''Representation'', ''representation'', TString),
     (''Target'', ''target'', TString)]"

subsection \<open>Signed continuations\<close>

definition target :: "catalog_request \<Rightarrow> string" where
  "target request = EscapedPath (rq_url (cr_request request))"

definition continuationExpiry :: "int \<Rightarrow> int" where
  "continuationExpiry now =
     now div continuationLifetime * continuationLifetime + 2 * continuationLifetime"

definition signature :: "string \<Rightarrow> string \<Rightarrow> string" where
  "signature payload key = hmac_sha256 key payload"

definition sign :: "string \<Rightarrow> string \<Rightarrow> string" where
  "sign payload key = base64_encode (signature payload key)"

definition continuation_state :: "int \<Rightarrow> catalog_request \<Rightarrow> int \<Rightarrow> int \<Rightarrow> gval" where
  "continuation_state offset request limit now =
     GStruct [(''ExpiresAt'', GInt (continuationExpiry now)), (''Language'', GStr (cr_language request)),
       (''Limit'', GInt limit), (''Offset'', GInt offset),
       (''Representation'', GStr (cr_representation request)), (''Target'', GStr (target request))]"

definition continuation_cursor :: "int \<Rightarrow> catalog_request \<Rightarrow> int \<Rightarrow> string \<Rightarrow> int \<Rightarrow> string" where
  "continuation_cursor offset request limit key now =
     (let payload = base64_encode (encode_json
        (marshal staticContinuation_type (continuation_state offset request limit now))) in
      payload @ ''.'' @ sign payload key)"

definition continuation :: "int \<Rightarrow> catalog_request \<Rightarrow> int \<Rightarrow> string \<Rightarrow> int \<Rightarrow> string" where
  "continuation offset request limit key now =
     target request @ ''?'' @ Encode
       [(''cursor'', [continuation_cursor offset request limit key now]),
        (''limit'', [itoa limit]),
        (''representation'', [cr_representation request])]"

definition decodeContinuation :: "string \<Rightarrow> string \<Rightarrow> gval option" where
  "decodeContinuation cursor key =
     (case split_on CHR ''.'' cursor of
        [payload, mac] \<Rightarrow>
          if base64_decode mac \<noteq> Some (signature payload key) then None
          else
            Option.bind (base64_decode payload) (\<lambda>data.
            Option.bind (decode_text data) (\<lambda>raw.
              (case unmarshal staticContinuation_type raw (zero staticContinuation_type) of
                 Inl _ \<Rightarrow> None
               | Inr state \<Rightarrow>
                   if int_field state ''ExpiresAt'' \<le> 0 \<or> int_field state ''Limit'' < 1 \<or>
                      int_field state ''Offset'' < 0 \<or> str_field state ''Target'' = [] then None
                   else if str_field state ''Representation'' \<noteq> ''terse'' \<and>
                      str_field state ''Representation'' \<noteq> ''full'' then None
                   else Some state)))
      | _ \<Rightarrow> None)"

definition consumeCursor :: "catalog_request \<Rightarrow> int \<Rightarrow> string \<Rightarrow> int \<Rightarrow> service_error + int" where
  "consumeCursor request limit key now =
     (if cr_cursor request = [] then Inr 0
      else
        (case decodeContinuation (cr_cursor request) key of
           None \<Rightarrow> Inl (requestError 410 ''CONTINUATION_EXPIRED'' ''Continuation is unavailable'')
         | Some state \<Rightarrow>
             if int_field state ''ExpiresAt'' < now then
               Inl (requestError 410 ''CONTINUATION_EXPIRED'' ''Continuation is unavailable'')
             else if str_field state ''Language'' \<noteq> cr_language request \<or>
                int_field state ''Limit'' \<noteq> limit \<or>
                str_field state ''Representation'' \<noteq> cr_representation request \<or>
                str_field state ''Target'' \<noteq> target request then
               Inl (invalid_request ''Continuation context changed'')
             else Inr (int_field state ''Offset'')))"

subsection \<open>Pages of a list\<close>

definition clone :: "gtype \<Rightarrow> gval \<Rightarrow> odp_error + gval" where
  "clone t v =
     (case unmarshal t (marshal t v) (zero t) of
        Inl _ \<Rightarrow> Inl (Text ''clone'') | Inr copy \<Rightarrow> Inr copy)"

definition cloneSlice :: "gtype \<Rightarrow> gval list \<Rightarrow> odp_error + gval list" where
  "cloneSlice t vs =
     bind_res (clone (TSlice t) (GSlice (Some vs)))
       (\<lambda>v. Inr (case v of GSlice (Some ws) \<Rightarrow> ws | _ \<Rightarrow> []))"

definition primaryImage :: "gval \<Rightarrow> gval" where
  "primaryImage images =
     (case images of GSlice (Some (i # is)) \<Rightarrow> GSlice (Some [i]) | _ \<Rightarrow> GSlice None)"

text \<open>A composite literal that copies some fields of \<open>v\<close>.\<close>

definition copy_fields :: "gtype \<Rightarrow> string list \<Rightarrow> gval \<Rightarrow> gval" where
  "copy_fields t names v = fold (\<lambda>name w. set_field name (field_of v name) w) names (zero t)"

definition terseOffering :: "gval \<Rightarrow> gval" where
  "terseOffering offering =
     set_field ''Images'' (primaryImage (field_of offering ''Images''))
       (copy_fields Offering_type
         [''AuthExpands'', ''CollectionIDs'', ''Description'', ''ID'', ''Language'', ''Localizations'',
          ''Name'', ''Price'', ''WebURL''] offering)"

definition terseCollection :: "gval \<Rightarrow> gval" where
  "terseCollection collection =
     set_field ''Images'' (primaryImage (field_of collection ''Images''))
       (copy_fields Collection_type
         [''AuthExpands'', ''Description'', ''ID'', ''Language'', ''Localizations'', ''Name'',
          ''ParentIDs'', ''WebURL''] collection)"

definition lift_error :: "odp_error + 'a \<Rightarrow> service_error + 'a" where
  "lift_error r = (case r of Inl e \<Rightarrow> Inl (Unexpected e) | Inr x \<Rightarrow> Inr x)"

definition staticPage ::
  "gtype \<Rightarrow> gval list \<Rightarrow> catalog_request \<Rightarrow> (gval \<Rightarrow> gval) \<Rightarrow> string \<Rightarrow> int \<Rightarrow> service_error + gval" where
  "staticPage item vs request terse key now =
     (let limit = (if cr_limit request = 0 then defaultPageLimit else cr_limit request) in
      bind_res (consumeCursor request limit key now) (\<lambda>offset.
        let offset = min offset (int (length vs));
            stop = min (offset + limit) (int (length vs));
            slice = drop (nat offset) (take (nat stop) vs) in
        bind_res
          (lift_error (map_res (\<lambda>stored. clone item
            (if cr_representation request = ''terse'' then terse stored else stored)) slice))
          (\<lambda>items.
            Inr (GStruct [(''Additional'', GMap None), (''AuthExpands'', GBool False),
              (''Items'', GSlice (Some items)),
              (''Next'', GStr (if stop < int (length vs)
                then continuation stop request limit key now else [])),
              (''ODPVersion'', GStr Version)]))))"

subsection \<open>The hierarchy of Collections\<close>

text \<open>
  \<open>validateRelationships\<close> over the identifiers: \<open>g\<close> is \<open>collectionByID\<close>, each Collection with its
  parents.  \<open>depth\<close> is a closure over \<open>depths\<close>, threaded, and \<open>visiting\<close>, which after a call that
  succeeds is what it was before: it is the stack of the Collections the call is below.
\<close>

type_synonym hierarchy = "(string \<times> string list) list"

type_synonym depths = "(string \<times> int) list"

fun unknown_collection :: "hierarchy \<Rightarrow> (string \<times> string list) list \<Rightarrow> odp_error option" where
  "unknown_collection g [] = None"
| "unknown_collection g ((offering, refs) # offerings) =
     (case find (\<lambda>c. map_of g c = None) refs of
        Some c \<Rightarrow> Some (Text (''Offering '' @ offering @ '' references unknown Collection '' @ c))
      | None \<Rightarrow> unknown_collection g offerings)"

text \<open>For the termination of \<open>depth\<close>: a Collection is visited below itself never, and all its parents
  are in the map.\<close>

lemma unvisited_less:
  assumes "ident \<notin> set visiting"
  shows "card (fst ` set g - insert ident (set visiting)) < card (insert ident (fst ` set g) - set visiting)"
  by (rule psubset_card_mono) (use assms in auto)

lemma unvisited_insert: "map_of g ident = Some parents \<Longrightarrow> insert ident (fst ` set g) = fst ` set g"
  by (metis insert_absorb map_of_eq_None_iff option.distinct(1))

function depth :: "hierarchy \<Rightarrow> string list \<Rightarrow> depths \<Rightarrow> string \<Rightarrow> string list \<Rightarrow> odp_error + int \<times> depths"
  and parents_loop ::
    "hierarchy \<Rightarrow> string list \<Rightarrow> depths \<Rightarrow> string \<Rightarrow> int \<Rightarrow> string list \<Rightarrow> odp_error + int \<times> depths"
  where
  "depth g visiting depths ident parents =
     (case map_of depths ident of
        Some known \<Rightarrow> Inr (known, depths)
      | None \<Rightarrow>
          if ident \<in> set visiting then Inl (Text ''Collection hierarchy must be acyclic'')
          else
            bind_res (parents_loop g (ident # visiting) depths ident 0 parents) (\<lambda>(maximum, depths').
              if maximum > 32 then Inl (Text ''Collection hierarchy exceeds 32 edges'')
              else Inr (maximum, AList.update ident maximum depths')))"
| "parents_loop g visiting depths child maximum [] = Inr (maximum, depths)"
| "parents_loop g visiting depths child maximum (p # ps) =
     (case map_of g p of
        None \<Rightarrow> Inl (Text (''Collection '' @ child @ '' references unknown parent '' @ p))
      | Some grandparents \<Rightarrow>
          bind_res (depth g visiting depths p grandparents) (\<lambda>(parent_depth, depths').
            parents_loop g visiting depths' child (max maximum (parent_depth + 1)) ps))"
  by pat_completeness auto
termination
proof (relation "measures [\<lambda>c. case c of
      Inl (g, visiting, depths, ident, parents) \<Rightarrow> card (insert ident (set (map fst g)) - set visiting)
    | Inr (g, visiting, depths, child, m, ps) \<Rightarrow> card (set (map fst g) - set visiting),
    \<lambda>c. case c of Inl _ \<Rightarrow> 0 | Inr (g, visiting, depths, child, m, ps) \<Rightarrow> Suc (length ps)]")
qed (auto simp: unvisited_less unvisited_insert)

fun depths_loop :: "hierarchy \<Rightarrow> depths \<Rightarrow> (string \<times> string list) list \<Rightarrow> odp_error + unit" where
  "depths_loop g depths [] = Inr ()"
| "depths_loop g depths ((ident, parents) # cs) =
     bind_res (depth g [] depths ident parents) (\<lambda>(_, depths'). depths_loop g depths' cs)"

definition validateRelationships :: "gval list \<Rightarrow> gval list \<Rightarrow> odp_error + unit" where
  "validateRelationships offerings collections =
     (let node = (\<lambda>c. (str_field c ''ID'', strs_field c ''ParentIDs''));
          g = map node collections in
      case unknown_collection g
             (map (\<lambda>v. (str_field v ''ID'', strs_field v ''CollectionIDs'')) offerings) of
        Some err \<Rightarrow> Inl err
      | None \<Rightarrow> depths_loop g [] g)"

subsection \<open>The catalog\<close>

record static_options =
  opt_collections :: "gval list"
  opt_key :: string
  opt_offerings :: "gval list"

text \<open>One of the two loops that check every resource and record its identifier.\<close>

fun validate_all ::
  "(gval \<Rightarrow> odp_error + gval) \<Rightarrow> string \<Rightarrow> nat \<Rightarrow> string list \<Rightarrow> gval list \<Rightarrow> odp_error + gval list" where
  "validate_all validate kind index seen [] = Inr []"
| "validate_all validate kind index seen (v # vs) =
     (case validate v of
        Inl err \<Rightarrow> Inl (Text (kind @ '' '' @ itoa (int index) @ '': '' @ error_text err))
      | Inr validated \<Rightarrow>
          if str_field validated ''ID'' \<in> set seen then
            Inl (Text (kind @ '' identifiers must be unique''))
          else
            bind_res (validate_all validate kind (Suc index) (str_field validated ''ID'' # seen) vs)
              (\<lambda>rest. Inr (validated # rest)))"

definition by_id :: "gval list \<Rightarrow> string \<Rightarrow> gval option" where
  "by_id vs ident = map_of (map (\<lambda>v. (str_field v ''ID'', v)) vs) ident"

definition static_resource ::
  "gtype \<Rightarrow> gval list \<Rightarrow> (gval \<Rightarrow> gval) \<Rightarrow> string \<Rightarrow> catalog_request \<Rightarrow> service_error + gval option" where
  "static_resource t vs terse ident request =
     (case by_id vs ident of
        None \<Rightarrow> Inr None
      | Some v \<Rightarrow>
          bind_res
            (lift_error (clone t (if cr_representation request = ''terse''
              then set_field ''ODPVersion'' (GStr Version) (terse v) else v)))
            (\<lambda>copy. Inr (Some copy)))"

definition contains :: "string list \<Rightarrow> string \<Rightarrow> bool" where
  "contains vs expected \<longleftrightarrow> list_ex (\<lambda>v. v = expected) vs"

definition static_handlers :: "gval list \<Rightarrow> gval list \<Rightarrow> string \<Rightarrow> int \<Rightarrow> catalog" where
  "static_handlers offerings collections key now =
     \<lparr>GetCollection = (if collections = [] then None
         else Some (static_resource Collection_type collections terseCollection)),
       GetOffering = Some (static_resource Offering_type offerings terseOffering),
       ListCollectionOfferings = (if collections = [] then None
         else Some (\<lambda>ident request.
           if by_id collections ident = None then
             Inl (requestError 404 ''NOT_FOUND'' ''Collection not found'')
           else staticPage Offering_type
             (filter (\<lambda>v. contains (strs_field v ''CollectionIDs'') ident) offerings)
             request terseOffering key now)),
       ListCollections = (if collections = [] then None
         else Some (\<lambda>request. staticPage Collection_type collections request terseCollection key now)),
       ListOfferings = Some (\<lambda>request. staticPage Offering_type offerings request terseOffering key now),
       SearchCollections = None, SearchOfferings = None\<rparr>"

definition NewStaticCatalog ::
  "schema_env \<Rightarrow> static_options \<Rightarrow> string option \<Rightarrow> odp_error + (int \<Rightarrow> catalog)" where
  "NewStaticCatalog env options fresh =
     bind_res (cloneSlice Offering_type (opt_offerings options)) (\<lambda>offerings.
     bind_res (cloneSlice Collection_type (opt_collections options)) (\<lambda>collections.
     bind_res (validate_all (\<lambda>v. validateOffering env v ''full'') ''Offering'' 0 [] offerings) (\<lambda>offerings.
     bind_res (validate_all (\<lambda>v. validateCollection env v ''full'') ''Collection'' 0 [] collections)
       (\<lambda>collections.
     bind_res (validateRelationships offerings collections) (\<lambda>_.
     bind_res
       (if length (opt_key options) \<ge> 32 then Inr (opt_key options)
        else if opt_key options \<noteq> [] then Inl (Text ''continuation key must be at least 32 bytes'')
        else (case fresh of None \<Rightarrow> Inl (Text ''create continuation key'') | Some key \<Rightarrow> Inr key))
       (\<lambda>key. Inr (static_handlers offerings collections key)))))))"

subsection \<open>What a valid hierarchy is\<close>

definition parents_of :: "hierarchy \<Rightarrow> string \<Rightarrow> string list" where
  "parents_of g ident = (case map_of g ident of None \<Rightarrow> [] | Some ps \<Rightarrow> ps)"

text \<open>A chain of \<open>k\<close> edges, each from a Collection to one of its parents, starts at a Collection.\<close>

fun chain :: "hierarchy \<Rightarrow> nat \<Rightarrow> string \<Rightarrow> bool" where
  "chain g 0 ident = True"
| "chain g (Suc k) ident = list_ex (\<lambda>p. chain g k p) (parents_of g ident)"

lemma chain_shorter: "chain g (Suc k) ident \<Longrightarrow> chain g k ident"
  by (induction k arbitrary: ident) (auto simp: list_ex_iff)

lemma chain_antimono: "chain g n ident \<Longrightarrow> k \<le> n \<Longrightarrow> chain g k ident"
proof (induction n)
  case (Suc n)
  then show ?case using chain_shorter [OF Suc.prems(1)] by (auto simp: le_Suc_eq simp del: chain.simps)
qed simp

fun reach :: "hierarchy \<Rightarrow> nat \<Rightarrow> string \<Rightarrow> string \<Rightarrow> bool" where
  "reach g 0 a b = (a = b)"
| "reach g (Suc k) a b = list_ex (\<lambda>p. reach g k p b) (parents_of g a)"

lemma reach_chain: "reach g k a b \<Longrightarrow> chain g n b \<Longrightarrow> chain g (k + n) a"
  by (induction k arbitrary: a) (auto simp: list_ex_iff)

lemma reach_step: "reach g k a b \<Longrightarrow> c \<in> set (parents_of g b) \<Longrightarrow> reach g (Suc k) a c"
proof (induction k arbitrary: a)
  case (Suc k)
  then obtain p where "p \<in> set (parents_of g a)" "reach g (Suc k) p c" by (auto simp: list_ex_iff)
  then show ?case by (subst reach.simps) (auto simp: list_ex_iff simp del: reach.simps)
qed (simp add: list_ex_iff)

lemma cycle_chain: "reach g (Suc k) a a \<Longrightarrow> chain g n a"
proof (induction n)
  case (Suc n)
  then have "chain g (Suc k + n) a" by (intro reach_chain) simp_all
  then show ?case by (rule chain_antimono) simp
qed simp

text \<open>What refutes a hierarchy: a parent that is not there, or a chain of 33 edges (every cycle has one).\<close>

definition refuted :: "hierarchy \<Rightarrow> bool" where
  "refuted g \<longleftrightarrow> list_ex (\<lambda>(ident, ps). list_ex (\<lambda>p. map_of g p = None) ps \<or> chain g 33 ident) g"

lemma refuted_parent:
  "map_of g ident = Some ps \<Longrightarrow> p \<in> set ps \<Longrightarrow> map_of g p = None \<Longrightarrow> refuted g"
  by (force simp: refuted_def list_ex_iff dest: map_of_SomeD)

lemma refuted_chain: "map_of g ident = Some ps \<Longrightarrow> chain g 33 ident \<Longrightarrow> refuted g"
  by (force simp: refuted_def list_ex_iff dest: map_of_SomeD)

text \<open>A recorded depth is the length of a longest chain, and the parents below it are all there.\<close>

definition depth_ok :: "hierarchy \<Rightarrow> string \<Rightarrow> int \<Rightarrow> bool" where
  "depth_ok g ident d \<longleftrightarrow> 0 \<le> d \<and> d \<le> 32 \<and> chain g (nat d) ident \<and> \<not> chain g (Suc (nat d)) ident \<and>
     (\<forall>p\<in>set (parents_of g ident). map_of g p \<noteq> None)"

definition depths_ok :: "hierarchy \<Rightarrow> depths \<Rightarrow> bool" where
  "depths_ok g depths \<longleftrightarrow> (\<forall>ident d. map_of depths ident = Some d \<longrightarrow> depth_ok g ident d)"

definition stack_ok :: "hierarchy \<Rightarrow> string list \<Rightarrow> string \<Rightarrow> bool" where
  "stack_ok g visiting ident \<longleftrightarrow> (\<forall>v\<in>set visiting. \<exists>k. reach g (Suc k) v ident)"

text \<open>A call only adds depths, and none of a Collection it is below.\<close>

definition extends :: "string list \<Rightarrow> depths \<Rightarrow> depths \<Rightarrow> bool" where
  "extends visiting depths depths' \<longleftrightarrow> map_of depths \<subseteq>\<^sub>m map_of depths' \<and>
     (\<forall>v\<in>set visiting. map_of depths' v = map_of depths v)"

lemma extends_refl: "extends visiting depths depths"
  by (simp add: extends_def)

lemma extends_trans:
  "extends visiting a b \<Longrightarrow> extends visiting b c \<Longrightarrow> extends visiting a c"
  by (auto simp: extends_def intro: map_le_trans)

lemma extends_lookup: "extends visiting a b \<Longrightarrow> map_of a v = Some d \<Longrightarrow> map_of b v = Some d"
  by (auto simp: extends_def map_le_def dom_def)

definition depth_post ::
  "hierarchy \<Rightarrow> string list \<Rightarrow> depths \<Rightarrow> string \<Rightarrow> odp_error + int \<times> depths \<Rightarrow> bool" where
  "depth_post g visiting depths ident r =
     (case r of
        Inl _ \<Rightarrow> refuted g
      | Inr (d, depths') \<Rightarrow> depths_ok g depths' \<and> extends visiting depths depths' \<and>
          map_of depths' ident = Some d)"

definition loop_post ::
  "hierarchy \<Rightarrow> string list \<Rightarrow> depths \<Rightarrow> int \<Rightarrow> string list \<Rightarrow> odp_error + int \<times> depths \<Rightarrow> bool" where
  "loop_post g visiting depths m ps r =
     (case r of
        Inl _ \<Rightarrow> refuted g
      | Inr (m', depths') \<Rightarrow> depths_ok g depths' \<and> extends visiting depths depths' \<and> m \<le> m' \<and>
          (\<forall>p\<in>set ps. map_of g p \<noteq> None \<and> (\<exists>d. map_of depths' p = Some d \<and> d + 1 \<le> m')) \<and>
          (m' = m \<or> (\<exists>p\<in>set ps. map_of depths' p = Some (m' - 1))))"

lemma depths_okD: "depths_ok g depths \<Longrightarrow> map_of depths p = Some d \<Longrightarrow> depth_ok g p d"
  by (simp add: depths_ok_def)

text \<open>The maximum over the parents is the depth.\<close>

lemma maximum_depth:
  assumes "depths_ok g depths'" and "0 \<le> m" "map_of g ident = Some ps"
    and "\<forall>p\<in>set ps. map_of g p \<noteq> None \<and> (\<exists>d. map_of depths' p = Some d \<and> d + 1 \<le> m)"
    and "m = 0 \<or> (\<exists>p\<in>set ps. map_of depths' p = Some (m - 1))"
  shows "chain g (nat m) ident \<and> \<not> chain g (Suc (nat m)) ident"
proof
  have ps: "parents_of g ident = ps" using assms(3) by (simp add: parents_of_def)
  show "chain g (nat m) ident"
  proof (cases "m = 0")
    case False
    with assms(5) obtain p where p: "p \<in> set ps" "map_of depths' p = Some (m - 1)" by blast
    with assms(1) have "chain g (nat (m - 1)) p" "0 \<le> m - 1"
      by (auto dest!: depths_okD simp: depth_ok_def)
    then have "nat m = Suc (nat (m - 1))" by simp
    with p \<open>chain g (nat (m - 1)) p\<close> show ?thesis by (auto simp: list_ex_iff ps)
  qed simp
  have "\<not> chain g (nat m) p" if "p \<in> set ps" for p
  proof -
    from assms(4) that obtain d where d: "map_of depths' p = Some d" "d + 1 \<le> m" by blast
    with assms(1) have "\<not> chain g (Suc (nat d)) p" "0 \<le> d" by (auto dest!: depths_okD simp: depth_ok_def)
    moreover from this(2) d(2) have "Suc (nat d) \<le> nat m" by linarith
    ultimately show ?thesis using chain_antimono [of g "nat m" p "Suc (nat d)"] by blast
  qed
  then show "\<not> chain g (Suc (nat m)) ident" by (auto simp: list_ex_iff ps)
qed

lemma stack_ok_push:
  assumes "stack_ok g visiting ident" and "map_of g ident = Some ps" and "p \<in> set ps"
  shows "stack_ok g (ident # visiting) p"
proof -
  have p: "p \<in> set (parents_of g ident)" using assms(2,3) by (simp add: parents_of_def)
  then have "reach g (Suc 0) ident p" by (simp add: list_ex_iff)
  moreover have "\<exists>k. reach g (Suc k) v p" if "v \<in> set visiting" for v
    using assms(1) that reach_step [OF _ p] unfolding stack_ok_def by blast
  ultimately show ?thesis unfolding stack_ok_def by (metis set_ConsD)
qed

text \<open>The step from the loop over the parents to the depth of their child.\<close>

lemma depth_post_step:
  assumes "loop_post g (ident # visiting) depths 0 ps (Inr (m, depths'))"
    and "map_of g ident = Some ps" and "map_of depths ident = None" and "ident \<notin> set visiting"
  shows "if m > 32 then refuted g
    else depth_post g visiting depths ident (Inr (m, AList.update ident m depths'))"
proof -
  have max: "chain g (nat m) ident \<and> \<not> chain g (Suc (nat m)) ident" and m: "0 \<le> m"
    using maximum_depth [of g depths' m ident ps] assms(1,2) by (auto simp: loop_post_def simp del: chain.simps)
  show ?thesis
  proof (cases "m > 32")
    case True
    then have "chain g 33 ident" using max chain_antimono [of g "nat m" ident 33] by simp
    with True show ?thesis using refuted_chain [OF assms(2)] by simp
  next
    case False
    have "\<forall>p\<in>set (parents_of g ident). map_of g p \<noteq> None"
      using assms(1) by (simp add: loop_post_def parents_of_def assms(2))
    with max m False have "depth_ok g ident m" by (simp add: depth_ok_def del: chain.simps)
    then have "depths_ok g (AList.update ident m depths')"
      using assms(1) by (simp add: loop_post_def depths_ok_def)
    moreover have "extends visiting depths (AList.update ident m depths')"
      using assms(1,3,4) by (auto simp: loop_post_def extends_def map_le_def dom_def)
    ultimately show ?thesis using False by (simp add: depth_post_def)
  qed
qed

lemma loop_post_step:
  assumes "depth_post g visiting depths p (Inr (d, depths1))" and "map_of g p \<noteq> None"
    and "loop_post g visiting depths1 (max m (d + 1)) ps r"
  shows "loop_post g visiting depths m (p # ps) r"
proof (cases r)
  case (Inr result)
  obtain m' depths' where r: "r = Inr (m', depths')" using Inr by (cases result) simp
  from assms(1,3) have "map_of depths' p = Some d"
    by (auto simp: r loop_post_def depth_post_def intro: extends_lookup)
  with assms show ?thesis
    by (auto simp: r loop_post_def depth_post_def max_def split: if_splits intro: extends_trans)
qed (use assms(3) in \<open>simp add: loop_post_def\<close>)

lemma depth_correct:
  "depths_ok g depths \<Longrightarrow> map_of g ident = Some parents \<Longrightarrow> stack_ok g visiting ident \<Longrightarrow>
     depth_post g visiting depths ident (depth g visiting depths ident parents)"
  "depths_ok g depths \<Longrightarrow> map_of g child = Some full \<Longrightarrow> set ps \<subseteq> set full \<Longrightarrow>
     (\<forall>p\<in>set full. stack_ok g visiting p) \<Longrightarrow>
     loop_post g visiting depths m ps (parents_loop g visiting depths child m ps)"
proof (induction g visiting depths ident parents and g visiting depths child m ps
    arbitrary: and full rule: depth_parents_loop.induct)
  case (1 g visiting depths ident parents)
  show ?case
  proof (cases "map_of depths ident")
    case None
    show ?thesis
    proof (cases "ident \<in> set visiting")
      case True
      then obtain k where "reach g (Suc k) ident ident" using 1 unfolding stack_ok_def by blast
      then have "refuted g" using refuted_chain [OF 1(3)] cycle_chain by blast
      with None True show ?thesis by (simp add: depth_post_def)
    next
      case False
      have post: "loop_post g (ident # visiting) depths 0 parents
          (parents_loop g (ident # visiting) depths ident 0 parents)"
        using 1(1) [OF None False] 1(2,3) stack_ok_push [OF 1(4,3)] by simp
      show ?thesis
      proof (cases "parents_loop g (ident # visiting) depths ident 0 parents")
        case (Inl e)
        with post None False show ?thesis by (simp add: depth_post_def loop_post_def)
      next
        case (Inr result)
        then obtain m depths' where r: "parents_loop g (ident # visiting) depths ident 0 parents = Inr (m, depths')"
          by (cases result) simp
        with depth_post_step [OF _ 1(3) None False, of m depths'] post None False show ?thesis
          by (auto simp: depth_post_def split: if_splits)
      qed
    qed
  qed (use 1 in \<open>simp add: depth_post_def extends_refl\<close>)
next
  case (2 g visiting depths child m)
  then show ?case by (simp add: loop_post_def extends_refl)
next
  case (3 g visiting depths child m p ps)
  show ?case
  proof (cases "map_of g p")
    case None
    with 3 show ?thesis using refuted_parent [of g child full p] by (simp add: loop_post_def)
  next
    case (Some grandparents)
    have post: "depth_post g visiting depths p (depth g visiting depths p grandparents)"
      using 3(1) [OF Some 3(3) Some] 3(5,6) by simp
    show ?thesis
    proof (cases "depth g visiting depths p grandparents")
      case (Inl e)
      with post Some show ?thesis by (simp add: loop_post_def depth_post_def)
    next
      case (Inr result)
      then obtain d depths1 where d: "depth g visiting depths p grandparents = Inr (d, depths1)"
        by (cases result) simp
      with post have "depths_ok g depths1" by (simp add: depth_post_def)
      then have "loop_post g visiting depths1 (max m (d + 1)) ps
          (parents_loop g visiting depths1 child (max m (d + 1)) ps)"
        using 3(2) [OF Some] 3(4-6) by simp
      with loop_post_step [of g visiting depths p d depths1 m ps] post Some d show ?thesis by simp
    qed
  qed
qed

lemma depths_loop_correct:
  assumes "distinct (map fst g)" and "set cs \<subseteq> set g" and "depths_ok g depths"
  shows "case depths_loop g depths cs of
      Inl _ \<Rightarrow> refuted g
    | Inr _ \<Rightarrow> list_all (\<lambda>(ident, ps). list_all (\<lambda>p. map_of g p \<noteq> None) ps \<and> \<not> chain g 33 ident) cs"
  using assms
proof (induction g depths cs rule: depths_loop.induct)
  case (2 g depths ident ps cs)
  have parents: "map_of g ident = Some ps" using 2(2,3) by (auto intro: map_of_is_SomeI)
  have post: "depth_post g [] depths ident (depth g [] depths ident ps)"
    by (rule depth_correct(1) [OF 2(4) parents]) (simp add: stack_ok_def)
  show ?case
  proof (cases "depth g [] depths ident ps")
    case (Inl e)
    with post show ?thesis by (simp add: depth_post_def)
  next
    case (Inr result)
    then obtain d depths' where d: "depth g [] depths ident ps = Inr (d, depths')" by (cases result) simp
    with post have ok: "depths_ok g depths'" "depth_ok g ident d"
      by (auto simp: depth_post_def dest: depths_okD)
    then have "\<not> chain g (Suc (nat d)) ident" "Suc (nat d) \<le> 33"
      by (auto simp: depth_ok_def simp del: chain.simps)
    then have "\<not> chain g 33 ident" using chain_antimono by blast
    moreover have "list_all (\<lambda>p. map_of g p \<noteq> None) ps"
      using ok(2) parents by (simp add: depth_ok_def parents_of_def list_all_iff)
    ultimately show ?thesis
      using 2(1) [OF _ _ ok(1)] 2(2,3) d by (auto split: sum.splits)
  qed
qed simp

definition hierarchy_of :: "gval list \<Rightarrow> hierarchy" where
  "hierarchy_of collections = map (\<lambda>c. (str_field c ''ID'', strs_field c ''ParentIDs'')) collections"

lemma unknown_collection_None:
  "unknown_collection g offerings = None \<longleftrightarrow>
     list_all (\<lambda>(_, refs). list_all (\<lambda>c. map_of g c \<noteq> None) refs) offerings"
  by (induction g offerings rule: unknown_collection.induct)
    (auto simp: list_all_iff find_None_iff find_Some_iff split: option.splits)

text \<open>C11: of Collections with distinct identifiers and of Offerings, a catalog is accepted exactly when
  every Collection an Offering names is there, every parent is there, and no chain of parents is
  33 edges long; a cycle is refused, being a chain of every length, however the Collections are
  ordered and whichever of them share ancestors.\<close>

theorem validateRelationships_iff:
  assumes "distinct (map (\<lambda>c. str_field c ''ID'') collections)"
  shows "validateRelationships offerings collections = Inr () \<longleftrightarrow>
    list_all (\<lambda>v. list_all (\<lambda>c. map_of (hierarchy_of collections) c \<noteq> None) (strs_field v ''CollectionIDs''))
      offerings \<and>
    list_all (\<lambda>(ident, ps). list_all (\<lambda>p. map_of (hierarchy_of collections) p \<noteq> None) ps \<and>
      \<not> chain (hierarchy_of collections) 33 ident) (hierarchy_of collections)"
proof -
  let ?g = "hierarchy_of collections"
  have g: "distinct (map fst ?g)" using assms by (simp add: hierarchy_of_def o_def)
  have "refuted ?g \<longleftrightarrow> \<not> list_all (\<lambda>(ident, ps). list_all (\<lambda>p. map_of ?g p \<noteq> None) ps \<and>
      \<not> chain ?g 33 ident) ?g"
    unfolding refuted_def list_ex_iff list_all_iff by fastforce
  with depths_loop_correct [OF g order_refl, of "[]"]
  have "depths_loop ?g [] ?g = Inr () \<longleftrightarrow> list_all (\<lambda>(ident, ps). list_all (\<lambda>p. map_of ?g p \<noteq> None) ps \<and>
      \<not> chain ?g 33 ident) ?g"
    by (simp add: depths_ok_def split: sum.splits)
  moreover have "validateRelationships offerings collections =
      (case unknown_collection ?g (map (\<lambda>v. (str_field v ''ID'', strs_field v ''CollectionIDs'')) offerings) of
         Some err \<Rightarrow> Inl err | None \<Rightarrow> depths_loop ?g [] ?g)"
    by (simp add: validateRelationships_def hierarchy_of_def Let_def split: option.split)
  moreover have "list_all (\<lambda>v. list_all (\<lambda>c. map_of ?g c \<noteq> None) (strs_field v ''CollectionIDs'')) offerings \<longleftrightarrow>
      unknown_collection ?g (map (\<lambda>v. (str_field v ''ID'', strs_field v ''CollectionIDs'')) offerings) = None"
    by (simp add: unknown_collection_None list_all_iff)
  ultimately show ?thesis by (simp split: option.splits)
qed

definition example_collection :: "string \<Rightarrow> string list \<Rightarrow> gval" where
  "example_collection ident parents =
     set_field ''ParentIDs'' (GSlice (Some (map GStr parents)))
       (set_field ''ID'' (GStr ident) (zero Collection_type))"

theorem validateRelationships_iff_witness:
  "validateRelationships [] [example_collection ''a'' [''b''], example_collection ''b'' [''a'']] \<noteq> Inr () \<and>
   validateRelationships [] [example_collection ''a'' [''b''], example_collection ''b'' []] = Inr ()"
proof -
  have "distinct (map (\<lambda>c. str_field c ''ID'') [example_collection ''a'' p, example_collection ''b'' q])" for p q
    by (simp add: example_collection_def str_field_def field_of_def set_field_def Collection_type_def
        field_value_def)
  note iff = validateRelationships_iff [OF this, of "[]"]
  have a: "hierarchy_of [example_collection ''a'' p, example_collection ''b'' q] = [(''a'', p), (''b'', q)]"
    for p q
    by (simp add: hierarchy_of_def example_collection_def str_field_def strs_field_def list_field_def
        field_of_def set_field_def Collection_type_def field_value_def o_def)
  show ?thesis
    unfolding iff a by (simp add: numeral_eq_Suc parents_of_def)
qed

subsection \<open>Continuations come back\<close>

lemma staticContinuation_wf: "wf_type staticContinuation_type"
  by (rule plain_type_wf) code_simp

text \<open>What a state must be to be issued: its numbers in range and its texts ASCII.\<close>

definition issuable :: "int \<Rightarrow> catalog_request \<Rightarrow> int \<Rightarrow> int \<Rightarrow> bool" where
  "issuable offset request limit now \<longleftrightarrow>
     0 \<le> offset \<and> offset < 2 ^ 63 \<and> 1 \<le> limit \<and> limit < 2 ^ 63 \<and> 0 \<le> now \<and> now < 2 ^ 62 \<and>
     cr_representation request \<in> {''terse'', ''full''} \<and> target request \<noteq> [] \<and>
     ascii (target request) \<and> ascii (cr_language request)"

lemma expiry_bounds: "now + 3600 < continuationExpiry now \<and> continuationExpiry now \<le> now + 7200"
  unfolding continuationExpiry_def continuationLifetime_def by presburger

text \<open>A continuation lives longer than one lifetime and at most two, as the comment on it says.\<close>

theorem continuationExpiry_bounds:
  "now + continuationLifetime < continuationExpiry now \<and>
   continuationExpiry now \<le> now + 2 * continuationLifetime"
  using expiry_bounds [of now] by (simp add: continuationLifetime_def)

lemma ascii_literals: "ascii ''terse''" "ascii ''full''" "ascii ''expires_at''" "ascii ''language''"
    "ascii ''limit''" "ascii ''offset''" "ascii ''representation''" "ascii ''target''"
  by (simp_all add: ascii_def)

lemma continuation_state_round_trip:
  assumes "issuable offset request limit now"
  defines "state \<equiv> continuation_state offset request limit now"
  shows "plain_json (marshal staticContinuation_type state)"
    and "unmarshal staticContinuation_type (marshal staticContinuation_type state)
      (zero staticContinuation_type) = Inr state"
proof -
  have expiry: "- (2 ^ 63) \<le> continuationExpiry now \<and> continuationExpiry now < 2 ^ 63"
    using expiry_bounds [of now] assms(1) by (simp add: issuable_def)
  have "canonical staticContinuation_type state"
    using assms(1) expiry
    by (simp add: state_def continuation_state_def staticContinuation_type_def field_value_def omitted_def
        tag_option_def issuable_def)
  with staticContinuation_wf show "unmarshal staticContinuation_type (marshal staticContinuation_type state)
      (zero staticContinuation_type) = Inr state" by (rule round_trip)
  show "plain_json (marshal staticContinuation_type state)"
    using assms(1) ascii_literals
    by (auto simp: state_def continuation_state_def staticContinuation_type_def field_value_def omitted_def
        tag_option_def issuable_def json_name_def tag_name_def extensible_def int_literal_itoa)
qed

lemma decode_issued:
  assumes "issuable offset request limit now"
  shows "decodeContinuation (continuation_cursor offset request limit key now) key
    = Some (continuation_state offset request limit now)"
proof -
  let ?state = "continuation_state offset request limit now"
  let ?data = "encode_json (marshal staticContinuation_type ?state)"
  have "split_on CHR ''.'' (continuation_cursor offset request limit key now)
      = [base64_encode ?data, sign (base64_encode ?data) key]"
    by (simp add: continuation_cursor_def Let_def split_on_append split_on_no_sep base64_no_dot sign_def)
  moreover have "decode_text ?data = Some (marshal staticContinuation_type ?state)"
    by (rule json_codec.decode_encoded) (rule continuation_state_round_trip [OF assms])
  moreover have "int_field ?state ''ExpiresAt'' > 0" "int_field ?state ''Limit'' \<ge> 1"
      "int_field ?state ''Offset'' \<ge> 0" "str_field ?state ''Target'' \<noteq> []"
      "str_field ?state ''Representation'' \<in> {''terse'', ''full''}"
    using assms expiry_bounds [of now]
    by (simp_all add: continuation_state_def int_field_def str_field_def field_of_def field_value_def issuable_def)
  ultimately show ?thesis
    using continuation_state_round_trip(2) [OF assms]
    by (auto simp: decodeContinuation_def sign_def base64_codec.decode_encoded not_le not_less)
qed

text \<open>A request that presents a cursor in the context it was issued in, before it expires.\<close>

lemma consume_issued:
  assumes "issuable offset request limit now"
    and "cr_cursor request' = continuation_cursor offset request limit key now"
    and "cr_language request' = cr_language request" "cr_representation request' = cr_representation request"
    and "target request' = target request" and "now' \<le> now + 3600"
  shows "consumeCursor request' limit key now' = Inr offset"
proof -
  have "cr_cursor request' \<noteq> []" by (simp add: assms(2) continuation_cursor_def Let_def)
  then show ?thesis
    using decode_issued [OF assms(1), of key] assms(2-6) expiry_bounds [of now]
    by (simp add: consumeCursor_def continuation_state_def int_field_def str_field_def field_of_def field_value_def)
qed

lemma checked_Some:
  "(case r of Inl _ \<Rightarrow> None | Inr x \<Rightarrow> if A x then None else if B x then None else Some x) = Some y
     \<longleftrightarrow> r = Inr y \<and> \<not> A y \<and> \<not> B y"
  by (cases r) auto

text \<open>C12: a cursor takes a request anywhere but to the start only when its signature verifies under the
  catalog's key, it has not expired, and it was issued for the same path, language, page size and
  representation.\<close>

theorem consumeCursor_sound:
  assumes "consumeCursor request limit key now = Inr offset" and "offset \<noteq> 0"
  shows "length (split_on CHR ''.'' (cr_cursor request)) = 2 \<and>
    base64_decode (split_on CHR ''.'' (cr_cursor request) ! 1) =
      Some (hmac_sha256 key (split_on CHR ''.'' (cr_cursor request) ! 0)) \<and>
    (case decodeContinuation (cr_cursor request) key of
       None \<Rightarrow> False
     | Some state \<Rightarrow> now \<le> int_field state ''ExpiresAt'' \<and> str_field state ''Target'' = target request \<and>
         str_field state ''Language'' = cr_language request \<and> int_field state ''Limit'' = limit \<and>
         str_field state ''Representation'' = cr_representation request \<and>
         int_field state ''Offset'' = offset \<and> 0 < offset)"
proof -
  from assms obtain state where state: "decodeContinuation (cr_cursor request) key = Some state"
      "\<not> int_field state ''ExpiresAt'' < now" "str_field state ''Language'' = cr_language request"
      "int_field state ''Limit'' = limit" "str_field state ''Representation'' = cr_representation request"
      "str_field state ''Target'' = target request" "int_field state ''Offset'' = offset"
    by (auto simp: consumeCursor_def split: option.splits if_splits)
  from state(1) have "length (split_on CHR ''.'' (cr_cursor request)) = 2"
      "base64_decode (split_on CHR ''.'' (cr_cursor request) ! 1) =
        Some (hmac_sha256 key (split_on CHR ''.'' (cr_cursor request) ! 0))"
      "0 \<le> int_field state ''Offset''"
    by (auto simp: decodeContinuation_def signature_def bind_eq_Some_conv checked_Some
        split: list.split_asm if_split_asm)
  with state assms(2) show ?thesis by simp
qed

theorem consumeCursor_sound_witness:
  "(\<lambda>request. base64_decode (split_on CHR ''.'' (cr_cursor request) ! 1) =
      Some (hmac_sha256 ''k'' (split_on CHR ''.'' (cr_cursor request) ! 0)))
    (example_request\<lparr>cr_cursor := continuation_cursor 2 example_request 1 ''k'' 0\<rparr>)"
proof -
  let ?r = "example_request\<lparr>cr_cursor := continuation_cursor 2 example_request 1 ''k'' 0\<rparr>"
  have "target example_request = ''/odp/offerings''" by code_simp
  then have "issuable 2 example_request 1 0"
    by (simp add: issuable_def example_request_def ascii_def)
  then have "consumeCursor ?r 1 ''k'' 0 = Inr 2"
    by (rule consume_issued) (simp_all add: target_def)
  from consumeCursor_sound [OF this] show ?thesis by simp
qed

subsection \<open>Traversal\<close>

text \<open>The request an Agent makes for a page's \<open>next\<close>: the same path (\<open>next\<close> starts with it) and headers,
  with the query of the reference.\<close>

definition follow :: "http_request \<Rightarrow> string \<Rightarrow> http_request" where
  "follow request reference =
     request\<lparr>rq_url := (rq_url request)\<lparr>raw_query :=
       drop (Suc (length (takeWhile (\<lambda>c. c \<noteq> CHR ''?'') reference))) reference\<rparr>\<rparr>"

text \<open>The pages from a request on, at most \<open>n\<close>; a handler is told how many may still follow, as its
  clock.\<close>

fun traverse ::
  "(nat \<Rightarrow> catalog_request \<Rightarrow> service_error + gval) \<Rightarrow> gval \<Rightarrow> nat \<Rightarrow> http_request \<Rightarrow>
   service_error + gval list list" where
  "traverse handler document 0 request = Inl (Unexpected (Text ''more pages''))"
| "traverse handler document (Suc n) request =
     bind_res (catalogRequest document request ''GET'' ''terse'') (\<lambda>input.
     bind_res (handler n input) (\<lambda>page.
       if str_field page ''Next'' = [] then Inr [list_field page ''Items'']
       else
         bind_res (traverse handler document n (follow request (str_field page ''Next'')))
           (\<lambda>rest. Inr (list_field page ''Items'' # rest))))"

lemma EscapedPath_no_query: "CHR ''?'' \<notin> set (EscapedPath u)"
proof -
  have "CHR ''?'' \<notin> set (escape EncodePath s)" for s
  proof (induction s)
    case (Cons c s)
    have hex: "CHR ''?'' \<noteq> hex_digit n" if "n < 16" for n
    proof -
      have "list_all (\<lambda>n. CHR ''?'' \<noteq> hex_digit n) [0..<16]" by code_simp
      with that show ?thesis by (simp add: list_all_iff)
    qed
    have "shouldEscape EncodePath CHR ''?''" by code_simp
    then have "CHR ''?'' \<notin> set (escape_byte EncodePath c)"
      using hex [OF byte_halves(1)] hex [OF byte_halves(2)] by (auto simp: escape_byte_def)
    with Cons.IH show ?case by (simp add: escape_def)
  qed (simp add: escape_def)
  moreover have "\<not> validEncoded EncodePath s" if "CHR ''?'' \<in> set s" for s
  proof -
    have "shouldEscape EncodePath CHR ''?''" by code_simp
    with that show ?thesis by (auto simp: validEncoded_def list_all_iff intro!: bexI [of _ "CHR ''?''"])
  qed
  ultimately show ?thesis by (auto simp: EscapedPath_def)
qed

lemma Encode_continuation:
  "Encode [(''cursor'', [a]), (''limit'', [b]), (''representation'', [c])]
     = query_text [(''cursor'', a), (''limit'', b), (''representation'', c)]"
proof -
  have "''cursor'' \<le> ''limit''" "''limit'' \<le> ''representation''" "''cursor'' \<le> ''representation''"
    by code_simp+
  then show ?thesis by (simp add: Encode_def query_text_def)
qed

lemma follow_continuation:
  "follow request (EscapedPath u @ ''?'' @ query) = request\<lparr>rq_url := (rq_url request)\<lparr>raw_query := query\<rparr>\<rparr>"
proof -
  have "takeWhile (\<lambda>c. c \<noteq> CHR ''?'') (EscapedPath u @ CHR ''?'' # query) = EscapedPath u"
    using EscapedPath_no_query [of u] by (subst takeWhile_append2) auto
  then show ?thesis by (simp add: follow_def)
qed

lemma target_follow: "EscapedPath (u\<lparr>raw_query := q\<rparr>) = EscapedPath u"
  by (simp add: EscapedPath_def)

lemma nat_digits_length: "n < 1000 \<Longrightarrow> length (nat_digits n) \<le> 3"
proof -
  have one: "length (nat_digits n) = (if n < 10 then 1 else Suc (length (nat_digits (n div 10))))" for n
    by (subst nat_digits.simps) simp
  assume "n < 1000"
  then have "n div 10 div 10 < 10" by simp
  then show ?thesis
    using one [of n] one [of "n div 10"] one [of "n div 10 div 10"] by simp
qed

lemma limit_text:
  assumes "1 \<le> limit" and "limit \<le> 100"
  shows "limitValue (itoa limit) \<and> int (decimal_value (itoa limit)) = limit"
  using assms nat_digits_length [of "nat limit"] nat_digits_all [of "nat limit"]
    nat_digits_nonempty [of "nat limit"]
  by (simp add: limitValue_def itoa_def decimal_value_nat_digits Suc_le_eq del: nat_digits_nonempty)

text \<open>What the Service reads of the request for the next page.\<close>

lemma catalogRequest_follow:
  assumes "catalogRequest document request ''GET'' ''terse'' = Inr input"
    and "1 \<le> limit" and "limit \<le> 100"
    and next_page: "request' = follow request (continuation offset input limit key now)"
  shows "catalogRequest document request' ''GET'' ''terse'' =
    Inr (input\<lparr>cr_cursor := continuation_cursor offset input limit key now, cr_limit := limit,
      cr_request := request'\<rparr>)"
proof -
  let ?q = "[(''cursor'', continuation_cursor offset input limit key now), (''limit'', itoa limit),
    (''representation'', cr_representation input)]"
  have request': "request' = request\<lparr>rq_url := (rq_url request)\<lparr>raw_query := query_text ?q\<rparr>\<rparr>"
    unfolding next_page continuation_def Encode_continuation target_def by (rule follow_continuation)
  have "ParseQuery (raw_query (rq_url request')) = map (\<lambda>(k, v). (k, [v])) ?q"
    by (simp add: request' ParseQuery_text)
  moreover have "cr_representation input \<in> {''terse'', ''full''}"
      "cr_language input = selectLanguage (rq_header request ''Accept-Language'')
        (str_field document ''Language'') (strs_field document ''Localizations'')"
    using assms(1) by (auto simp: catalogRequest_def Let_def res_simps split: if_splits)
  moreover have "queryLimit (map (\<lambda>(k, v). (k, [v])) ?q) ''GET'' = Inr limit"
    using limit_text [OF assms(2,3)] assms(2,3) by (simp add: queryLimit_Inr query_get_def)
  ultimately show ?thesis
    by (cases input) (auto simp: catalogRequest_def query_get_def request' Let_def)
qed

lemma canonical_field:
  assumes "canonical (TStruct fs) v" and "(name, tag, t) \<in> set fs"
  shows "if omitted tag (field_of v name) then field_of v name = zero t else canonical t (field_of v name)"
proof -
  from assms(1) obtain vals where "v = GStruct vals" by (cases v) auto
  with assms show ?thesis unfolding field_of_def by (fastforce simp: list_all_iff)
qed

text \<open>Every field of the types of \<open>models.go\<close> has a zero value JSON leaves out or can hold.\<close>

definition zero_ok :: "field list \<Rightarrow> bool" where
  "zero_ok fs \<longleftrightarrow> canonical (TStruct fs) (zero (TStruct fs))"

lemma copy_fields_canonical:
  assumes "t = TStruct fs" and "wf_type t" and "canonical t (zero t)" and "canonical t v"
    and "\<forall>name\<in>set names. name \<in> set (map fst fs) \<and> name \<noteq> ''Additional''"
  shows "canonical t (copy_fields t names v)"
proof -
  have "canonical t w \<Longrightarrow> canonical t (fold (\<lambda>name w. set_field name (field_of v name) w) names w)" for w
    using assms(5)
  proof (induction names arbitrary: w)
    case (Cons name names)
    then obtain tag u where field: "(name, tag, u) \<in> set fs" by fastforce
    have "canonical (TStruct fs) (set_field name (field_of v name) w)"
      by (rule canonical_set_field [OF _ field])
        (use Cons.prems assms(1,2,4) canonical_field [OF _ field, of v] in \<open>simp_all del: canonical.simps wf_type.simps\<close>)
    with Cons assms(1) show ?case by (simp del: canonical.simps)
  qed simp
  then show ?thesis using assms(3) by (simp add: copy_fields_def)
qed

lemma primaryImage_field:
  assumes "if omitted ''images,omitempty'' x then x = zero (TSlice t) else canonical (TSlice t) x"
  shows "if omitted ''images,omitempty'' (primaryImage x) then primaryImage x = zero (TSlice t)
    else canonical (TSlice t) (primaryImage x)"
proof (cases x)
  case (GSlice vs)
  with assms show ?thesis
    by (cases vs rule: option.exhaust [case_product list.exhaust])
      (auto simp: primaryImage_def omitted_def tag_option_def split: option.splits list.splits)
qed (use assms in \<open>auto simp: primaryImage_def omitted_def tag_option_def split: if_splits\<close>)

lemma terseOffering_canonical:
  assumes "canonical Offering_type v"
  shows "canonical Offering_type (terseOffering v)"
proof -
  obtain fs where fs: "Offering_type = TStruct fs"
      "(''Images'', ''images,omitempty'', TSlice ResourceImage_type) \<in> set fs"
      "\<forall>name\<in>set [''AuthExpands'', ''CollectionIDs'', ''Description'', ''ID'', ''Language'', ''Localizations'',
        ''Name'', ''Price'', ''WebURL'']. name \<in> set (map fst fs) \<and> name \<noteq> ''Additional''"
    by (simp add: Offering_type_def)
  have "canonical Offering_type (zero Offering_type)" by code_simp
  from copy_fields_canonical [OF fs(1) resource_types_wf(1) this assms fs(3)] show ?thesis
    using canonical_field [of fs v, OF _ fs(2)] resource_types_wf(1) assms unfolding terseOffering_def fs(1)
    by (intro canonical_set_field [OF _ fs(2)] primaryImage_field) simp_all
qed

lemma clone_canonical: "wf_type t \<Longrightarrow> canonical t v \<Longrightarrow> clone t v = Inr v"
  by (simp add: clone_def round_trip)

text \<open>The items of a page in the representation asked for.\<close>

definition shape :: "(gval \<Rightarrow> gval) \<Rightarrow> string \<Rightarrow> gval \<Rightarrow> gval" where
  "shape terse representation v = (if representation = ''terse'' then terse v else v)"

lemma staticPage_slice:
  assumes "wf_type item" and "list_all (\<lambda>v. canonical item (shape terse (cr_representation input) v)) vs"
    and "consumeCursor input limit key now = Inr (int offset)" and "offset \<le> length vs" and "1 \<le> limit"
    and "limit = (if cr_limit input = 0 then defaultPageLimit else cr_limit input)"
  defines "stop \<equiv> min (offset + nat limit) (length vs)"
  shows "\<exists>page. staticPage item vs input terse key now = Inr page \<and>
    list_field page ''Items'' = map (shape terse (cr_representation input)) (drop offset (take stop vs)) \<and>
    str_field page ''Next'' =
      (if stop < length vs then continuation (int stop) input limit key now else [])"
proof -
  let ?slice = "drop offset (take stop vs)"
  have clones: "map_res (\<lambda>stored. clone item (if cr_representation input = ''terse'' then terse stored else stored)) ws
      = Inr (map (shape terse (cr_representation input)) ws)"
    if "list_all (\<lambda>v. canonical item (shape terse (cr_representation input) v)) ws" for ws
    using that by (induction ws) (auto simp: shape_def clone_canonical [OF assms(1)])
  have "list_all (\<lambda>v. canonical item (shape terse (cr_representation input) v)) ?slice"
    using assms(2) by (auto simp: list_all_iff dest: in_set_dropD in_set_takeD)
  note slice = clones [OF this]
  have stop: "min (min (int offset) (int (length vs)) + limit) (int (length vs)) = int stop"
  proof -
    obtain l where "limit = int l" using assms(5) by (rule_tac nonneg_int_cases [of limit]) auto
    with assms(4) show ?thesis by (simp add: stop_def min_def)
  qed
  have offset: "min (int offset) (int (length vs)) = int offset" using assms(4) by simp
  show ?thesis
    using slice unfolding staticPage_def assms(6) [symmetric] Let_def assms(3) bind_res_simps stop
    by (simp add: offset lift_error_def list_field_def str_field_def field_of_def field_value_def)
qed

lemma drop_take_append: "a \<le> b \<Longrightarrow> drop a (take b xs) @ drop b xs = drop a xs"
  using append_take_drop_id [of "b - a" "drop a xs"] by (simp add: drop_take)

lemma traverse_from:
  assumes item: "wf_type item" "\<And>r. list_all (\<lambda>v. canonical item (shape terse r v)) vs"
    and clock: "\<And>n. T \<le> clock n \<and> clock n \<le> T + 3600" "0 \<le> T" "T + 3600 < 2 ^ 62"
    and small: "length vs < 2 ^ 62"
    and language: "ascii (selectLanguage (rq_header request ''Accept-Language'')
      (str_field document ''Language'') (strs_field document ''Localizations''))"
    and path: "ascii (EscapedPath (rq_url request))" "EscapedPath (rq_url request) \<noteq> []"
    and input: "catalogRequest document request ''GET'' ''terse'' = Inr input"
    and cursor: "consumeCursor input limit key (clock n) = Inr (int offset)"
    and limit: "limit = (if cr_limit input = 0 then defaultPageLimit else cr_limit input)"
      "1 \<le> limit" "limit \<le> 100"
    and fuel: "offset \<le> length vs" "length vs - offset \<le> n"
  shows "\<exists>pages. traverse (\<lambda>n r. staticPage item vs r terse key (clock n)) document (Suc n) request = Inr pages \<and>
    concat pages = map (shape terse (cr_representation input)) (drop offset vs) \<and>
    list_all (\<lambda>p. length p \<le> nat limit) pages"
  using language path input cursor limit(1) fuel
proof (induction n arbitrary: request input offset)
  case 0
  then have "offset = length vs" by simp
  with staticPage_slice [OF item, of input limit key "clock 0" offset] 0 limit(2) show ?case by auto
next
  case (Suc n)
  let ?stop = "min (offset + nat limit) (length vs)"
  obtain page where page: "staticPage item vs input terse key (clock (Suc n)) = Inr page"
      "list_field page ''Items'' = map (shape terse (cr_representation input)) (drop offset (take ?stop vs))"
      "str_field page ''Next'' =
        (if ?stop < length vs then continuation (int ?stop) input limit key (clock (Suc n)) else [])"
    using staticPage_slice [OF item Suc.prems(5) Suc.prems(7) limit(2) Suc.prems(6)] by blast
  have short: "length (list_field page ''Items'') \<le> nat limit" by (simp add: page(2))
  show ?case
  proof (cases "?stop < length vs")
    case False
    then have "take ?stop vs = vs" by simp
    with page Suc.prems(4) False short show ?thesis by simp
  next
    case True
    let ?request = "follow request (str_field page ''Next'')"
    let ?input = "input\<lparr>cr_cursor := continuation_cursor (int ?stop) input limit key (clock (Suc n)),
      cr_limit := limit, cr_request := ?request\<rparr>"
    have input': "catalogRequest document ?request ''GET'' ''terse'' = Inr ?input"
      by (rule catalogRequest_follow [OF Suc.prems(4) limit(2,3)]) (use page(3) True in simp)
    have request: "cr_request input = request" "cr_representation input \<in> {''terse'', ''full''}"
        "cr_language input = selectLanguage (rq_header request ''Accept-Language'')
          (str_field document ''Language'') (strs_field document ''Localizations'')"
      using Suc.prems(4) by (auto simp: catalogRequest_def Let_def res_simps split: if_splits)
    have url: "rq_header ?request = rq_header request" "EscapedPath (rq_url ?request) = EscapedPath (rq_url request)"
      unfolding follow_def by (simp_all add: target_follow)
    have "issuable (int ?stop) input limit (clock (Suc n))"
      using small clock(1) [of "Suc n"] clock(2,3) limit(2,3) Suc.prems(1-3) request
      by (auto simp: issuable_def target_def)
    then have "consumeCursor ?input limit key (clock n) = Inr (int ?stop)"
      by (rule consume_issued)
        (use url request(1) clock(1) [of n] clock(1) [of "Suc n"] in \<open>simp_all add: target_def\<close>)
    moreover have "length vs - ?stop \<le> n" using True limit(2) Suc.prems(8) by auto
    ultimately obtain pages where
        "traverse (\<lambda>n r. staticPage item vs r terse key (clock n)) document (Suc n) ?request = Inr pages"
        "concat pages = map (shape terse (cr_representation input)) (drop ?stop vs)"
        "list_all (\<lambda>p. length p \<le> nat limit) pages"
      using Suc.IH [of ?request ?input ?stop] Suc.prems(1-3) url input' limit(2) by auto
    moreover have "drop offset (take ?stop vs) @ drop ?stop vs = drop offset vs"
      using Suc.prems(7) by (intro drop_take_append) simp
    then have "list_field page ''Items'' @ map (shape terse (cr_representation input)) (drop ?stop vs)
        = map (shape terse (cr_representation input)) (drop offset vs)"
      unfolding page(2) by (simp only: map_append [symmetric])
    moreover have "str_field page ''Next'' \<noteq> []" using page(3) True by (simp add: continuation_def)
    ultimately show ?thesis
      using Suc.prems(4) page(1) short
      by (subst traverse.simps) (simp del: traverse.simps)
  qed
qed

text \<open>C13: an Agent that lists a catalog's Offerings and follows \<open>next\<close> from page to page gets every
  Offering once and in order, in the representation it asked for, on pages no longer than the page
  size, and comes to the last page after at most one page per Offering, as long as it takes no
  longer than the lifetime of a continuation; nothing is signed that the Service then refuses.\<close>

theorem static_listing_complete:
  assumes "list_all (canonical Offering_type) vs" and "length vs < 2 ^ 62"
    and "\<And>n. T \<le> clock n \<and> clock n \<le> T + 3600" and "0 \<le> T" and "T + 3600 < 2 ^ 62"
    and "ascii (selectLanguage (rq_header request ''Accept-Language'')
      (str_field document ''Language'') (strs_field document ''Localizations''))"
    and "ascii (EscapedPath (rq_url request))" and "EscapedPath (rq_url request) \<noteq> []"
    and "catalogRequest document request ''GET'' ''terse'' = Inr input" and "cr_cursor input = []"
  shows "\<exists>pages. traverse (\<lambda>n r. staticPage Offering_type vs r terseOffering key (clock n))
      document (Suc (length vs)) request = Inr pages \<and>
    concat pages = map (shape terseOffering (cr_representation input)) vs \<and>
    list_all (\<lambda>p. length p \<le> nat (if cr_limit input = 0 then 50 else cr_limit input)) pages"
proof -
  have items: "list_all (\<lambda>v. canonical Offering_type (shape terseOffering r v)) vs" for r
    using assms(1) by (auto simp: shape_def list_all_iff terseOffering_canonical)
  from assms(9) obtain query where "queryLimit query ''GET'' = Inr (cr_limit input)"
    by (auto simp: catalogRequest_def Let_def res_simps split: if_splits)
  then have limit: "cr_limit input = 0 \<or> 1 \<le> cr_limit input \<and> cr_limit input \<le> 100"
    by (auto simp: queryLimit_Inr list_ex_iff)
  have "consumeCursor input (if cr_limit input = 0 then defaultPageLimit else cr_limit input) key
      (clock (length vs)) = Inr (int 0)"
    using assms(10) by (simp add: consumeCursor_def)
  from traverse_from [where clock = clock and T = T and terse = terseOffering and vs = vs,
      OF resource_types_wf(1) items assms(3-5,2,6-9) this refl] limit
  show ?thesis by (auto simp: defaultPageLimit_def simp del: traverse.simps)
qed

theorem static_listing_complete_witness:
  "\<exists>pages. traverse (\<lambda>n r. staticPage Offering_type [example_offering, example_offering] r terseOffering ''k'' 7)
      (zero ServiceDocument_type) 3
      (cr_request example_request\<lparr>rq_url := empty_url\<lparr>url_path := ''/odp/offerings'', raw_query := ''limit=1''\<rparr>\<rparr>)
      = Inr pages \<and>
    concat pages = map (shape terseOffering ''terse'') [example_offering, example_offering]"
proof -
  let ?request = "cr_request example_request\<lparr>rq_url := empty_url\<lparr>url_path := ''/odp/offerings'',
    raw_query := ''limit=1''\<rparr>\<rparr>"
  let ?document = "zero ServiceDocument_type"
  have language: "selectLanguage (rq_header ?request ''Accept-Language'')
      (str_field ?document ''Language'') (strs_field ?document ''Localizations'') = []"
    by (simp add: example_request_def) code_simp
  have path: "EscapedPath (rq_url ?request) = ''/odp/offerings''" by (simp add: example_request_def) code_simp
  have "ParseQuery ''limit=1'' = [(''limit'', [''1''])]" by code_simp
  moreover have "limitValue ''1''" "decimal_value ''1'' = 1" by code_simp+
  ultimately obtain input where input: "catalogRequest ?document ?request ''GET'' ''terse'' = Inr input"
      "cr_cursor input = []" "cr_representation input = ''terse''"
    by (simp add: catalogRequest_def query_get_def queryLimit_def maximumPageItems_def)
  have "\<exists>pages. traverse (\<lambda>n r. staticPage Offering_type [example_offering, example_offering] r terseOffering ''k'' 7)
      ?document (Suc (length [example_offering, example_offering])) ?request = Inr pages \<and>
      concat pages = map (shape terseOffering (cr_representation input)) [example_offering, example_offering] \<and>
      list_all (\<lambda>p. length p \<le> nat (if cr_limit input = 0 then 50 else cr_limit input)) pages"
    by (rule static_listing_complete [where T = 0])
      (use language path example_offering_canonical input in \<open>simp_all add: ascii_def\<close>)
  moreover have "Suc (length [example_offering, example_offering]) = 3" by simp
  ultimately show ?thesis unfolding input(3) by metis
qed

end
