(* ===== verification/GoHttp.thy ===== *)
theory GoHttp
  imports GoUrl
begin

section \<open>HTTP headers\<close>

text \<open>
  \<open>http.Header\<close>: the values of each name, under its canonical spelling.
\<close>

type_synonym http_header = "(string \<times> string list) list"

definition header_field_byte :: "char \<Rightarrow> bool" where
  "header_field_byte c \<longleftrightarrow> alphanumeric c \<or> c \<in> set ''!#$%&*+-.^_`|~'' \<or> c = CHR 0x27"

fun canonical_letters :: "bool \<Rightarrow> string \<Rightarrow> string" where
  "canonical_letters upper [] = []"
| "canonical_letters upper (c # s) =
     (if upper \<and> is_lower c then char_of (byte c - 32)
      else if \<not> upper \<and> is_upper c then char_of (byte c + 32) else c) # canonical_letters (c = CHR ''-'') s"

definition CanonicalHeaderKey :: "string \<Rightarrow> string" where
  "CanonicalHeaderKey s = (if list_all header_field_byte s then canonical_letters True s else s)"

definition header_values :: "http_header \<Rightarrow> string \<Rightarrow> string list" where
  "header_values h k = (case map_of h k of Some vs \<Rightarrow> vs | None \<Rightarrow> [])"

definition header_set :: "string \<Rightarrow> string \<Rightarrow> http_header \<Rightarrow> http_header" where
  "header_set k v h = AList.update (CanonicalHeaderKey k) [v] h"

definition header_add :: "string \<Rightarrow> string \<Rightarrow> http_header \<Rightarrow> http_header" where
  "header_add k v h = AList.update (CanonicalHeaderKey k) (header_values h (CanonicalHeaderKey k) @ [v]) h"

definition header_get :: "http_header \<Rightarrow> string \<Rightarrow> string" where
  "header_get h k = (case header_values h (CanonicalHeaderKey k) of [] \<Rightarrow> [] | v # _ \<Rightarrow> v)"

subsection \<open>Reading what was set\<close>

lemma header_values_set:
  "header_values (header_set k v h) k' = (if k' = CanonicalHeaderKey k then [v] else header_values h k')"
  by (simp add: header_values_def header_set_def)

lemma header_get_set:
  "header_get (header_set k v h) k' =
     (if CanonicalHeaderKey k' = CanonicalHeaderKey k then v else header_get h k')"
  by (simp add: header_get_def header_values_set)

text \<open>The names the program uses.\<close>

lemma canonical_keys [simp]:
  "CanonicalHeaderKey ''Cache-Control'' = ''Cache-Control''" "CanonicalHeaderKey ''Content-Type'' = ''Content-Type''"
  "CanonicalHeaderKey ''Content-Language'' = ''Content-Language''" "CanonicalHeaderKey ''ETag'' = ''Etag''"
  "CanonicalHeaderKey ''Vary'' = ''Vary''" "CanonicalHeaderKey ''Retry-After'' = ''Retry-After''"
  "CanonicalHeaderKey ''Allow'' = ''Allow''" "CanonicalHeaderKey ''Location'' = ''Location''"
  "CanonicalHeaderKey ''Expires'' = ''Expires''" "CanonicalHeaderKey ''Age'' = ''Age''"
  "CanonicalHeaderKey ''Last-Modified'' = ''Last-Modified''"
  by code_simp+

end
