(* ===== verification/Service.thy ===== *)
theory Service
  imports StaticCatalog GoHttp
begin

section \<open>The Service\<close>

text \<open>
  The rest of \<open>service/service.go\<close>: construction, routing, the handlers of the seven operations,
  responses and problem documents.  What is written to the \<open>ResponseWriter\<close> is a record of the status,
  the headers set (under their canonical names, starting from none) and the content; no handler
  writes before it returns an error, so \<open>serve\<close> has a response or an error.  \<open>report\<close> is the list of
  the errors handed to \<open>OnError\<close>, whose panics are absorbed.
\<close>

record service =
  sv_authentication :: "(string \<times> string) list"
  sv_catalog :: catalog
  sv_document :: gval
  sv_endpoint_base :: string
  sv_on_error :: bool

record service_options =
  so_catalog :: catalog
  so_document :: gval
  so_on_error :: bool
  so_authentication :: "(string \<times> string) list"

record response =
  rs_status :: int
  rs_headers :: "(string \<times> string list) list"
  rs_content :: string

record served =
  sd_authentication :: string
  sd_expands :: bool
  sd_language :: string
  sd_max_bytes :: nat
  sd_max_depth :: nat
  sd_method :: string
  sd_request :: http_request

definition ProblemMediaType :: string where "ProblemMediaType = ''application/problem+json''"
definition MaximumResourceBytes :: nat where "MaximumResourceBytes = 524288"
definition maximumDocumentBytes :: nat where "maximumDocumentBytes = 65536"
definition maximumDocumentDepth :: nat where "maximumDocumentDepth = 8"
definition maximumProblemBytes :: nat where "maximumProblemBytes = 16384"
definition maximumTitleRunes :: nat where "maximumTitleRunes = 128"
definition internalMessage :: string where
  "internalMessage = ''The ODP Service could not complete the request''"

subsection \<open>Problem documents\<close>

definition problemCode :: "string \<Rightarrow> bool" where
  "problemCode code \<longleftrightarrow> code \<noteq> [] \<and> length code \<le> 64 \<and> is_upper (hd code) \<and>
     list_all (\<lambda>c. is_upper c \<or> is_digit c \<or> c = CHR ''_'') code"

definition control_rune :: "nat \<Rightarrow> bool" where
  "control_rune r \<longleftrightarrow> r < 32 \<or> (127 \<le> r \<and> r < 160) \<or> r = 8232 \<or> r = 8233"

definition boundedTitle :: "string \<Rightarrow> int \<Rightarrow> string" where
  "boundedTitle title status =
     (let candidate = trim_space (map_runes (\<lambda>r. if control_rune r then 32 else r) title);
          candidate = (if candidate = [] then ''ODP request failed with HTTP '' @ itoa status else candidate);
          runes = decode_runes candidate in
      if length runes > maximumTitleRunes then concat (map encode_rune (take maximumTitleRunes runes))
      else candidate)"

definition problemDetails :: "string \<Rightarrow> string \<Rightarrow> int \<Rightarrow> gval" where
  "problemDetails code title status =
     fold (\<lambda>(name, v). set_field name v)
       [(''Code'', GStr code), (''Status'', GInt status), (''Title'', GStr title),
        (''Type'', GStr (''https://offeringprotocol.org/problems/'' @
          to_lower (replace_all code CHR ''_'' ''-'')))]
       (zero ProblemDetails_type)"

definition json_text :: "gtype \<Rightarrow> gval \<Rightarrow> string" where
  "json_text t v = encode_json (marshal t v)"

definition text_depth :: "string \<Rightarrow> nat" where
  "text_depth text = Depth (first_value (read_json text))"

definition no_problem :: problem where
  "no_problem = \<lparr>problem_code = [], problem_header = [], problem_message = [], problem_status = 0\<rparr>"

definition internal_problem :: problem where
  "internal_problem = \<lparr>problem_code = ''INTERNAL_ERROR'', problem_header = [],
     problem_message = internalMessage, problem_status = 500\<rparr>"

text \<open>The status, code and title a problem is answered with before its document is checked.\<close>

definition answered :: "problem \<Rightarrow> int \<times> string \<times> string" where
  "answered p =
     (let (status, code, title) =
        (if problem_status p < 400 \<or> problem_status p > 599 then (500, ''INTERNAL_ERROR'', internalMessage)
         else (problem_status p, problem_code p, problem_message p)) in
      (status, if problemCode code then code else ''INTERNAL_ERROR'', title))"

definition writeProblem :: "schema_env \<Rightarrow> problem \<Rightarrow> response" where
  "writeProblem env p =
     (case answered p of (status, code, title) \<Rightarrow>
        (let details = problemDetails code (boundedTitle title status) status;
             text = json_text ProblemDetails_type details;
             sound = \<not> isl (ParseProblemResponse env (encoded ProblemDetails_type details) status) \<and>
               length text \<le> maximumProblemBytes \<and> text_depth text \<le> maximumResourceDepth;
             (status, code, text, p) =
               (if sound then (status, code, text, p)
                else (500, ''INTERNAL_ERROR'',
                  json_text ProblemDetails_type (problemDetails ''INTERNAL_ERROR'' internalMessage 500),
                  no_problem));
             header = (if status = problem_status p \<and> code = problem_code p
               then fold (\<lambda>(name, vs) h. fold (\<lambda>v. header_add name v) vs h) (problem_header p) []
               else []);
             header = (if (status = 429 \<or> status = 503) \<and> header_get header ''Retry-After'' = []
               then header_set ''Retry-After'' ''1'' header else header) in
         \<lparr>rs_status = status,
          rs_headers = header_set ''Content-Type'' ProblemMediaType
            (header_set ''Cache-Control'' ''no-store'' header),
          rs_content = text\<rparr>))"

subsection \<open>Responses\<close>

definition entityTag :: "string \<Rightarrow> string \<Rightarrow> string" where
  "entityTag language text =
     CHR 0x22 # take 27 (base64_encode (sha256 (language @ '' '' @ text))) @ [CHR 0x22]"

definition caller_specific :: "served \<Rightarrow> bool" where
  "caller_specific exchange \<longleftrightarrow> sd_expands exchange \<or> sd_authentication exchange = ''optional'' \<or>
     sd_authentication exchange = ''required''"

definition response_headers :: "served \<Rightarrow> string \<Rightarrow> http_header" where
  "response_headers exchange tag =
     (let vary = ''Accept, Accept-Language'' @ (if caller_specific exchange then '', Authorization'' else []);
          header = (if caller_specific exchange then header_set ''Cache-Control'' ''private'' [] else []) in
      header_set ''Vary'' vary (header_set ''ETag'' tag (header_set ''Content-Type'' MediaType
        (header_set ''Content-Language'' (sd_language exchange) header))))"

definition respond :: "gtype \<Rightarrow> gval \<Rightarrow> served \<Rightarrow> service_error + response" where
  "respond t v exchange =
     (let text = json_text t v;
          tag = entityTag (sd_language exchange) text;
          matched = matchesEntityTag (rq_header (sd_request exchange) ''If-None-Match'') tag in
      if length text > sd_max_bytes exchange \<or> text_depth text > sd_max_depth exchange then
        Inl (Unexpected (Text ''ODP response exceeds its resource limits''))
      else if matched \<and> sd_method exchange \<noteq> ''GET'' then
        Inl (requestError 412 ''PRECONDITION_FAILED'' ''If-None-Match matched the current representation'')
      else
        Inr \<lparr>rs_status = (if matched then 304 else 200), rs_headers = response_headers exchange tag,
          rs_content = (if matched then [] else text)\<rparr>)"

definition authentication_of :: "service \<Rightarrow> string \<Rightarrow> string" where
  "authentication_of sv operation =
     (case map_of (sv_authentication sv) operation of Some a \<Rightarrow> a | None \<Rightarrow> [])"

definition respondResource ::
  "service \<Rightarrow> gtype \<Rightarrow> gval \<Rightarrow> bool \<Rightarrow> string \<Rightarrow> catalog_request \<Rightarrow> string \<Rightarrow> string \<Rightarrow> service_error + response"
  where
  "respondResource sv t resource expands language input verb operation =
     respond t resource
       \<lparr>sd_authentication = authentication_of sv operation, sd_expands = expands,
        sd_language = representationLanguage language (cr_language input) (str_field (sv_document sv) ''Language''),
        sd_max_bytes = MaximumResourceBytes, sd_max_depth = maximumResourceDepth, sd_method = verb,
        sd_request = cr_request input\<rparr>"

definition respondPage ::
  "service \<Rightarrow> gtype \<Rightarrow> gval \<Rightarrow> bool \<Rightarrow> catalog_request \<Rightarrow> string \<Rightarrow> string \<Rightarrow> service_error + response" where
  "respondPage sv t page expands input verb operation =
     respond t page
       \<lparr>sd_authentication = authentication_of sv operation, sd_expands = expands,
        sd_language = representationLanguage [] (cr_language input) (str_field (sv_document sv) ''Language''),
        sd_max_bytes = MaximumResourceBytes, sd_max_depth = maximumResourceDepth, sd_method = verb,
        sd_request = cr_request input\<rparr>"

subsection \<open>Handlers\<close>

text \<open>Calling a nil handler is a panic; \<open>New\<close> refuses a catalog without the two handlers that are called
  unchecked (\<open>New_invariant\<close>).\<close>

definition nil_handler :: service_error where "nil_handler = Unexpected (Text ''nil handler'')"

definition listOfferings ::
  "schema_env \<Rightarrow> service \<Rightarrow> http_request \<Rightarrow> string \<Rightarrow> service_error + response" where
  "listOfferings env sv request verb =
     bind_res (requireMethod verb False) (\<lambda>_.
     bind_res (catalogRequest (sv_document sv) request verb ''terse'') (\<lambda>input.
     bind_res (case ListOfferings (sv_catalog sv) of None \<Rightarrow> Inl nil_handler | Some h \<Rightarrow> h input) (\<lambda>page.
     bind_res (lift_error (offeringPage env page input)) (\<lambda>validated.
       respondPage sv (Page_type Offering_type) validated (bool_field validated ''AuthExpands'') input verb
         ''list-offerings''))))"

definition listCollections ::
  "schema_env \<Rightarrow> service \<Rightarrow> http_request \<Rightarrow> string \<Rightarrow> service_error + response" where
  "listCollections env sv request verb =
     (case ListCollections (sv_catalog sv) of
        None \<Rightarrow> Inl (unsupported ''list-collections'')
      | Some h \<Rightarrow>
          bind_res (requireMethod verb False) (\<lambda>_.
          bind_res (catalogRequest (sv_document sv) request verb ''terse'') (\<lambda>input.
          bind_res (h input) (\<lambda>page.
          bind_res (lift_error (collectionPage env page input)) (\<lambda>validated.
            respondPage sv (Page_type Collection_type) validated (bool_field validated ''AuthExpands'')
              input verb ''list-collections'')))))"

definition listCollectionOfferings ::
  "schema_env \<Rightarrow> service \<Rightarrow> http_request \<Rightarrow> string \<Rightarrow> string \<Rightarrow> service_error + response" where
  "listCollectionOfferings env sv request verb ident =
     (case ListCollectionOfferings (sv_catalog sv) of
        None \<Rightarrow> Inl (unsupported ''list-collection-offerings'')
      | Some h \<Rightarrow>
          bind_res (requireMethod verb False) (\<lambda>_.
          bind_res (catalogRequest (sv_document sv) request verb ''terse'') (\<lambda>input.
          bind_res (h ident input) (\<lambda>page.
          bind_res (lift_error (offeringPage env page input)) (\<lambda>validated.
            respondPage sv (Page_type Offering_type) validated (bool_field validated ''AuthExpands'')
              input verb ''list-collection-offerings'')))))"

definition getOffering ::
  "schema_env \<Rightarrow> service \<Rightarrow> http_request \<Rightarrow> string \<Rightarrow> string \<Rightarrow> service_error + response" where
  "getOffering env sv request verb ident =
     bind_res (requireMethod verb False) (\<lambda>_.
     bind_res (catalogRequest (sv_document sv) request verb ''full'') (\<lambda>input.
     bind_res (case GetOffering (sv_catalog sv) of None \<Rightarrow> Inl nil_handler | Some h \<Rightarrow> h ident input)
       (\<lambda>found.
         case found of
           None \<Rightarrow> Inl (requestError 404 ''NOT_FOUND'' ''Offering not found'')
         | Some offering \<Rightarrow>
             bind_res (lift_error (validateOffering env offering (cr_representation input))) (\<lambda>validated.
               if str_field validated ''ID'' \<noteq> ident then
                 Inl (Unexpected (Text ''Offering identifier does not match its request path''))
               else
                 respondResource sv Offering_type (set_field ''ODPVersion'' (GStr Version) validated)
                   (bool_field validated ''AuthExpands'') (str_field validated ''Language'') input verb
                   ''get-offering''))))"

definition getCollection ::
  "schema_env \<Rightarrow> service \<Rightarrow> http_request \<Rightarrow> string \<Rightarrow> string \<Rightarrow> service_error + response" where
  "getCollection env sv request verb ident =
     (case GetCollection (sv_catalog sv) of
        None \<Rightarrow> Inl (unsupported ''get-collection'')
      | Some h \<Rightarrow>
          bind_res (requireMethod verb False) (\<lambda>_.
          bind_res (catalogRequest (sv_document sv) request verb ''full'') (\<lambda>input.
          bind_res (h ident input) (\<lambda>found.
            case found of
              None \<Rightarrow> Inl (requestError 404 ''NOT_FOUND'' ''Collection not found'')
            | Some collection \<Rightarrow>
                bind_res (lift_error (validateCollection env collection (cr_representation input)))
                  (\<lambda>validated.
                    if str_field validated ''ID'' \<noteq> ident then
                      Inl (Unexpected (Text ''Collection identifier does not match its request path''))
                    else
                      respondResource sv Collection_type (set_field ''ODPVersion'' (GStr Version) validated)
                        (bool_field validated ''AuthExpands'') (str_field validated ''Language'') input
                        verb ''get-collection'')))))"

text \<open>What a search is called with: no query but a cursor for a GET, the parsed body for a POST, whose
  \<open>limit\<close> then replaces the request's.\<close>

definition search_query ::
  "(body \<Rightarrow> odp_error + gval) \<Rightarrow> http_request \<Rightarrow> string \<Rightarrow> catalog_request \<Rightarrow>
   service_error + gval option \<times> catalog_request" where
  "search_query parse request verb input =
     (if verb = ''GET'' then
        (if cr_cursor input = [] then Inl (invalid_request ''Search continuation requires a cursor'')
         else Inr (None, input))
      else
        bind_res (readRequestBody request) (\<lambda>data.
          case parse (read_json data) of
            Inl err \<Rightarrow> Inl (invalidRequest err)
          | Inr parsed \<Rightarrow>
              Inr (Some parsed,
                if int_field parsed ''Limit'' \<noteq> 0 then input\<lparr>cr_limit := int_field parsed ''Limit''\<rparr>
                else input)))"

definition searchOfferings ::
  "schema_env \<Rightarrow> service \<Rightarrow> http_request \<Rightarrow> string \<Rightarrow> service_error + response" where
  "searchOfferings env sv request verb =
     (case SearchOfferings (sv_catalog sv) of
        None \<Rightarrow> Inl (unsupported ''search-offerings'')
      | Some h \<Rightarrow>
          bind_res (requireMethod verb True) (\<lambda>_.
          bind_res (catalogRequest (sv_document sv) request verb ''terse'') (\<lambda>input.
          bind_res (search_query (ParseOfferingSearchRequest env) request verb input) (\<lambda>(query, input).
          bind_res (h query input) (\<lambda>page.
          bind_res
            (lift_error (offeringSearchPage env page input
              (case query of None \<Rightarrow> [] | Some parsed \<Rightarrow> strs_field parsed ''Refinements'')))
            (\<lambda>validated.
              respondPage sv (OfferingPage_type Offering_type) validated
                (bool_field validated ''AuthExpands'') input verb ''search-offerings''))))))"

definition searchCollections ::
  "schema_env \<Rightarrow> service \<Rightarrow> http_request \<Rightarrow> string \<Rightarrow> service_error + response" where
  "searchCollections env sv request verb =
     (case SearchCollections (sv_catalog sv) of
        None \<Rightarrow> Inl (unsupported ''search-collections'')
      | Some h \<Rightarrow>
          bind_res (requireMethod verb True) (\<lambda>_.
          bind_res (catalogRequest (sv_document sv) request verb ''terse'') (\<lambda>input.
          bind_res (search_query (ParseCollectionSearchRequest env) request verb input) (\<lambda>(query, input).
          bind_res (h query input) (\<lambda>page.
          bind_res (lift_error (collectionPage env page input)) (\<lambda>validated.
            respondPage sv (Page_type Collection_type) validated (bool_field validated ''AuthExpands'')
              input verb ''search-collections''))))))"

subsection \<open>Routing\<close>

text \<open>The identifiers a path may carry, in the order the code tries them.\<close>

definition route_identified ::
  "schema_env \<Rightarrow> service \<Rightarrow> http_request \<Rightarrow> string \<Rightarrow> string \<Rightarrow> service_error + response" where
  "route_identified env sv request verb p =
     bind_res (resourceID p ''/offerings/'') (\<lambda>offering.
       case offering of
         Some ident \<Rightarrow> getOffering env sv request verb ident
       | None \<Rightarrow>
           bind_res (collectionOfferingID p) (\<lambda>members.
             case members of
               Some ident \<Rightarrow> listCollectionOfferings env sv request verb ident
             | None \<Rightarrow>
                 bind_res (resourceID p ''/collections/'') (\<lambda>collection.
                   case collection of
                     Some ident \<Rightarrow> getCollection env sv request verb ident
                   | None \<Rightarrow> Inl notFound)))"

definition route ::
  "schema_env \<Rightarrow> service \<Rightarrow> http_request \<Rightarrow> string \<Rightarrow> string \<Rightarrow> service_error + response" where
  "route env sv request verb p =
     (if p = ''/offerings'' then listOfferings env sv request verb
      else if p = ''/offerings/search'' then searchOfferings env sv request verb
      else if p = ''/collections'' then listCollections env sv request verb
      else if p = ''/collections/search'' then searchCollections env sv request verb
      else route_identified env sv request verb p)"

definition serve :: "schema_env \<Rightarrow> service \<Rightarrow> http_request \<Rightarrow> service_error + response" where
  "serve env sv request =
     (let verb = (if rq_method request = ''HEAD'' then ''GET'' else rq_method request);
          p = EscapedPath (rq_url request) in
      if \<not> acceptsODP (rq_header request ''Accept'') then
        Inl (requestError 406 ''NOT_ACCEPTABLE'' (''Accept must allow '' @ MediaType))
      else if p = ''/.well-known/odp'' then
        bind_res (requireMethod verb False) (\<lambda>_.
          respond ServiceDocument_type (sv_document sv)
            \<lparr>sd_authentication = ''not-required'', sd_expands = False,
             sd_language = str_field (sv_document sv) ''Language'', sd_max_bytes = maximumDocumentBytes,
             sd_max_depth = maximumDocumentDepth, sd_method = verb, sd_request = request\<rparr>)
      else if \<not> has_prefix p (sv_endpoint_base sv @ ''/'') then Inl notFound
      else route env sv request verb (trim_prefix p (sv_endpoint_base sv)))"

definition report :: "service \<Rightarrow> odp_error \<Rightarrow> odp_error list" where
  "report sv err = (if sv_on_error sv then [err] else [])"

definition ServeHTTP :: "schema_env \<Rightarrow> service \<Rightarrow> http_request \<Rightarrow> response \<times> odp_error list" where
  "ServeHTTP env sv request =
     (case serve env sv request of
        Inr answer \<Rightarrow> (answer, [])
      | Inl (Problem p) \<Rightarrow> (writeProblem env p, [])
      | Inl (Unexpected err) \<Rightarrow> (writeProblem env internal_problem, report sv err))"

subsection \<open>Construction\<close>

definition enabled_operations :: "catalog \<Rightarrow> string list" where
  "enabled_operations c =
     [''get-offering'', ''list-offerings''] @
     (if GetCollection c \<noteq> None then [''get-collection''] else []) @
     (if ListCollectionOfferings c \<noteq> None then [''list-collection-offerings''] else []) @
     (if ListCollections c \<noteq> None then [''list-collections''] else []) @
     (if SearchCollections c \<noteq> None then [''search-collections''] else []) @
     (if SearchOfferings c \<noteq> None then [''search-offerings''] else [])"

definition requirement_of :: "(string \<times> string) list \<Rightarrow> string \<Rightarrow> string" where
  "requirement_of authentication operation =
     (case map_of authentication operation of
        Some r \<Rightarrow> if r = [] then ''not-required'' else r
      | None \<Rightarrow> ''not-required'')"

definition New :: "schema_env \<Rightarrow> service_options \<Rightarrow> odp_error + service" where
  "New env options =
     (let c = so_catalog options;
          operations = sort (enabled_operations c);
          authentication = map (\<lambda>op. (op, requirement_of (so_authentication options) op)) operations;
          descriptors = map (\<lambda>(op, r). GStruct [(''Authentication'', GStr r), (''Name'', GStr op)])
            authentication;
          document = set_field ''Operations'' (GSlice (Some descriptors))
            (set_field ''ODPVersion'' (GStr Version) (so_document options));
          text = json_text ServiceDocument_type document in
      if ListOfferings c = None \<or> GetOffering c = None then
        Inl (Text ''ODP catalog requires ListOfferings and GetOffering handlers'')
      else
        (case find (\<lambda>(op, _). op \<notin> set operations) (so_authentication options) of
           Some (op, _) \<Rightarrow> Inl (Text (''authentication configured for unadvertised ODP operation '' @ op))
         | None \<Rightarrow>
             bind_res (ParseServiceDocument env (encoded ServiceDocument_type document)) (\<lambda>parsed.
               if length text > maximumDocumentBytes \<or> text_depth text > maximumDocumentDepth then
                 Inl (Text ''ODP Service Document exceeds its resource limits'')
               else
                 Inr \<lparr>sv_authentication = authentication, sv_catalog = c, sv_document = parsed,
                   sv_endpoint_base = trim_suffix (str_field (field_of parsed ''HTTP'') ''EndpointBase'') ''/'',
                   sv_on_error = so_on_error options\<rparr>)))"

definition Document :: "service \<Rightarrow> gval" where
  "Document sv =
     (case unmarshal ServiceDocument_type (marshal ServiceDocument_type (sv_document sv))
             (zero ServiceDocument_type) of
        Inl _ \<Rightarrow> zero ServiceDocument_type
      | Inr document \<Rightarrow> document)"

subsection \<open>Every operation has its route\<close>

text \<open>The handler of an operation.\<close>

definition operation_handler ::
  "schema_env \<Rightarrow> service \<Rightarrow> string \<Rightarrow> string \<Rightarrow> http_request \<Rightarrow> string \<Rightarrow> service_error + response" where
  "operation_handler env sv operation ident request verb =
     (if operation = ''list-collections'' then listCollections env sv request verb
      else if operation = ''search-collections'' then searchCollections env sv request verb
      else if operation = ''get-collection'' then getCollection env sv request verb ident
      else if operation = ''list-collection-offerings'' then
        listCollectionOfferings env sv request verb ident
      else if operation = ''list-offerings'' then listOfferings env sv request verb
      else if operation = ''search-offerings'' then searchOfferings env sv request verb
      else getOffering env sv request verb ident)"

lemma IsLocal_segment:
  assumes "IsLocalResourceIdentifier ident"
  shows "ident \<noteq> []" "CHR ''/'' \<notin> set ident" "identifier_segment ident = Inr (Some ident)"
  using assms IsLocal_nonempty IsLocal_no_slash by (auto simp: identifier_segment_def)

lemma resourceID_prefixed:
  assumes "IsLocalResourceIdentifier ident"
  shows "resourceID (start @ ident) start = Inr (Some ident)"
  using IsLocal_segment [OF assms] by (simp add: resourceID_def)

lemma suffix_of_rest: "q @ r = t @ s \<Longrightarrow> length q \<le> length t \<Longrightarrow> \<exists>u. r = u @ s"
  by (auto simp: append_eq_append_conv2)

text \<open>The path of a Collection is never the path of its members, its identifier having no slash.\<close>

lemma collectionOfferingID_collection:
  assumes "IsLocalResourceIdentifier ident"
  shows "collectionOfferingID (''/collections/'' @ ident) = Inr None"
proof (cases "length ident < 10")
  case True
  then show ?thesis by (simp add: collectionOfferingID_def)
next
  case False
  have "\<not> has_suffix (''/collections/'' @ ident) ''/offerings''"
  proof
    assume "has_suffix (''/collections/'' @ ident) ''/offerings''"
    then obtain t where t: "''/collections/'' @ ident = t @ ''/offerings''" by (auto simp: has_suffix_iff)
    then have "length t = length ident + 3" by (drule_tac arg_cong [where f = length]) simp
    with False have "length ''/collections/'' \<le> length t" by simp
    with suffix_of_rest [OF t] obtain u where "ident = u @ ''/offerings''" by blast
    then have "CHR ''/'' \<in> set ident" by simp
    with IsLocal_segment(2) [OF assms] show False by blast
  qed
  then show ?thesis by (simp add: collectionOfferingID_def)
qed

lemma collectionOfferingID_members:
  assumes "IsLocalResourceIdentifier ident"
  shows "collectionOfferingID (''/collections/'' @ ident @ ''/offerings'') = Inr (Some ident)"
proof -
  have "has_suffix (''/collections/'' @ ident @ ''/offerings'') ''/offerings''"
    by (auto simp: has_suffix_iff intro: exI [of _ "''/collections/'' @ ident"])
  moreover have "trim_suffix (trim_prefix (''/collections/'' @ ident @ ''/offerings'') ''/collections/'') ''/offerings'' = ident"
    by (simp only: trim_prefix_append trim_suffix_append)
  moreover have "has_prefix (''/collections/'' @ ident @ ''/offerings'') ''/collections/''" by simp
  ultimately show ?thesis
    using IsLocal_segment [OF assms] unfolding collectionOfferingID_def Let_def by simp
qed

lemma segment_distinct:
  assumes "IsLocalResourceIdentifier ident"
  shows "ident @ ''/offerings'' \<noteq> ''search''" "ident \<noteq> []"
proof -
  show "ident \<noteq> []" using IsLocal_segment [OF assms] by simp
  show "ident @ ''/offerings'' \<noteq> ''search''"
  proof
    assume "ident @ ''/offerings'' = ''search''"
    then have "CHR ''/'' \<in> set ''search''" by (metis in_set_conv_decomp append_Cons append_assoc)
    then show False by simp
  qed
qed

lemma route_operation:
  assumes "operationPath operation ident = Inr p"
    and "ident \<noteq> ''search'' \<or> operation = ''list-collection-offerings''"
  shows "route env sv request verb p = operation_handler env sv operation ident request verb"
  using operationPath_forms [OF assms(1)]
proof (elim disjE conjE)
  assume "operation = ''get-collection''" "IsLocalResourceIdentifier ident" "p = ''/collections/'' @ ident"
  moreover from this assms(2) have "ident \<noteq> ''search''" "ident \<noteq> []" by (auto dest: segment_distinct)
  moreover have "resourceID (''/collections/'' @ ident) ''/offerings/'' = Inr None"
    by (simp add: resourceID_def)
  moreover have "resourceID (''/collections/'' @ ident) ''/collections/'' = Inr (Some ident)"
    by (rule resourceID_prefixed) fact
  ultimately show ?thesis
    using collectionOfferingID_collection [of ident]
    by (simp add: route_def route_identified_def operation_handler_def)
next
  assume "operation = ''list-collection-offerings''" "IsLocalResourceIdentifier ident"
    "p = ''/collections/'' @ ident @ ''/offerings''"
  moreover have "resourceID (''/collections/'' @ ident @ ''/offerings'') ''/offerings/'' = Inr None"
    by (simp add: resourceID_def)
  ultimately show ?thesis
    using collectionOfferingID_members [of ident] segment_distinct [of ident]
    by (simp add: route_def route_identified_def operation_handler_def)
next
  assume "operation = ''get-offering''" "IsLocalResourceIdentifier ident" "p = ''/offerings/'' @ ident"
  moreover from this assms(2) have "ident \<noteq> ''search''" "ident \<noteq> []" by (auto dest: segment_distinct)
  moreover have "resourceID (''/offerings/'' @ ident) ''/offerings/'' = Inr (Some ident)"
    by (rule resourceID_prefixed) fact
  ultimately show ?thesis
    by (simp add: route_def route_identified_def operation_handler_def)
qed (simp_all add: route_def operation_handler_def)

text \<open>C14: a Service answers the URL an Agent builds for an operation with that operation: below the
  endpoint base, the path \<open>operationPath\<close> gives an operation and an identifier is routed to the
  operation's handler with that identifier, for every operation and every valid identifier but
  \<open>search\<close> (whose path is a search route), whatever the method.\<close>

theorem serve_operation:
  assumes "operationPath operation ident = Inr p"
    and "ident \<noteq> ''search'' \<or> operation = ''list-collection-offerings''"
    and "EscapedPath (rq_url request) = sv_endpoint_base sv @ p"
    and "EscapedPath (rq_url request) \<noteq> ''/.well-known/odp''"
    and "acceptsODP (rq_header request ''Accept'')"
  shows "serve env sv request = operation_handler env sv operation ident request
    (if rq_method request = ''HEAD'' then ''GET'' else rq_method request)"
proof -
  obtain q where "p = CHR ''/'' # q" using operationPath_forms [OF assms(1)] by auto
  then have "has_prefix (sv_endpoint_base sv @ p) (sv_endpoint_base sv @ ''/'')" by simp
  with assms(3-5) route_operation [OF assms(1,2)] show ?thesis by (simp add: serve_def)
qed

definition example_service :: service where
  "example_service =
     \<lparr>sv_authentication = [(''get-offering'', ''not-required''), (''list-offerings'', ''not-required'')],
      sv_catalog = static_handlers [example_offering] [] ''k'' 0, sv_document = zero ServiceDocument_type,
      sv_endpoint_base = ''/odp'', sv_on_error = True\<rparr>"

theorem serve_operation_witness:
  "serve lenient_env example_service (cr_request example_request) =
     operation_handler lenient_env example_service ''list-offerings'' [] (cr_request example_request) ''GET''"
proof -
  have "operationPath ''list-offerings'' [] = Inr ''/offerings''"
    "EscapedPath (rq_url (cr_request example_request)) = sv_endpoint_base example_service @ ''/offerings''"
    "EscapedPath (rq_url (cr_request example_request)) \<noteq> ''/.well-known/odp''"
    by code_simp+
  moreover have "acceptsODP (rq_header (cr_request example_request) ''Accept'')"
    by (simp add: example_request_def acceptsODP_def trim_space_def)
  ultimately have "serve lenient_env example_service (cr_request example_request) =
      operation_handler lenient_env example_service ''list-offerings'' [] (cr_request example_request)
        (if rq_method (cr_request example_request) = ''HEAD'' then ''GET'' else rq_method (cr_request example_request))"
    by (intro serve_operation) simp_all
  then show ?thesis by (simp add: example_request_def)
qed

subsection \<open>What construction establishes\<close>

definition advertises :: "catalog \<Rightarrow> string \<Rightarrow> bool" where
  "advertises c operation \<longleftrightarrow>
     operation = ''get-offering'' \<and> GetOffering c \<noteq> None \<or>
     operation = ''list-offerings'' \<and> ListOfferings c \<noteq> None \<or>
     operation = ''get-collection'' \<and> GetCollection c \<noteq> None \<or>
     operation = ''list-collection-offerings'' \<and> ListCollectionOfferings c \<noteq> None \<or>
     operation = ''list-collections'' \<and> ListCollections c \<noteq> None \<or>
     operation = ''search-collections'' \<and> SearchCollections c \<noteq> None \<or>
     operation = ''search-offerings'' \<and> SearchOfferings c \<noteq> None"

text \<open>The invariant of a Service: its operations are sorted and each once, they are the ones its catalog
  has a handler for, the two mandatory ones among them, and each has a requirement.\<close>

definition service_ok :: "service \<Rightarrow> bool" where
  "service_ok sv \<longleftrightarrow>
     sorted (map fst (sv_authentication sv)) \<and> distinct (map fst (sv_authentication sv)) \<and>
     list_all (\<lambda>op. (op \<in> set (map fst (sv_authentication sv))) = advertises (sv_catalog sv) op) operations \<and>
     set (map fst (sv_authentication sv)) \<subseteq> set operations \<and>
     GetOffering (sv_catalog sv) \<noteq> None \<and> ListOfferings (sv_catalog sv) \<noteq> None \<and>
     list_all (\<lambda>(_, requirement). requirement \<noteq> []) (sv_authentication sv)"

lemma enabled_operations_advertised:
  assumes "GetOffering c \<noteq> None" and "ListOfferings c \<noteq> None"
  shows "distinct (enabled_operations c)" "set (enabled_operations c) \<subseteq> set operations"
    "operation \<in> set (enabled_operations c) \<longleftrightarrow> advertises c operation"
  using assms by (auto simp: enabled_operations_def advertises_def operations_def operationMethods_def)

lemma New_fields:
  assumes "New env options = Inr sv"
  shows "sv_catalog sv = so_catalog options \<and> GetOffering (so_catalog options) \<noteq> None \<and>
    ListOfferings (so_catalog options) \<noteq> None \<and>
    sv_authentication sv = map (\<lambda>op. (op, requirement_of (so_authentication options) op))
      (sort (enabled_operations (so_catalog options)))"
  using assms unfolding New_def Let_def
  by (auto simp: res_simps split: option.split_asm prod.split_asm if_split_asm)

text \<open>C15: a Service that \<open>New\<close> returns satisfies the invariant, so that no handler it calls is nil and
  what it advertises is what it serves; it never changes afterwards.\<close>

theorem New_invariant:
  assumes "New env options = Inr sv"
  shows "service_ok sv"
proof -
  note new = New_fields [OF assms]
  have keys: "map fst (sv_authentication sv) = sort (enabled_operations (so_catalog options))"
    using new by (simp add: o_def)
  have "list_all (\<lambda>(_, requirement). requirement \<noteq> []) (sv_authentication sv)"
    using new by (auto simp: list_all_iff requirement_of_def split: option.splits)
  with new keys enabled_operations_advertised [of "so_catalog options"] show ?thesis
    by (auto simp: service_ok_def list_all_iff)
qed

lemma read_json_encode: "plain_json j \<Longrightarrow> read_json (encode_json j) = Decoded j EndOfInput"
  using json_codec.decode_encoded [of j]
  by (auto simp: decode_text_def read_json_def split: option.splits prod.splits if_splits simp del: parse_value.simps)

text \<open>What the parser is given in the model is what the bytes of \<open>json.Marshal\<close> read as.\<close>

lemma encoded_read: "plain_json (marshal t v) \<Longrightarrow> encoded t v = read_json (json_text t v)"
  by (simp add: encoded_def json_text_def read_json_encode)

definition advertised_document :: "service_options \<Rightarrow> gval" where
  "advertised_document options =
     set_field ''Operations'' (GSlice (Some
       (map (\<lambda>op. GStruct [(''Authentication'', GStr (requirement_of (so_authentication options) op)),
          (''Name'', GStr op)]) (sort (enabled_operations (so_catalog options))))))
       (set_field ''ODPVersion'' (GStr Version) (so_document options))"

lemma New_document:
  assumes "New env options = Inr sv" and "canonical ServiceDocument_type (advertised_document options)"
  shows "sv_document sv = advertised_document options \<and>
    length (json_text ServiceDocument_type (advertised_document options)) \<le> 65536 \<and>
    text_depth (json_text ServiceDocument_type (advertised_document options)) \<le> 8"
proof -
  have wf: "wf_type ServiceDocument_type"
    using model_types_wf by (simp add: list_all_iff model_types_def)
  have document: "set_field ''Operations'' (GSlice (Some (map (\<lambda>(op, r).
        GStruct [(''Authentication'', GStr r), (''Name'', GStr op)])
        (map (\<lambda>op. (op, requirement_of (so_authentication options) op))
          (sort (enabled_operations (so_catalog options)))))))
      (set_field ''ODPVersion'' (GStr Version) (so_document options)) = advertised_document options"
    by (simp add: advertised_document_def o_def)
  show ?thesis
    using assms(1) round_trip [OF wf assms(2)]
    unfolding New_def Let_def document ParseServiceDocument_def
    by (auto simp: res_simps parseJSON_Inr encoded_def maximumDocumentBytes_def maximumDocumentDepth_def
        split: option.split_asm prod.split_asm if_split_asm)
qed

text \<open>A Service that could be constructed serves its document: a GET or HEAD of the well-known path
  that accepts the media type and has no condition is answered 200 with the document New was given,
  the version and the operations in it, whatever the catalog does.\<close>

theorem well_known_served:
  assumes "New env options = Inr sv" and "canonical ServiceDocument_type (advertised_document options)"
    and "rq_method request \<in> {''GET'', ''HEAD''}" and "EscapedPath (rq_url request) = ''/.well-known/odp''"
    and "acceptsODP (rq_header request ''Accept'')" and "rq_header request ''If-None-Match'' = []"
  shows "\<exists>answer. serve env sv request = Inr answer \<and> rs_status answer = 200 \<and>
    rs_content answer = json_text ServiceDocument_type (advertised_document options) \<and>
    header_get (rs_headers answer) ''Cache-Control'' = []"
  using New_document [OF assms(1,2)] assms(3-6)
  by (auto simp: serve_def requireMethod_def respond_def matchesEntityTag_def maximumDocumentBytes_def
      maximumDocumentDepth_def response_headers_def caller_specific_def header_get_set Let_def)
    (simp_all add: header_get_def header_values_def)

definition example_options :: service_options where
  "example_options =
     \<lparr>so_catalog = static_handlers [example_offering] [] ''k'' 0,
      so_document = fold (\<lambda>(name, v). set_field name v)
        [(''Language'', GStr ''en''), (''Localizations'', GSlice (Some [GStr ''en'']))] (zero ServiceDocument_type),
      so_on_error = False, so_authentication = []\<rparr>"

definition example_document_json :: json where
  "example_document_json =
     JObj [(''description'', JStr []), (''http'', JObj [(''endpoint_base'', JStr [])]),
       (''language'', JStr ''en''), (''localizations'', JArr [JStr ''en'']), (''name'', JStr []),
       (''odp_version'', JStr ''1.0''),
       (''operations'', JArr
          [JObj [(''authentication'', JStr ''not-required''), (''name'', JStr ''get-offering'')],
           JObj [(''authentication'', JStr ''not-required''), (''name'', JStr ''list-offerings'')]])]"

lemma example_document:
  "marshal ServiceDocument_type (advertised_document example_options) = example_document_json"
  "canonical ServiceDocument_type (advertised_document example_options)"
  "serviceDocumentIssues lenient_env (advertised_document example_options) = []"
  "Depth (Some example_document_json) = 4"
  by code_simp+

lemma example_document_text:
  "plain_json example_document_json" "length (encode_json example_document_json) \<le> 65536"
  by (simp_all add: example_document_json_def ascii_def encode_string_def rune_spans_ascii_Cons escape_rune_def)

lemma example_New: "\<exists>sv. New lenient_env example_options = Inr sv"
proof -
  let ?document = "advertised_document example_options"
  have wf: "wf_type ServiceDocument_type"
    using model_types_wf by (simp add: list_all_iff model_types_def)
  have "ParseServiceDocument lenient_env (encoded ServiceDocument_type ?document) = Inr ?document"
    unfolding ParseServiceDocument_def parse_encoded_iff [OF wf example_document(2)]
    by (simp add: example_document schema_accepts_def) (simp add: lenient_env_def)
  moreover have "text_depth (json_text ServiceDocument_type ?document) = 4"
    using example_document(4) example_document_text(1)
    by (simp add: text_depth_def json_text_def example_document(1) read_json_encode first_value_def)
  moreover have "length (json_text ServiceDocument_type ?document) \<le> 65536"
    using example_document_text(2) by (simp add: json_text_def example_document(1))
  moreover have "GetOffering (so_catalog example_options) \<noteq> None" "ListOfferings (so_catalog example_options) \<noteq> None"
      "so_authentication example_options = []"
    by (simp_all add: example_options_def static_handlers_def)
  ultimately show ?thesis
    unfolding New_def Let_def
    by (auto simp: advertised_document_def o_def maximumDocumentBytes_def maximumDocumentDepth_def)
qed

theorem New_invariant_witness:
  "\<exists>sv. New lenient_env example_options = Inr sv \<and> service_ok sv"
  using example_New New_invariant by blast

theorem well_known_served_witness:
  "\<exists>sv answer. New lenient_env example_options = Inr sv \<and>
     serve lenient_env sv (cr_request example_request\<lparr>rq_url := empty_url\<lparr>url_path := ''/.well-known/odp''\<rparr>\<rparr>)
       = Inr answer \<and> rs_status answer = 200"
proof -
  let ?request = "cr_request example_request\<lparr>rq_url := empty_url\<lparr>url_path := ''/.well-known/odp''\<rparr>\<rparr>"
  obtain sv where sv: "New lenient_env example_options = Inr sv" using example_New by blast
  have "EscapedPath (rq_url ?request) = ''/.well-known/odp''" by (simp add: example_request_def) code_simp
  moreover have "acceptsODP (rq_header ?request ''Accept'')" "rq_header ?request ''If-None-Match'' = []"
      "rq_method ?request \<in> {''GET'', ''HEAD''}"
    by (simp_all add: example_request_def acceptsODP_def trim_space_def)
  ultimately show ?thesis
    using well_known_served [OF sv example_document(2), of ?request] sv by blast
qed

subsection \<open>Every answer\<close>

lemma respond_Inr:
  assumes "respond t v exchange = Inr answer"
  shows "rs_status answer = 200 \<or> rs_status answer = 304 \<and> rs_content answer = []"
  using assms by (auto simp: respond_def Let_def split: if_splits)

lemma serve_Inr:
  assumes "serve env sv request = Inr answer"
  shows "rs_status answer = 200 \<or> rs_status answer = 304 \<and> rs_content answer = []"
  using assms
  unfolding serve_def Let_def route_def route_identified_def listOfferings_def listCollections_def
    listCollectionOfferings_def getOffering_def getCollection_def searchOfferings_def searchCollections_def
    respondPage_def respondResource_def
  by (auto simp: res_simps split: if_split_asm option.split_asm prod.split_asm dest!: respond_Inr)

text \<open>A problem document that is sent: its status is an error status, and it is not cached.\<close>

lemma writeProblem_headers:
  "header_get (rs_headers (writeProblem env p)) ''Cache-Control'' = ''no-store'' \<and>
   header_get (rs_headers (writeProblem env p)) ''Content-Type'' = ''application/problem+json''"
  by (simp add: writeProblem_def Let_def header_get_set ProblemMediaType_def split: prod.split)

lemma writeProblem_status:
  "400 \<le> rs_status (writeProblem env p) \<and> rs_status (writeProblem env p) \<le> 599"
  by (auto simp: writeProblem_def answered_def Let_def split: prod.split)

text \<open>Whatever the request and the catalog, a Service answers: 200 with a document, 304 without one, or
  an error status (400 through 599) with a problem document that no cache may store.  A failure
  that is no problem of the catalog's own is answered 500 with a fixed message, nothing of the
  failure in it, and handed to the observer once if there is one; nothing else is.\<close>

theorem ServeHTTP_answers:
  "(rs_status (fst (ServeHTTP env sv request)) = 200 \<or>
    rs_status (fst (ServeHTTP env sv request)) = 304 \<and> rs_content (fst (ServeHTTP env sv request)) = [] \<or>
    400 \<le> rs_status (fst (ServeHTTP env sv request)) \<and> rs_status (fst (ServeHTTP env sv request)) \<le> 599 \<and>
    header_get (rs_headers (fst (ServeHTTP env sv request))) ''Cache-Control'' = ''no-store'' \<and>
    header_get (rs_headers (fst (ServeHTTP env sv request))) ''Content-Type'' = ''application/problem+json'') \<and>
   (case serve env sv request of
      Inl (Unexpected err) \<Rightarrow> ServeHTTP env sv request =
        (writeProblem env internal_problem, if sv_on_error sv then [err] else [])
    | _ \<Rightarrow> snd (ServeHTTP env sv request) = [])"
  using serve_Inr [of env sv request] writeProblem_status writeProblem_headers
  by (auto simp: ServeHTTP_def report_def split: sum.split service_error.split)


definition example_exchange :: served where
  "example_exchange =
     \<lparr>sd_authentication = ''optional'', sd_expands = False, sd_language = ''en'', sd_max_bytes = 100,
      sd_max_depth = 2, sd_method = ''GET'', sd_request = cr_request example_request\<rparr>"

lemma example_respond:
  "\<exists>answer. respond TString (GStr []) example_exchange = Inr answer \<and> rs_status answer = 200"
proof -
  have "json_text TString (GStr []) = [CHR 0x22, CHR 0x22]"
    by (simp add: json_text_def encode_string_def)
  moreover have "text_depth (json_text TString (GStr [])) = 1"
    by (simp add: text_depth_def json_text_def read_json_encode ascii_def first_value_def del: encode_json.simps)
      code_simp
  ultimately show ?thesis
    by (simp add: respond_def example_exchange_def example_request_def matchesEntityTag_def Let_def)
qed


subsection \<open>Revalidation\<close>

lemma base64_encode_chars: "set (base64_encode s) \<subseteq> set base64_alphabet"
proof -
  have char: "base64_char n \<in> set base64_alphabet" if "n < 64" for n
    using that base64_alphabet(1) by (simp add: base64_char_def)
  show ?thesis
    by (induction s rule: base64_encode.induct) (simp_all add: char byte_bounds)
qed

lemma entityTag_matches: "matchesEntityTag (entityTag language text) (entityTag language text)"
proof -
  let ?tag = "entityTag language text"
  have alphabet: "list_all (\<lambda>c. c \<noteq> CHR '','' \<and> byte c < 128 \<and> \<not> is_space (byte c)) base64_alphabet"
    by (simp add: base64_alphabet_def is_space_def)
  have "set ?tag \<subseteq> insert CHR 0x22 (set base64_alphabet)"
    using base64_encode_chars by (auto simp: entityTag_def dest!: in_set_takeD)
  moreover have "c \<noteq> CHR '','' \<and> byte c < 128 \<and> \<not> is_space (byte c)" if "c \<in> set base64_alphabet" for c
    using alphabet that unfolding list_all_iff by (rule bspec)
  moreover have "CHR 0x22 \<noteq> CHR '','' \<and> byte CHR 0x22 < 128 \<and> \<not> is_space (byte CHR 0x22)"
    by (simp add: is_space_def)
  ultimately have chars: "c \<noteq> CHR '','' \<and> byte c < 128 \<and> \<not> is_space (byte c)" if "c \<in> set ?tag" for c
    using that by (metis insertE subsetD)
  have tag: "CHR '','' \<notin> set ?tag" "ascii ?tag" "\<forall>c\<in>set ?tag. \<not> is_space (byte c)"
    unfolding ascii_def using chars by blast+
  have "trim_prefix ?tag ''W/'' = ?tag" by (simp add: entityTag_def trim_prefix_def)
  then show ?thesis
    using tag trim_space_no_space [OF tag(2,3)]
    by (simp add: matchesEntityTag_def split_on_no_sep) (simp add: entityTag_def)
qed

text \<open>C17: an answer can be revalidated: a GET that presents the \<open>ETag\<close> of the 200 it was given, for a
  document that has not changed, is answered 304 with the same tag and no content.\<close>

theorem revalidation:
  assumes "respond t v exchange = Inr answer" and "rs_status answer = 200" and "sd_method exchange = ''GET''"
    and "rq_header request ''If-None-Match'' = header_get (rs_headers answer) ''ETag''"
  shows "\<exists>again. respond t v (exchange\<lparr>sd_request := request\<rparr>) = Inr again \<and> rs_status again = 304 \<and>
    rs_content again = [] \<and> rs_headers again = rs_headers answer"
  using assms entityTag_matches
  by (auto simp: respond_def Let_def response_headers_def header_get_set caller_specific_def split: if_splits)

theorem revalidation_witness:
  "\<exists>answer again. respond TString (GStr []) example_exchange = Inr answer \<and>
     respond TString (GStr []) (example_exchange\<lparr>sd_request := cr_request example_request
       \<lparr>rq_header := (\<lambda>_. header_get (rs_headers answer) ''ETag'')\<rparr>\<rparr>) = Inr again \<and> rs_status again = 304"
proof -
  obtain answer where "respond TString (GStr []) example_exchange = Inr answer" "rs_status answer = 200"
    using example_respond by blast
  with revalidation [OF this, of "cr_request example_request
      \<lparr>rq_header := (\<lambda>_. header_get (rs_headers answer) ''ETag'')\<rparr>"] show ?thesis
    by (auto simp: example_exchange_def)
qed

end
