(* ===== verification/AgentCache.thy ===== *)
theory AgentCache
  imports GoHash GoHttp GoJsonText
begin

section \<open>The Agent's cache\<close>

text \<open>
  \<open>agent/cache.go\<close>, the \<open>Cache\<close> interface of \<open>agent/types.go\<close> and the keys of \<open>agent/transport.go\<close>.
  A cache is a state and three operations on it that may fail with a text; \<open>MemoryCache\<close> is the one
  the module provides.  Its mutex makes each operation one step, and the bodies it copies are values
  here.  Times are nanoseconds, and the zero time is \<open>None\<close>.
\<close>

record cache_record =
  rec_content :: string
  rec_etag :: string
  rec_expires :: int
  rec_final_url :: string
  rec_last_modified :: string
  rec_status :: int
  rec_stored :: "int option"

record 'c cache_ops =
  op_get :: "'c \<Rightarrow> string \<Rightarrow> string + cache_record option"
  op_set :: "'c \<Rightarrow> string \<Rightarrow> cache_record \<Rightarrow> (string + unit) \<times> 'c"
  op_delete :: "'c \<Rightarrow> string \<Rightarrow> (string + unit) \<times> 'c"

subsection \<open>The interface\<close>

text \<open>What the transport relies on: a successful \<open>Set\<close> or \<open>Delete\<close> is seen by the next \<open>Get\<close> of the key, and
  no operation on one key, a failing one included, changes what is held under another.\<close>

locale agent_cache =
  fixes ops :: "'c cache_ops"
  assumes get_set: "op_set ops c k r = (Inr (), c') \<Longrightarrow> op_get ops c' k = Inr (Some r)"
    and get_set_other: "op_set ops c k r = (res, c') \<Longrightarrow> k' \<noteq> k \<Longrightarrow> op_get ops c' k' = op_get ops c k'"
    and get_delete: "op_delete ops c k = (Inr (), c') \<Longrightarrow> op_get ops c' k = Inr None"
    and get_delete_other: "op_delete ops c k = (res, c') \<Longrightarrow> k' \<noteq> k \<Longrightarrow> op_get ops c' k' = op_get ops c k'"
begin

text \<open>Steps on the cache under one key that store only records satisfying \<open>Q\<close>.\<close>

inductive touches :: "(cache_record \<Rightarrow> bool) \<Rightarrow> string \<Rightarrow> 'c \<Rightarrow> 'c \<Rightarrow> bool" for Q k where
  keep: "touches Q k c c"
| set: "touches Q k c c' \<Longrightarrow> Q r \<Longrightarrow> op_set ops c' k r = (res, c'') \<Longrightarrow> touches Q k c c''"
| delete: "touches Q k c c' \<Longrightarrow> op_delete ops c' k = (res, c'') \<Longrightarrow> touches Q k c c''"

lemma touches_other: "touches Q k c c' \<Longrightarrow> k' \<noteq> k \<Longrightarrow> op_get ops c' k' = op_get ops c k'"
  by (induction rule: touches.induct) (auto simp: get_set_other get_delete_other)

lemma touches_trans: "touches Q k c' c'' \<Longrightarrow> touches Q k c c' \<Longrightarrow> touches Q k c c''"
  by (induction rule: touches.induct) (auto intro: touches.intros)

lemma touches_delete: "touches Q k c (snd (op_delete ops c k))"
  by (rule delete [OF keep]) (rule prod.collapse [symmetric])

lemma touches_set: "Q r \<Longrightarrow> touches Q k c (snd (op_set ops c k r))"
  by (rule set [OF keep _ prod.collapse [symmetric]])

end

text \<open>A cache whose operations do not fail holds under the key what it held or what was stored.\<close>

locale reliable_cache = agent_cache ops for ops :: "'c cache_ops" +
  assumes set_succeeds: "fst (op_set ops c k r) = Inr ()"
    and delete_succeeds: "fst (op_delete ops c k) = Inr ()"
begin

lemma touches_content:
  assumes "touches Q k c c'" and "op_get ops c' k = Inr (Some r)"
  shows "op_get ops c k = Inr (Some r) \<or> Q r"
  using assms
proof (induction arbitrary: r rule: touches.induct)
  case (set c c' r' res c'')
  then have "res = Inr ()" using set_succeeds [of c' k r'] by simp
  with set get_set show ?case by fastforce
next
  case (delete c c' res c'')
  then have "res = Inr ()" using delete_succeeds [of c' k] by simp
  with delete get_delete show ?case by fastforce
qed simp

end

subsection \<open>\<open>MemoryCache\<close>\<close>

type_synonym memory_cache = "(string \<times> cache_record) list"

definition NewMemoryCache :: memory_cache where "NewMemoryCache = []"

definition MemoryCache_Delete :: "memory_cache \<Rightarrow> string \<Rightarrow> (string + unit) \<times> memory_cache" where
  "MemoryCache_Delete records key = (Inr (), AList.delete key records)"

definition MemoryCache_Get :: "memory_cache \<Rightarrow> string \<Rightarrow> string + cache_record option" where
  "MemoryCache_Get records key = Inr (map_of records key)"

definition MemoryCache_Set ::
  "memory_cache \<Rightarrow> string \<Rightarrow> cache_record \<Rightarrow> (string + unit) \<times> memory_cache" where
  "MemoryCache_Set records key r = (Inr (), AList.update key r records)"

definition memory_ops :: "memory_cache cache_ops" where
  "memory_ops = \<lparr>op_get = MemoryCache_Get, op_set = MemoryCache_Set, op_delete = MemoryCache_Delete\<rparr>"

interpretation memory: reliable_cache memory_ops
  by unfold_locales
    (auto simp: memory_ops_def MemoryCache_Get_def MemoryCache_Set_def MemoryCache_Delete_def)

subsection \<open>Keys\<close>

definition hex_text :: "string \<Rightarrow> string" where
  "hex_text s = concat (map (\<lambda>c. [hex_lower (byte c div 16), hex_lower (byte c mod 16)]) s)"

definition key_document :: "string \<Rightarrow> string \<Rightarrow> string \<Rightarrow> string \<Rightarrow> string option \<Rightarrow> json" where
  "key_document part verb url language content =
     JObj ((case content of None \<Rightarrow> [] | Some bytes \<Rightarrow> [(''body_hash'', JStr (hex_text (sha256 bytes)))]) @
       (if language = [] then [] else [(''language'', JStr language)]) @
       [(''method'', JStr verb), (''partition'', JStr part), (''url'', JStr url)])"

definition cacheKey :: "string \<Rightarrow> string \<Rightarrow> string \<Rightarrow> string \<Rightarrow> string option \<Rightarrow> string" where
  "cacheKey part verb url language content = encode_json (key_document part verb url language content)"

lemma hex_text_ascii: "ascii (hex_text s)"
proof -
  have "list_all (\<lambda>n. byte (hex_lower n) < 128) [0..<16]" by code_simp
  then have "byte (hex_lower n) < 128" if "n < 16" for n using that by (simp add: list_all_iff)
  moreover have "byte c div 16 < 16" "byte c mod 16 < 16" for c
    using byte_bounds by (simp_all add: less_mult_imp_div_less)
  ultimately show ?thesis by (auto simp: hex_text_def ascii_def)
qed

text \<open>Cached answers are kept apart: two requests share a cache key only when they have the same
  partition, method, URL, language and, if either has a body, the same digest of it.\<close>

theorem cacheKey_separates:
  assumes "cacheKey part verb url language content = cacheKey part' verb' url' language' content'"
    and "ascii (part @ verb @ url @ language)" and "ascii (part' @ verb' @ url' @ language')"
  shows "part = part' \<and> verb = verb' \<and> url = url' \<and> language = language' \<and>
    map_option (\<lambda>s. hex_text (sha256 s)) content = map_option (\<lambda>s. hex_text (sha256 s)) content'"
proof -
  have plain: "plain_json (key_document p v u l c)" if "ascii (p @ v @ u @ l)" for p v u l c
  proof -
    from that have "ascii p" "ascii v" "ascii u" "ascii l" by (auto simp: ascii_def)
    then show ?thesis
      using hex_text_ascii by (cases c) (simp_all add: key_document_def, simp_all add: ascii_def)
  qed
  have "key_document part verb url language content = key_document part' verb' url' language' content'"
    using json_codec.encode_inj [OF plain [OF assms(2)] plain [OF assms(3)]] assms(1)
    unfolding cacheKey_def by blast
  then show ?thesis
    by (cases content; cases content') (auto simp: key_document_def split: if_splits)
qed

theorem cacheKey_separates_witness:
  "cacheKey ''a'' ''GET'' ''https://s.co/x'' ''en'' None \<noteq> cacheKey ''b'' ''GET'' ''https://s.co/x'' ''en'' None"
proof
  assume eq: "cacheKey ''a'' ''GET'' ''https://s.co/x'' ''en'' None = cacheKey ''b'' ''GET'' ''https://s.co/x'' ''en'' None"
  have "ascii (p @ ''GET'' @ ''https://s.co/x'' @ ''en'')" if "ascii p" for p
    using that by (auto simp: ascii_def)
  then have "ascii (''a'' @ ''GET'' @ ''https://s.co/x'' @ ''en'')" "ascii (''b'' @ ''GET'' @ ''https://s.co/x'' @ ''en'')"
    by (simp_all add: ascii_def)
  from cacheKey_separates [OF eq this] show False by simp
qed

end
