(* ===== verification/GoTime.thy ===== *)
theory GoTime
  imports GoStrings
begin

section \<open>Times\<close>

text \<open>
  \<open>http.ParseTime\<close>: \<open>time.Parse\<close> of the three layouts of HTTP dates.  A time is its nanoseconds since
  1970, and a \<open>time.Duration\<close> its nanoseconds, an \<open>int64\<close> that wraps.  What the zone abbreviations of the
  machine mean is the parameter \<open>zones\<close>, from a name and the seconds since 1970 to the offset in
  seconds; a name it does not know stands for UTC.
\<close>

definition wrap64 :: "int \<Rightarrow> int" where
  "wrap64 n = (n + 2 ^ 63) mod 2 ^ 64 - 2 ^ 63"

definition second :: int where "second = 1000000000"

lemma wrap64_id: "- (2 ^ 63) \<le> n \<Longrightarrow> n < 2 ^ 63 \<Longrightarrow> wrap64 n = n"
  by (simp add: wrap64_def)

lemma wrap64_over: "2 ^ 63 \<le> n \<Longrightarrow> n < 2 ^ 64 \<Longrightarrow> wrap64 n = n - 2 ^ 64"
proof -
  assume n: "2 ^ 63 \<le> n" "n < 2 ^ 64"
  then have "(n - 2 ^ 63 + 2 ^ 64) mod 2 ^ 64 = n - 2 ^ 63"
    unfolding mod_add_self2 by (intro mod_pos_pos_trivial) simp_all
  moreover have "n - 2 ^ 63 + 2 ^ 64 = n + 2 ^ 63" by simp
  ultimately have eq: "(n + 2 ^ 63) mod 2 ^ 64 = n - 2 ^ 63" by metis
  show ?thesis unfolding wrap64_def eq by simp
qed

text \<open>\<open>t.Sub(u)\<close> saturates.\<close>

definition time_sub :: "int \<Rightarrow> int \<Rightarrow> int" where
  "time_sub t u = max (- (2 ^ 63)) (min (2 ^ 63 - 1) (t - u))"

subsection \<open>The calendar\<close>

definition is_leap :: "int \<Rightarrow> bool" where
  "is_leap year \<longleftrightarrow> year mod 4 = 0 \<and> (year mod 100 \<noteq> 0 \<or> year mod 400 = 0)"

definition month_days :: "int \<Rightarrow> int list" where
  "month_days year = [31, if is_leap year then 29 else 28, 31, 30, 31, 30, 31, 31, 30, 31, 30, 31]"

definition days_since_1970 :: "int \<Rightarrow> nat \<Rightarrow> int \<Rightarrow> int" where
  "days_since_1970 year month day =
     (let y = year - 1 in
      365 * y + y div 4 - y div 100 + y div 400 + sum_list (take month (month_days year)) + day - 1 - 719162)"

subsection \<open>Fields of a layout\<close>

definition shortDayNames :: "string list" where
  "shortDayNames = [''Sun'', ''Mon'', ''Tue'', ''Wed'', ''Thu'', ''Fri'', ''Sat'']"

definition longDayNames :: "string list" where
  "longDayNames = [''Sunday'', ''Monday'', ''Tuesday'', ''Wednesday'', ''Thursday'', ''Friday'', ''Saturday'']"

definition shortMonthNames :: "string list" where
  "shortMonthNames = [''Jan'', ''Feb'', ''Mar'', ''Apr'', ''May'', ''Jun'', ''Jul'', ''Aug'', ''Sep'', ''Oct'', ''Nov'', ''Dec'']"

text \<open>\<open>match\<close>: equal, or the same letters in either case.\<close>

definition letter_match :: "char \<Rightarrow> char \<Rightarrow> bool" where
  "letter_match c d \<longleftrightarrow> c = d \<or>
     (let lower = (\<lambda>b. if is_upper b then char_of (byte b + 32) else b) in
      lower c = lower d \<and> is_lower (lower c))"

fun lookup_name :: "nat \<Rightarrow> string list \<Rightarrow> string \<Rightarrow> (nat \<times> string) option" where
  "lookup_name i [] v = None"
| "lookup_name i (name # names) v =
     (if length v \<ge> length name \<and> list_all2 letter_match (take (length name) v) name
      then Some (i, drop (length name) v) else lookup_name (Suc i) names v)"

definition cutspace :: "string \<Rightarrow> string" where
  "cutspace s = dropWhile (\<lambda>c. c = CHR '' '') s"

function skip :: "string \<Rightarrow> string \<Rightarrow> string option" where
  "skip v [] = Some v"
| "skip v (c # layout) =
     (if c = CHR '' '' then
        (if v \<noteq> [] \<and> hd v \<noteq> CHR '' '' then None else skip (cutspace v) (cutspace layout))
      else if v = [] \<or> hd v \<noteq> c then None
      else skip (tl v) layout)"
  by pat_completeness auto
termination
  by (relation "measure (\<lambda>(_, layout). length layout)")
    (auto simp: cutspace_def length_dropWhile_le less_Suc_eq_le)

definition getnum :: "string \<Rightarrow> bool \<Rightarrow> (int \<times> string) option" where
  "getnum v fixed =
     (case v of
        [] \<Rightarrow> None
      | c # rest \<Rightarrow>
          if \<not> is_digit c then None
          else if rest \<noteq> [] \<and> is_digit (hd rest) then
            Some (int (decimal_value [c, hd rest]), tl rest)
          else if fixed then None else Some (int (decimal_value [c]), rest))"

text \<open>\<open>atoi\<close>, which takes a sign.\<close>

definition atoi_time :: "string \<Rightarrow> int option" where
  "atoi_time s =
     (let neg = s \<noteq> [] \<and> hd s = CHR ''-'';
          digits = (if s \<noteq> [] \<and> (hd s = CHR ''-'' \<or> hd s = CHR ''+'') then tl s else s) in
      if digits \<noteq> [] \<and> list_all is_digit digits
      then Some (if neg then - int (decimal_value digits) else int (decimal_value digits)) else None)"

definition bounded :: "int \<Rightarrow> (int \<times> string) option \<Rightarrow> (int \<times> string) option" where
  "bounded limit r = (case r of Some (n, v) \<Rightarrow> if n < limit then r else None | None \<Rightarrow> None)"

definition long_year :: "string \<Rightarrow> (int \<times> string) option" where
  "long_year v =
     (if length v < 4 \<or> \<not> is_digit (hd v) then None
      else map_option (\<lambda>n. (n, drop 4 v)) (atoi_time (take 4 v)))"

definition short_year :: "string \<Rightarrow> (int \<times> string) option" where
  "short_year v =
     (if length v < 2 then None
      else map_option (\<lambda>n. (if n \<ge> 69 then n + 1900 else n + 2000, drop 2 v)) (atoi_time (take 2 v)))"

text \<open>The seconds, and a fraction the layout does not ask for: its first nine digits count.\<close>

definition seconds_field :: "string \<Rightarrow> (int \<times> int \<times> string) option" where
  "seconds_field v =
     (case bounded 60 (getnum v True) of
        None \<Rightarrow> None
      | Some (sec, v) \<Rightarrow>
          if length v \<ge> 2 \<and> hd v \<in> set ''.,'' \<and> is_digit (v ! 1) then
            (let digits = takeWhile is_digit (tl v); used = take 9 digits in
             Some (sec, int (decimal_value used) * 10 ^ (9 - length used), drop (length digits) (tl v)))
          else Some (sec, 0, v))"

definition clock_field :: "string \<Rightarrow> (int \<times> string) option" where
  "clock_field v =
     Option.bind (bounded 24 (getnum v False)) (\<lambda>(hour, v).
     Option.bind (skip v '':'') (\<lambda>v.
     Option.bind (bounded 60 (getnum v True)) (\<lambda>(minute, v).
     Option.bind (skip v '':'') (\<lambda>v.
     Option.bind (seconds_field v) (\<lambda>(sec, nanos, v).
       Some ((3600 * hour + 60 * minute + sec) * second + nanos, v))))))"

subsection \<open>Zones\<close>

definition parseSignedOffset :: "string \<Rightarrow> nat" where
  "parseSignedOffset v =
     (let digits = takeWhile is_digit (tl v) in
      if hd v \<notin> set ''+-'' \<or> digits = [] \<or> decimal_value digits > 23 then 0 else 1 + length digits)"

definition parseTimeZone :: "string \<Rightarrow> nat option" where
  "parseTimeZone v =
     (if length v < 3 then None
      else if has_prefix v ''ChST'' \<or> has_prefix v ''MeST'' then Some 4
      else if has_prefix v ''GMT'' then Some (if length v = 3 then 3 else 3 + parseSignedOffset (drop 3 v))
      else if hd v \<in> set ''+-'' then (if parseSignedOffset v > 0 then Some (parseSignedOffset v) else None)
      else
        (let upper = length (takeWhile is_upper (take 6 v)) in
         if upper = 5 \<and> v ! 4 = CHR ''T'' then Some 5
         else if upper = 4 \<and> (v ! 3 = CHR ''T'' \<or> has_prefix v ''WITA'') then Some 4
         else if upper = 3 then Some 3 else None))"

text \<open>The offset of a zone at a wall clock: the machine's, the hours after \<open>GMT\<close>, or none.\<close>

definition zone_offset :: "(string \<Rightarrow> int \<Rightarrow> int option) \<Rightarrow> string \<Rightarrow> int \<Rightarrow> int" where
  "zone_offset zones name unix =
     (case zones name unix of
        Some offset \<Rightarrow> offset
      | None \<Rightarrow>
          if length name > 3 \<and> has_prefix name ''GMT''
          then (case atoi_time (drop 3 name) of Some h \<Rightarrow> 3600 * h | None \<Rightarrow> 0) else 0)"

subsection \<open>The layouts\<close>

definition date_time :: "int \<Rightarrow> nat \<Rightarrow> int \<Rightarrow> int \<Rightarrow> int option" where
  "date_time year month day clock =
     (if 1 \<le> day \<and> day \<le> month_days year ! month
      then Some (days_since_1970 year month day * 86400 * second + clock) else None)"

definition parse_rfc1123 :: "string \<Rightarrow> int option" where
  "parse_rfc1123 v =
     Option.bind (lookup_name 0 shortDayNames v) (\<lambda>(_, v).
     Option.bind (skip v '', '') (\<lambda>v.
     Option.bind (getnum v True) (\<lambda>(day, v).
     Option.bind (skip v '' '') (\<lambda>v.
     Option.bind (lookup_name 0 shortMonthNames v) (\<lambda>(month, v).
     Option.bind (skip v '' '') (\<lambda>v.
     Option.bind (long_year v) (\<lambda>(year, v).
     Option.bind (skip v '' '') (\<lambda>v.
     Option.bind (clock_field v) (\<lambda>(clock, v).
     if skip v '' GMT'' = Some [] then date_time year month day clock else None)))))))))"

definition parse_rfc850 :: "(string \<Rightarrow> int \<Rightarrow> int option) \<Rightarrow> string \<Rightarrow> int option" where
  "parse_rfc850 zones v =
     Option.bind (lookup_name 0 longDayNames v) (\<lambda>(_, v).
     Option.bind (skip v '', '') (\<lambda>v.
     Option.bind (getnum v True) (\<lambda>(day, v).
     Option.bind (skip v ''-'') (\<lambda>v.
     Option.bind (lookup_name 0 shortMonthNames v) (\<lambda>(month, v).
     Option.bind (skip v ''-'') (\<lambda>v.
     Option.bind (short_year v) (\<lambda>(year, v).
     Option.bind (skip v '' '') (\<lambda>v.
     Option.bind (clock_field v) (\<lambda>(clock, v).
     Option.bind (skip v '' '') (\<lambda>v.
     Option.bind (date_time year month day clock) (\<lambda>t.
       if v = ''UTC'' then Some t
       else if has_prefix v ''UTC'' then None
       else if parseTimeZone v = Some (length v)
       then Some (t - zone_offset zones v (t div second) * second) else None)))))))))))"

definition parse_ansic :: "string \<Rightarrow> int option" where
  "parse_ansic v =
     Option.bind (lookup_name 0 shortDayNames v) (\<lambda>(_, v).
     Option.bind (skip v '' '') (\<lambda>v.
     Option.bind (lookup_name 0 shortMonthNames v) (\<lambda>(month, v).
     Option.bind (skip v '' '') (\<lambda>v.
     Option.bind (getnum v False) (\<lambda>(day, v).
     Option.bind (skip v '' '') (\<lambda>v.
     Option.bind (clock_field v) (\<lambda>(clock, v).
     Option.bind (skip v '' '') (\<lambda>v.
     Option.bind (long_year v) (\<lambda>(year, v).
     if v = [] then date_time year month day clock else None)))))))))"

definition ParseTime :: "(string \<Rightarrow> int \<Rightarrow> int option) \<Rightarrow> string \<Rightarrow> int option" where
  "ParseTime zones text =
     (case parse_rfc1123 text of
        Some t \<Rightarrow> Some t
      | None \<Rightarrow> (case parse_rfc850 zones text of Some t \<Rightarrow> Some t | None \<Rightarrow> parse_ansic text))"

text \<open>The three spellings of the same time, and what is no time.\<close>

lemma ParseTime_layouts:
  "parse_rfc1123 ''Sun, 06 Nov 1994 08:49:37 GMT'' = Some (784111777 * second)"
  "parse_rfc850 (\<lambda>_ _. None) ''Sunday, 06-Nov-94 08:49:37 GMT'' = Some (784111777 * second)"
  "parse_ansic ''Sun Nov  6 08:49:37 1994'' = Some (784111777 * second)"
  "ParseTime (\<lambda>_ _. None) ''0'' = None" "ParseTime (\<lambda>_ _. None) [] = None"
  by code_simp+

end
