(* ===== verification/AgentTransport.thy ===== *)
theory AgentTransport
  imports AgentCache GoTime Service
begin

section \<open>Requests of an Agent\<close>

text \<open>
  \<open>agent/transport.go\<close>.  \<open>client.Do\<close> and the clock are what the world answers, functions on a state
  \<open>'w\<close> that \<open>request\<close> threads through in the order of its calls, with the state of the cache beside it.
  The client is one that \<open>NewServiceClient\<close> makes, which hands redirects back.  A body is the bytes that
  can be read of it and the error met after them, if any.
\<close>

definition documentBytes :: int where "documentBytes = 65536"
definition problemBytes :: int where "problemBytes = 16384"
definition resourceBytes :: int where "resourceBytes = 524288"
definition mediaTypeODP :: string where "mediaTypeODP = ''application/odp+json''"
definition mediaTypeProblem :: string where "mediaTypeProblem = ''application/problem+json''"

record out_request =
  out_method :: string
  out_url :: string
  out_header :: http_header
  out_body :: "string option"

record in_response =
  in_status :: int
  in_header :: http_header
  in_length :: int
  in_body :: string
  in_failure :: "string option"

record 'w network =
  net_do :: "out_request \<Rightarrow> 'w \<Rightarrow> (string + in_response) \<times> 'w"
  net_now :: "'w \<Rightarrow> int \<times> 'w"

record request_error =
  re_code :: string
  re_header :: http_header
  re_problem :: "gval option"
  re_retryable :: bool
  re_status :: int

datatype agent_error =
    Message string
  | ResponseLimitExceeded
  | UnsupportedOperation string
  | PaginationLoop
  | Rejected odp_error
  | NormalizeFailed string
  | CacheFailed string
  | NetworkFailed string
  | InvalidURL
  | RequestFailed request_error

record response_data =
  rd_body :: string
  rd_url :: string
  rd_freshness :: string
  rd_header :: http_header
  rd_status :: int

definition FreshnessFetched :: string where "FreshnessFetched = ''fetched''"
definition FreshnessFresh :: string where "FreshnessFresh = ''fresh''"
definition FreshnessRevalidated :: string where "FreshnessRevalidated = ''revalidated''"

record ('c, 'w) agent_env =
  env_cache :: "'c cache_ops option"
  env_net :: "'w network"
  env_to_ascii :: "string \<Rightarrow> string option"
  env_schemas :: schema_env
  env_zones :: "string \<Rightarrow> int \<Rightarrow> int option"

text \<open>The arguments of \<open>request\<close>.\<close>

record agent_call =
  call_method :: string
  call_target :: string
  call_body :: "string option"
  call_language :: string
  call_redirects :: int
  call_bytes :: int
  call_key :: string
  call_fallback :: int
  call_validate :: "(string \<Rightarrow> agent_error option) option"

type_synonym ('c, 'w) agent_state = "'c \<times> 'w"

definition origin_of :: "('c, 'w) agent_env \<Rightarrow> string \<Rightarrow> odp_error + string" where
  "origin_of env raw = DeriveServiceOrigin (env_to_ascii env) raw"

subsection \<open>\<open>Cache-Control\<close>\<close>

definition trim_char :: "char \<Rightarrow> string \<Rightarrow> string" where
  "trim_char c s = rev (dropWhile (\<lambda>x. x = c) (rev (dropWhile (\<lambda>x. x = c) s)))"

definition add_directive :: "string \<Rightarrow> (string \<times> string) list \<Rightarrow> (string \<times> string) list" where
  "add_directive directive result =
     (case cut CHR ''='' (trim_space directive) of (name, raw, found) \<Rightarrow>
        let name = to_lower name in
        if name = [] then result
        else if \<not> found then AList.update name [] result
        else AList.update name (trim_char CHR 0x22 (trim_space raw)) result)"

definition cacheDirectives :: "string \<Rightarrow> (string \<times> string) list" where
  "cacheDirectives v = fold add_directive (split_on CHR '','' v) []"

definition control :: "http_header \<Rightarrow> string \<Rightarrow> string option" where
  "control h name = map_of (cacheDirectives (header_get h ''Cache-Control'')) name"

definition ParseInt64 :: "string \<Rightarrow> int option" where
  "ParseInt64 s =
     (case atoi_time s of
        Some n \<Rightarrow> if - (2 ^ 63) \<le> n \<and> n < 2 ^ 63 then Some n else None
      | None \<Rightarrow> None)"

definition max_age_of :: "http_header \<Rightarrow> int option" where
  "max_age_of h =
     (case control h ''max-age'' of
        None \<Rightarrow> None
      | Some v \<Rightarrow>
          (case ParseInt64 v of
             None \<Rightarrow> None
           | Some seconds \<Rightarrow>
               if seconds < 0 then None
               else
                 (case ParseInt64 (trim_space (header_get h ''Age'')) of
                    Some age \<Rightarrow> Some (if age > 0 then max 0 (seconds - age) else seconds)
                  | None \<Rightarrow> Some seconds)))"

definition expiry :: "(string \<Rightarrow> int \<Rightarrow> int option) \<Rightarrow> http_header \<Rightarrow> int \<Rightarrow> int \<Rightarrow> int" where
  "expiry zones h fallback now =
     (if control h ''no-store'' \<noteq> None then now
      else if control h ''no-cache'' \<noteq> None then now
      else
        (case max_age_of h of
           Some seconds \<Rightarrow> now + wrap64 (seconds * second)
         | None \<Rightarrow>
             (case ParseTime zones (header_get h ''Expires'') of
                Some t \<Rightarrow> t
              | None \<Rightarrow> now + fallback)))"

definition hasFreshnessDirective :: "http_header \<Rightarrow> bool" where
  "hasFreshnessDirective h \<longleftrightarrow>
     list_ex (\<lambda>name. control h name \<noteq> None) [''max-age'', ''no-cache'', ''no-store''] \<or>
     header_get h ''Expires'' \<noteq> []"

definition supportedVary :: "string list \<Rightarrow> bool" where
  "supportedVary headers \<longleftrightarrow>
     list_all (\<lambda>h. list_all (\<lambda>name. to_lower (trim_space name) \<in>
       {[], ''accept'', ''accept-language'', ''content-type''}) (split_on CHR '','' h)) headers"

definition explicitFreshness :: "http_header \<Rightarrow> bool" where
  "explicitFreshness h \<longleftrightarrow> control h ''max-age'' \<noteq> None \<or> header_get h ''Expires'' \<noteq> []"

definition cacheable :: "string \<Rightarrow> http_header \<Rightarrow> int \<Rightarrow> bool" where
  "cacheable verb h fallback \<longleftrightarrow>
     \<not> (fallback < 0 \<or> verb \<noteq> ''GET'' \<and> verb \<noteq> ''POST'') \<and> supportedVary (header_values h ''Vary'') \<and>
     control h ''no-store'' = None \<and>
     (verb = ''GET'' \<and> (fallback > 0 \<or> control h ''no-cache'' \<noteq> None) \<or> explicitFreshness h)"

subsection \<open>Responses\<close>

definition redirectStatus :: "int \<Rightarrow> bool" where
  "redirectStatus status \<longleftrightarrow> status = 301 \<or> status = 302 \<or> status = 303 \<or> status = 307 \<or> status = 308"

definition successful :: "int \<Rightarrow> bool" where "successful status \<longleftrightarrow> 200 \<le> status \<and> status \<le> 299"

text \<open>\<open>io.ReadAll\<close> of a \<open>LimitReader\<close>: the reader's error is met only within the limit.\<close>

definition read_response :: "int \<Rightarrow> in_response \<Rightarrow> string + string" where
  "read_response n response =
     (if int (length (in_body response)) < n
      then (case in_failure response of Some err \<Rightarrow> Inl err | None \<Rightarrow> Inr (in_body response))
      else Inr (take (nat n) (in_body response)))"

definition consumeResponse :: "in_response \<Rightarrow> int \<Rightarrow> agent_error + response_data" where
  "consumeResponse response limit =
     (if in_length response > limit then Inl ResponseLimitExceeded
      else
        (case read_response (limit + 1) response of
           Inl err \<Rightarrow> Inl (NetworkFailed err)
         | Inr content \<Rightarrow>
             if int (length content) > limit then Inl ResponseLimitExceeded
             else if \<not> utf8_valid content then Inl (Message ''ODP response must use UTF-8'')
             else if successful (in_status response) \<and>
                ParseMediaType (header_get (in_header response) ''Content-Type'') \<noteq> Some mediaTypeODP
             then Inl (Message ''ODP response has an unsupported media type'')
             else
               Inr \<lparr>rd_body = content, rd_url = [], rd_freshness = [],
                 rd_header = in_header response, rd_status = in_status response\<rparr>))"

text \<open>\<open>NormalizeAgentResponse\<close> of bytes, and what a parser finds in what it encodes.\<close>

definition whole_value :: "body \<Rightarrow> json option" where
  "whole_value data = (case data of Decoded raw EndOfInput \<Rightarrow> Some raw | _ \<Rightarrow> None)"

definition normalized_body :: "body \<Rightarrow> string \<Rightarrow> string + body" where
  "normalized_body data kind =
     (case NormalizeAgentResponse (whole_value data) kind of
        Inl err \<Rightarrow> Inl err
      | Inr filtered \<Rightarrow> Inr (Decoded filtered EndOfInput))"

definition json_depth_of :: "string \<Rightarrow> nat" where
  "json_depth_of content = Depth (first_value (read_json content))"

definition response_problem :: "schema_env \<Rightarrow> response_data \<Rightarrow> gval option" where
  "response_problem env response =
     (if fst (parse_media_type (header_get (rd_header response) ''Content-Type'')) = mediaTypeProblem \<and>
         json_depth_of (rd_body response) \<le> maximumResourceDepth
      then
        (let filtered =
           (case normalized_body (read_json (rd_body response)) ''problem'' of
              Inl _ \<Rightarrow> read_json (rd_body response)
            | Inr filtered \<Rightarrow> filtered) in
         case ParseProblemResponse env filtered (rd_status response) of
           Inl _ \<Rightarrow> None
         | Inr parsed \<Rightarrow> Some parsed)
      else None)"

definition responseError :: "schema_env \<Rightarrow> response_data \<Rightarrow> agent_error" where
  "responseError env response =
     (let problem = response_problem env response in
      RequestFailed \<lparr>re_code = (case problem of Some p \<Rightarrow> str_field p ''Code'' | None \<Rightarrow> ''HTTP_ERROR''),
        re_header = rd_header response, re_problem = problem,
        re_retryable = (rd_status response = 429 \<or> rd_status response \<ge> 500),
        re_status = rd_status response\<rparr>)"

subsection \<open>\<open>request\<close>\<close>

text \<open>Reading and deleting; the error of a deletion is passed on by some callers and dropped by others.
  A cache that is \<open>nil\<close> holds nothing and is never deleted from.\<close>

definition cachedRecord ::
  "('c, 'w) agent_env \<Rightarrow> string \<Rightarrow> 'c \<Rightarrow> string + cache_record option" where
  "cachedRecord env key c =
     (case env_cache env of
        None \<Rightarrow> Inr None
      | Some ops \<Rightarrow> if key = [] then Inr None else op_get ops c key)"

definition cache_delete :: "('c, 'w) agent_env \<Rightarrow> string \<Rightarrow> 'c \<Rightarrow> (string + unit) \<times> 'c" where
  "cache_delete env key c =
     (case env_cache env of None \<Rightarrow> (Inr (), c) | Some ops \<Rightarrow> op_delete ops c key)"

definition cache_set ::
  "('c, 'w) agent_env \<Rightarrow> string \<Rightarrow> cache_record \<Rightarrow> 'c \<Rightarrow> (string + unit) \<times> 'c" where
  "cache_set env key r c =
     (case env_cache env of None \<Rightarrow> (Inr (), c) | Some ops \<Rightarrow> op_set ops c key r)"

definition rejection :: "agent_call \<Rightarrow> string \<Rightarrow> agent_error option" where
  "rejection call content = Option.bind (call_validate call) (\<lambda>validate. validate content)"

text \<open>Answering once the cache has been written: the error of the write is the answer's.\<close>

definition after_write ::
  "(string + unit) \<times> 'c \<Rightarrow> 'w \<Rightarrow> response_data \<Rightarrow> (agent_error + response_data) \<times> ('c, 'w) agent_state" where
  "after_write written w answer =
     (case written of
        (Inl err, c) \<Rightarrow> (Inl (CacheFailed err), c, w)
      | (Inr _, c) \<Rightarrow> (Inr answer, c, w))"

definition cached_answer :: "cache_record \<Rightarrow> string \<Rightarrow> string \<Rightarrow> response_data" where
  "cached_answer r final freshness =
     \<lparr>rd_body = rec_content r, rd_url = final, rd_freshness = freshness, rd_header = [], rd_status = rec_status r\<rparr>"

text \<open>The record a 304 leaves: without directives of its own it starts the old lifetime again.\<close>

definition revalidated_record ::
  "('c, 'w) agent_env \<Rightarrow> agent_call \<Rightarrow> cache_record \<Rightarrow> http_header \<Rightarrow> string \<Rightarrow> int \<Rightarrow> cache_record" where
  "revalidated_record env call r h final now =
     r\<lparr>rec_expires :=
         (if hasFreshnessDirective h then expiry (env_zones env) h (call_fallback call) now
          else now + max 0 (case rec_stored r of Some t \<Rightarrow> time_sub (rec_expires r) t | None \<Rightarrow> 0)),
       rec_etag := (if header_get h ''ETag'' \<noteq> [] then header_get h ''ETag'' else rec_etag r),
       rec_last_modified :=
         (if header_get h ''Last-Modified'' \<noteq> [] then header_get h ''Last-Modified'' else rec_last_modified r),
       rec_final_url := final, rec_stored := Some now\<rparr>"

definition revalidate ::
  "('c, 'w) agent_env \<Rightarrow> agent_call \<Rightarrow> cache_record \<Rightarrow> url \<Rightarrow> in_response \<Rightarrow> ('c, 'w) agent_state \<Rightarrow>
   (agent_error + response_data) \<times> ('c, 'w) agent_state" where
  "revalidate env call r current response s =
     (case s of (c, w) \<Rightarrow>
        let h = in_header response; final = url_string current; echoed = header_get h ''ETag'';
            answer = cached_answer r final FreshnessRevalidated in
        if echoed \<noteq> [] \<and> echoed \<noteq> rec_etag r then
          (Inl (Message ''ODP 304 confirmed a validator the cache does not hold''),
           snd (cache_delete env (call_key call) c), w)
        else if \<not> supportedVary (header_values h ''Vary'') then
          after_write (cache_delete env (call_key call) c) w answer
        else
          (case rejection call (rec_content r) of
             Some err \<Rightarrow> (Inl err, snd (cache_delete env (call_key call) c), w)
           | None \<Rightarrow>
               (case net_now (env_net env) w of (now, w) \<Rightarrow>
                  if control h ''no-store'' \<noteq> None then
                    after_write (cache_delete env (call_key call) c) w answer
                  else
                    after_write
                      (cache_set env (call_key call) (revalidated_record env call r h final now) c) w answer)))"

definition fetched_record ::
  "('c, 'w) agent_env \<Rightarrow> agent_call \<Rightarrow> response_data \<Rightarrow> int \<Rightarrow> cache_record" where
  "fetched_record env call answer now =
     (let h = rd_header answer in
      \<lparr>rec_content = rd_body answer, rec_etag = header_get h ''ETag'',
       rec_expires = expiry (env_zones env) h (call_fallback call) now, rec_final_url = rd_url answer,
       rec_last_modified = header_get h ''Last-Modified'', rec_status = rd_status answer,
       rec_stored = Some now\<rparr>)"

definition store ::
  "('c, 'w) agent_env \<Rightarrow> agent_call \<Rightarrow> string \<Rightarrow> response_data \<Rightarrow> ('c, 'w) agent_state \<Rightarrow>
   (agent_error + response_data) \<times> ('c, 'w) agent_state" where
  "store env call verb answer s =
     (case s of (c, w) \<Rightarrow>
        let fetched = answer\<lparr>rd_freshness := FreshnessFetched\<rparr> in
        if env_cache env = None \<or> call_key call = [] then (Inr fetched, c, w)
        else if cacheable verb (rd_header answer) (call_fallback call) then
          (case net_now (env_net env) w of (now, w) \<Rightarrow>
             after_write (cache_set env (call_key call) (fetched_record env call answer now) c) w fetched)
        else after_write (cache_delete env (call_key call) c) w fetched)"

text \<open>What follows the last redirect.\<close>

definition receive ::
  "('c, 'w) agent_env \<Rightarrow> agent_call \<Rightarrow> cache_record option \<Rightarrow> string \<Rightarrow> url \<Rightarrow> in_response \<Rightarrow>
   ('c, 'w) agent_state \<Rightarrow> (agent_error + response_data) \<times> ('c, 'w) agent_state" where
  "receive env call held verb current response s =
     (case consumeResponse response
         (if successful (in_status response) then call_bytes call
          else min (call_bytes call) problemBytes) of
        Inl err \<Rightarrow> (Inl err, s)
      | Inr consumed \<Rightarrow>
          let answer = consumed\<lparr>rd_url := url_string current\<rparr> in
          if rd_status answer = 304 then
            (case held of
               None \<Rightarrow> (Inl (Message ''ODP response returned 304 without a cached representation''), s)
             | Some r \<Rightarrow> revalidate env call r current response s)
          else if \<not> successful (rd_status answer) then
            (Inl (responseError (env_schemas env) answer), s)
          else
            (case rejection call (rd_body answer) of
               Some err \<Rightarrow> (Inl err, s)
             | None \<Rightarrow> store env call verb answer s))"

definition request_headers :: "agent_call \<Rightarrow> cache_record option \<Rightarrow> string option \<Rightarrow> http_header" where
  "request_headers call held content =
     (let h = header_set ''Accept'' mediaTypeODP [];
          h = (if call_language call \<noteq> [] then header_set ''Accept-Language'' (call_language call) h else h);
          h = (if content \<noteq> None then header_set ''Content-Type'' mediaTypeODP h else h) in
      case held of
        None \<Rightarrow> h
      | Some r \<Rightarrow>
          (let h = (if rec_etag r \<noteq> [] then header_set ''If-None-Match'' (rec_etag r) h else h) in
           if rec_last_modified r \<noteq> [] then header_set ''If-Modified-Since'' (rec_last_modified r) h else h))"

text \<open>\<open>http.NewRequestWithContext\<close>; a request without a method is a GET.\<close>

definition NewRequest ::
  "string \<Rightarrow> string \<Rightarrow> http_header \<Rightarrow> string option \<Rightarrow> agent_error + out_request" where
  "NewRequest verb dest h content =
     (if \<not> list_all header_field_byte verb \<or> Parse dest = None then Inl InvalidURL
      else Inr \<lparr>out_method = (if verb = [] then ''GET'' else verb), out_url = dest, out_header = h,
        out_body = content\<rparr>)"

text \<open>Where a redirect leads.\<close>

definition redirect_target ::
  "('c, 'w) agent_env \<Rightarrow> string \<Rightarrow> url \<Rightarrow> in_response \<Rightarrow> agent_error + url" where
  "redirect_target env origin current response =
     (let location = header_get (in_header response) ''Location'' in
      if location = [] then Inl (Message ''ODP redirect omitted Location'')
      else
        (case Parse location of
           None \<Rightarrow> Inl (Message ''parse ODP redirect'')
         | Some ref \<Rightarrow>
             (let next = ResolveReference current ref in
              if origin_of env (url_string next) \<noteq> Inr origin
              then Inl (Message ''ODP redirect changed Service origin'') else Inr next)))"

text \<open>The loop, with \<open>left = maxRedirects - redirects\<close>.\<close>

fun exchange ::
  "('c, 'w) agent_env \<Rightarrow> agent_call \<Rightarrow> string \<Rightarrow> cache_record option \<Rightarrow> nat \<Rightarrow> string \<Rightarrow> string option \<Rightarrow>
   url \<Rightarrow> ('c, 'w) agent_state \<Rightarrow> (agent_error + response_data) \<times> ('c, 'w) agent_state" where
  "exchange env call origin held left verb content current (c, w) =
     (case NewRequest verb (url_string current) (request_headers call held content) content of
        Inl err \<Rightarrow> (Inl err, c, w)
      | Inr req \<Rightarrow>
          (case net_do (env_net env) req w of
             (Inl err, w) \<Rightarrow> (Inl (NetworkFailed err), c, w)
           | (Inr response, w) \<Rightarrow>
               if redirectStatus (in_status response) then
                 (case left of
                    0 \<Rightarrow> (Inl (Message ''ODP response exceeded its redirect limit''), c, w)
                  | Suc left' \<Rightarrow>
                      (case redirect_target env origin current response of
                         Inl err \<Rightarrow> (Inl err, c, w)
                       | Inr next \<Rightarrow>
                           if in_status response = 303 \<or>
                              (in_status response = 301 \<or> in_status response = 302) \<and> verb = ''POST''
                           then exchange env call origin held left' ''GET'' None next (c, w)
                           else exchange env call origin held left' verb content next (c, w)))
               else receive env call held verb current response (c, w)))"

declare exchange.simps [simp del]

text \<open>The cached record a request starts from and the URL it goes to.\<close>

definition held_record ::
  "('c, 'w) agent_env \<Rightarrow> agent_call \<Rightarrow> cache_record option \<Rightarrow> 'c \<Rightarrow> cache_record option \<times> string \<times> 'c" where
  "held_record env call found c =
     (case found of
        None \<Rightarrow> (None, call_target call, c)
      | Some r \<Rightarrow>
          if rec_final_url r = [] then (found, call_target call, c)
          else
            (case (origin_of env (call_target call), origin_of env (rec_final_url r)) of
               (Inr requested, Inr final) \<Rightarrow>
                 if requested = final then (found, rec_final_url r, c)
                 else (None, call_target call, snd (cache_delete env (call_key call) c))
             | _ \<Rightarrow> (None, call_target call, snd (cache_delete env (call_key call) c))))"

definition send ::
  "('c, 'w) agent_env \<Rightarrow> agent_call \<Rightarrow> cache_record option \<Rightarrow> string \<Rightarrow> ('c, 'w) agent_state \<Rightarrow>
   (agent_error + response_data) \<times> ('c, 'w) agent_state" where
  "send env call held dest s =
     (case Parse dest of
        None \<Rightarrow> (Inl InvalidURL, s)
      | Some current \<Rightarrow>
          (case origin_of env (call_target call) of
             Inl err \<Rightarrow> (Inl (Rejected err), s)
           | Inr origin \<Rightarrow>
               exchange env call origin held (nat (call_redirects call)) (call_method call) (call_body call)
                 current s))"

definition request ::
  "('c, 'w) agent_env \<Rightarrow> agent_call \<Rightarrow> ('c, 'w) agent_state \<Rightarrow>
   (agent_error + response_data) \<times> ('c, 'w) agent_state" where
  "request env call s =
     (case s of (c, w) \<Rightarrow>
        (case cachedRecord env (call_key call) c of
           Inl err \<Rightarrow> (Inl (CacheFailed err), c, w)
         | Inr found \<Rightarrow>
             (case held_record env call found c of
                (None, dest, c) \<Rightarrow> send env call None dest (c, w)
              | (Some r, dest, c) \<Rightarrow>
                  (case net_now (env_net env) w of (now, w) \<Rightarrow>
                     if now < rec_expires r then
                       (case rejection call (rec_content r) of
                          Some err \<Rightarrow> (Inl err, snd (cache_delete env (call_key call) c), w)
                        | None \<Rightarrow> (Inr (cached_answer r dest FreshnessFresh), c, w))
                     else send env call (Some r) dest (c, w)))))"

subsection \<open>Where requests go\<close>

text \<open>A network that writes down what it is asked to send.\<close>

definition recorded :: "'w network \<Rightarrow> ('w \<times> out_request list) network" where
  "recorded net =
     \<lparr>net_do = (\<lambda>req (w, log). case net_do net req w of (r, w') \<Rightarrow> (r, w', log @ [req])),
      net_now = (\<lambda>(w, log). case net_now net w of (t, w') \<Rightarrow> (t, w', log))\<rparr>"

lemma after_write_state [simp]: "snd (after_write written w answer) = (snd written, w)"
  by (simp add: after_write_def split: prod.splits sum.splits)

lemma recorded_now: "net_now (recorded net) w = (t, w') \<Longrightarrow> snd w' = snd w"
  by (auto simp: recorded_def split: prod.splits)

lemma recorded_do: "net_do (recorded net) req w = (r, w') \<Longrightarrow> snd w' = snd w @ [req]"
  by (auto simp: recorded_def split: prod.splits)

lemma revalidate_log:
  "env_net env = recorded net \<Longrightarrow> snd (snd (snd (revalidate env call r current response s))) = snd (snd s)"
  by (auto simp: revalidate_def Let_def dest: recorded_now split: prod.splits option.splits)

lemma store_log:
  "env_net env = recorded net \<Longrightarrow> snd (snd (snd (store env call verb answer s))) = snd (snd s)"
  by (auto simp: store_def Let_def dest: recorded_now split: prod.splits)

lemma receive_log:
  "env_net env = recorded net \<Longrightarrow>
     snd (snd (snd (receive env call held verb current response s))) = snd (snd s)"
  by (simp add: receive_def Let_def revalidate_log store_log split: sum.splits option.splits)

lemma NewRequest_url: "NewRequest verb dest h content = Inr req \<Longrightarrow> out_url req = dest"
  by (auto simp: NewRequest_def split: if_splits)

lemma redirect_origin:
  "redirect_target env origin current response = Inr next \<Longrightarrow> origin_of env (url_string next) = Inr origin"
  by (auto simp: redirect_target_def Let_def split: if_splits option.splits)

text \<open>One round of the loop: nothing is sent; or a request is, and that ends it, with an error or with the
  response it was given, or leads to the next round.\<close>

lemma exchange_step:
  obtains (refused) e where "exchange env call origin held left verb content current (c, w) = (Inl e, c, w)"
  | (ended) req r w' e where
      "NewRequest verb (url_string current) (request_headers call held content) content = Inr req"
      "net_do (env_net env) req w = (r, w')"
      "exchange env call origin held left verb content current (c, w) = (Inl e, c, w')"
  | (received) req response w' where
      "NewRequest verb (url_string current) (request_headers call held content) content = Inr req"
      "net_do (env_net env) req w = (Inr response, w')"
      "exchange env call origin held left verb content current (c, w) =
         receive env call held verb current response (c, w')"
  | (followed) req response w' left' "next" verb' content' where
      "NewRequest verb (url_string current) (request_headers call held content) content = Inr req"
      "net_do (env_net env) req w = (Inr response, w')" "left = Suc left'"
      "redirect_target env origin current response = Inr next"
      "exchange env call origin held left verb content current (c, w) =
         exchange env call origin held left' verb' content' next (c, w')"
proof (cases "NewRequest verb (url_string current) (request_headers call held content) content")
  case (Inl e)
  then show ?thesis by (intro refused [of e]) (simp add: exchange.simps)
next
  case (Inr req)
  note exchange = exchange.simps [of env call origin held left verb content current c w] and made = Inr
  obtain r w' where sent: "net_do (env_net env) req w = (r, w')" by (cases "net_do (env_net env) req w")
  show ?thesis
  proof (cases r)
    case (Inl e)
    with made sent exchange show ?thesis by (intro ended) auto
  next
    case (Inr response)
    note response = this
    show ?thesis
    proof (cases "redirectStatus (in_status response)")
      case False
      with made sent exchange response show ?thesis by (intro received) auto
    next
      case redirect: True
      show ?thesis
      proof (cases left)
        case 0
        with made sent exchange response redirect show ?thesis by (intro ended) auto
      next
        case (Suc left')
        show ?thesis
        proof (cases "redirect_target env origin current response")
          case (Inl e)
          with made sent exchange response redirect Suc show ?thesis by (intro ended) auto
        next
          case (Inr "next")
          show ?thesis
          proof (cases "in_status response = 303 \<or> (in_status response = 301 \<or> in_status response = 302) \<and> verb = ''POST''")
            case True
            have "exchange env call origin held left verb content current (c, w) =
                exchange env call origin held left' ''GET'' None next (c, w')"
              by (rule trans [OF exchange]) (simp only: made sent response Suc Inr redirect True sum.case prod.case nat.case if_True)
            with made sent response Suc Inr show ?thesis by (intro followed) auto
          next
            case False
            have "exchange env call origin held left verb content current (c, w) =
                exchange env call origin held left' verb content next (c, w')"
              by (rule trans [OF exchange])
                (simp only: made sent response Suc Inr redirect False sum.case prod.case nat.case if_True if_False)
            with made sent response Suc Inr show ?thesis by (intro followed) auto
          qed
        qed
      qed
    qed
  qed
qed

lemma exchange_log:
  assumes "env_net env = recorded net"
  shows "\<exists>more. snd (snd (snd (exchange env call origin held left verb content current (c, w)))) = snd w @ more \<and>
    length more \<le> Suc left \<and> list_all (\<lambda>req. out_url req = url_string current) (take 1 more) \<and>
    list_all (\<lambda>req. origin_of env (out_url req) = Inr origin) (drop 1 more)"
proof (induction left arbitrary: verb content current w)
  case (0 verb content current w)
  show ?case
    by (rule exchange_step [of env call origin held 0 verb content current c w])
      (auto simp: assms receive_log dest!: recorded_do NewRequest_url)
next
  case (Suc left verb content current w)
  show ?case
  proof (rule exchange_step [of env call origin held "Suc left" verb content current c w], goal_cases)
    case (4 req response w' left' "next" verb' content')
    then have log: "snd w' = snd w @ [req]" and url: "out_url req = url_string current"
      using recorded_do NewRequest_url assms by fastforce+
    from Suc [of verb' content' "next" w'] obtain more where more:
        "snd (snd (snd (exchange env call origin held left verb' content' next (c, w')))) = snd w' @ more"
        "length more \<le> Suc left" "list_all (\<lambda>req. out_url req = url_string next) (take 1 more)"
        "list_all (\<lambda>req. origin_of env (out_url req) = Inr origin) (drop 1 more)"
      by blast
    then have "list_all (\<lambda>req. origin_of env (out_url req) = Inr origin) more"
      using redirect_origin [OF 4(4)] by (cases more) simp_all
    with 4 more log url show ?case by (intro exI [of _ "req # more"]) simp
  qed (auto simp: assms receive_log dest!: recorded_do NewRequest_url)
qed

lemma exchange_ends:
  "(\<exists>e w'. exchange env call origin held left verb content current (c, w) = (Inl e, c, w')) \<or>
   (\<exists>verb' current' response w'. exchange env call origin held left verb content current (c, w) =
      receive env call held verb' current' response (c, w'))"
proof (induction left arbitrary: verb content current w)
  case (0 verb content current w)
  show ?case by (rule exchange_step [of env call origin held 0 verb content current c w]) (blast, blast, blast, simp)
next
  case (Suc left verb content current w)
  show ?case
    by (rule exchange_step [of env call origin held "Suc left" verb content current c w]) (blast, blast, blast, metis Suc nat.inject)
qed

lemma held_record_cases:
  assumes "held_record env call found c = (held, dest, c')"
  shows "(held = None \<or> held = found) \<and> (dest = call_target call \<or> origin_of env dest = origin_of env (call_target call)) \<and>
    (c' = c \<or> held = None \<and> c' = snd (cache_delete env (call_key call) c))"
  using assms by (auto simp: held_record_def split: option.splits if_splits sum.splits)

lemma send_log:
  fixes env and call and held and dest and c and w
  assumes "env_net env = recorded net" and "snd w = []"
    and "dest = call_target call \<or> origin_of env dest = origin_of env (call_target call)"
  defines "log \<equiv> snd (snd (snd (send env call held dest (c, w))))"
  shows "length log \<le> Suc (nat (call_redirects call)) \<and>
    (case origin_of env (call_target call) of
       Inl _ \<Rightarrow> log = []
     | Inr origin \<Rightarrow>
         list_all (\<lambda>req. \<exists>dest u. origin_of env dest = Inr origin \<and> Parse dest = Some u \<and>
           out_url req = url_string u) (take 1 log) \<and>
         list_all (\<lambda>req. origin_of env (out_url req) = Inr origin) (drop 1 log))"
proof (cases "Parse dest")
  case None
  with assms(2) show ?thesis by (simp add: log_def send_def split: sum.split)
next
  case (Some current)
  show ?thesis
  proof (cases "origin_of env (call_target call)")
    case (Inl e)
    with assms(2) Some show ?thesis by (simp add: log_def send_def)
  next
    case (Inr origin)
    with assms(3) have "origin_of env dest = Inr origin" by auto
    moreover have "length log \<le> Suc (nat (call_redirects call)) \<and>
        list_all (\<lambda>req. out_url req = url_string current) (take 1 log) \<and>
        list_all (\<lambda>req. origin_of env (out_url req) = Inr origin) (drop 1 log)"
      using exchange_log [OF assms(1), of call origin held "nat (call_redirects call)" "call_method call"
          "call_body call" current c w] assms(2) Some Inr by (auto simp: log_def send_def)
    ultimately show ?thesis using Some Inr by (cases log) auto
  qed
qed

text \<open>What \<open>request\<close> does before it sends anything.\<close>

lemma request_step:
  obtains (failed) e where "request env call (c, w) = (Inl (CacheFailed e), c, w)"
  | (fresh) found r dest c1 t w1 where "cachedRecord env (call_key call) c = Inr found"
      "held_record env call found c = (Some r, dest, c1)" "net_now (env_net env) w = (t, w1)"
      "t < rec_expires r" "rejection call (rec_content r) = None"
      "request env call (c, w) = (Inr (cached_answer r dest FreshnessFresh), c1, w1)"
  | (rejected) found r dest c1 t w1 e where "cachedRecord env (call_key call) c = Inr found"
      "held_record env call found c = (Some r, dest, c1)" "net_now (env_net env) w = (t, w1)"
      "request env call (c, w) = (Inl e, snd (cache_delete env (call_key call) c1), w1)"
  | (sent) found held dest c1 w1 where "cachedRecord env (call_key call) c = Inr found"
      "held_record env call found c = (held, dest, c1)"
      "w1 = w \<or> w1 = snd (net_now (env_net env) w)"
      "request env call (c, w) = send env call held dest (c1, w1)"
proof (cases "cachedRecord env (call_key call) c")
  case (Inl e)
  then show ?thesis by (intro failed) (simp add: request_def)
next
  case (Inr found)
  note found = this
  obtain held dest c1 where held: "held_record env call found c = (held, dest, c1)" by (metis prod_cases3)
  show ?thesis
  proof (cases held)
    case None
    with found held show ?thesis by (intro sent) (auto simp: request_def)
  next
    case (Some r)
    obtain t w1 where clock: "net_now (env_net env) w = (t, w1)" by (cases "net_now (env_net env) w")
    show ?thesis
    proof (cases "t < rec_expires r")
      case False
      with found held Some clock show ?thesis by (intro sent) (auto simp: request_def)
    next
      case True
      show ?thesis
      proof (cases "rejection call (rec_content r)")
        case None
        with True found held Some clock show ?thesis by (intro fresh) (auto simp: request_def)
      next
        case rejected': (Some e)
        with True found held Some clock show ?thesis by (intro rejected) (auto simp: request_def)
      qed
    qed
  qed
qed

text \<open>C18: however a Service redirects, an Agent sends at most one request more than it follows redirects, all of
  them to the origin of the URL it was asked for: the first to that URL, or one of the same origin the
  cache remembers, and every redirect to a URL of that origin.\<close>

theorem request_stays_on_origin:
  assumes "env_net env = recorded net" and "request env call (c, w, []) = (answer, c', w', log)"
  shows "length log \<le> Suc (nat (call_redirects call)) \<and>
    (case origin_of env (call_target call) of
       Inl _ \<Rightarrow> log = []
     | Inr origin \<Rightarrow>
         list_all (\<lambda>req. \<exists>dest u. origin_of env dest = Inr origin \<and> Parse dest = Some u \<and>
           out_url req = url_string u) (take 1 log) \<and>
         list_all (\<lambda>req. origin_of env (out_url req) = Inr origin) (drop 1 log))"
proof (rule request_step [of env call c "(w, [])"], goal_cases)
  case (4 found held dest c1 w1)
  then have sent: "send env call held dest (c1, w1) = (answer, c', w', log)" using assms(2) by simp
  have "snd w1 = []"
    using 4(3) recorded_now [OF prod.collapse [symmetric], of net "(w, [])"] assms(1) by auto
  moreover have "dest = call_target call \<or> origin_of env dest = origin_of env (call_target call)"
    using held_record_cases [OF 4(2)] by blast
  ultimately show ?case using send_log [OF assms(1), of w1 dest call held c1] unfolding sent snd_conv by argo
qed (use assms(2) recorded_now [of net "(w, [])"] assms(1) in \<open>auto split: sum.split\<close>)
text \<open>A Service that redirects once and is then not reached.\<close>

definition example_net :: "nat network" where
  "example_net =
     \<lparr>net_do = (\<lambda>req n.
        (if n = 0 then Inr \<lparr>in_status = 302, in_header = [(''Location'', [''/b''])], in_length = 0, in_body = [],
           in_failure = None\<rparr> else Inl ''down'', n + 1)),
      net_now = (\<lambda>n. (0, n))\<rparr>"

definition example_agent_env :: "'w network \<Rightarrow> (memory_cache, 'w) agent_env" where
  "example_agent_env net =
     \<lparr>env_cache = Some memory_ops, env_net = net, env_to_ascii = Some,
      env_schemas = \<lparr>load_schemas = Inl ''none'', language_parse = (\<lambda>_. True)\<rparr>,
      env_zones = (\<lambda>_ _. None)\<rparr>"

definition example_call :: agent_call where
  "example_call =
     \<lparr>call_method = ''GET'', call_target = ''https://s.co/a'', call_body = None, call_language = [],
      call_redirects = 5, call_bytes = 100, call_key = ''k'', call_fallback = 60 * second,
      call_validate = None\<rparr>"

theorem request_stays_on_origin_witness:
  "length [''https://s.co/a'', ''https://s.co/b''] \<le> 6 \<and>
   list_all (\<lambda>sent. origin_of (example_agent_env (recorded example_net)) sent = Inr ''https://s.co'') [''https://s.co/b'']"
proof -
  obtain answer c' w' log where run:
      "request (example_agent_env (recorded example_net)) example_call (NewMemoryCache, 0, []) = (answer, c', w', log)"
    by (metis prod_cases4)
  have "map out_url (snd (snd (snd (request (example_agent_env (recorded example_net)) example_call
      (NewMemoryCache, 0, []))))) = [''https://s.co/a'', ''https://s.co/b'']"
    by code_simp
  then have urls: "map out_url log = [''https://s.co/a'', ''https://s.co/b'']" unfolding run snd_conv .
  have origin: "origin_of (example_agent_env (recorded example_net)) (call_target example_call) = Inr ''https://s.co''"
    by code_simp
  have "env_net (example_agent_env (recorded example_net)) = recorded example_net" by (simp add: example_agent_env_def)
  from request_stays_on_origin [OF this run] urls origin show ?thesis
    by (auto simp: example_call_def map_eq_Cons_conv)
qed
subsection \<open>What an Agent is given\<close>

lemma after_write_Inr: "after_write written w answer = (Inr rd, s') \<Longrightarrow> rd = answer"
  by (auto simp: after_write_def split: prod.splits sum.splits)

lemma revalidate_answer:
  assumes "revalidate env call r current response s = (Inr rd, s')"
  shows "rd = cached_answer r (url_string current) FreshnessRevalidated"
  using assms by (auto simp: revalidate_def Let_def dest!: after_write_Inr split: prod.splits if_splits option.splits)

lemma store_answer:
  "store env call verb answer s = (Inr rd, s') \<Longrightarrow> rd = answer\<lparr>rd_freshness := FreshnessFetched\<rparr>"
  by (auto simp: store_def Let_def dest!: after_write_Inr split: prod.splits if_splits)

lemma consumeResponse_Inr:
  assumes "consumeResponse response limit = Inr rd" and "0 \<le> limit"
  shows "rd_body rd = in_body response \<and> int (length (rd_body rd)) \<le> limit \<and> utf8_valid (rd_body rd) \<and>
    rd_status rd = in_status response \<and> rd_header rd = in_header response \<and>
    (successful (in_status response) \<longrightarrow>
       ParseMediaType (header_get (in_header response) ''Content-Type'') = Some mediaTypeODP)"
  using assms by (auto simp: consumeResponse_def read_response_def split: if_splits sum.splits option.splits)

definition example_answer :: response_data where
  "example_answer = \<lparr>rd_body = ''{}'', rd_url = ''https://s.co/a'', rd_freshness = FreshnessFresh, rd_header = [],
     rd_status = 200\<rparr>"

lemma receive_answer:
  assumes "receive env call held verb current response s = (Inr rd, s')" and "0 \<le> call_bytes call"
  shows "rd_freshness rd = FreshnessRevalidated \<and> (\<exists>r. held = Some r \<and> rd_body rd = rec_content r) \<or>
    rd_freshness rd = FreshnessFetched \<and> int (length (rd_body rd)) \<le> call_bytes call \<and> utf8_valid (rd_body rd) \<and>
      successful (rd_status rd) \<and> rejection call (rd_body rd) = None"
proof -
  let ?limit = "if successful (in_status response) then call_bytes call else min (call_bytes call) problemBytes"
  have limit: "0 \<le> ?limit" "?limit \<le> call_bytes call" using assms(2) by (auto simp: problemBytes_def)
  from assms(1) obtain consumed where consumed: "consumeResponse response ?limit = Inr consumed"
    by (auto simp: receive_def split: sum.splits)
  note facts = consumeResponse_Inr [OF consumed limit(1)]
  show ?thesis
  proof (cases "rd_status consumed = 304")
    case True
    with assms(1) consumed show ?thesis
      by (auto simp: receive_def Let_def cached_answer_def dest!: revalidate_answer split: option.splits)
  next
    case False
    with assms(1) consumed facts limit(2) show ?thesis
      by (auto simp: receive_def Let_def dest!: store_answer split: option.splits if_splits)
  qed
qed

lemma cachedRecord_held:
  assumes "cachedRecord env (call_key call) c = Inr found" and "held_record env call found c = (Some r, dest, c1)"
  shows "cachedRecord env (call_key call) c = Inr (Some r)"
  using assms held_record_cases [OF assms(2)] by auto



subsection \<open>What an Agent keeps\<close>

context agent_cache
begin

lemma cache_delete_touches:
  "env_cache env = Some ops \<Longrightarrow> touches Q k c (snd (cache_delete env k c))"
  by (simp add: cache_delete_def touches_delete)

lemma cache_set_touches: "env_cache env = Some ops \<Longrightarrow> Q r \<Longrightarrow> touches Q k c (snd (cache_set env k r c))"
  by (simp add: cache_set_def touches_set)

lemmas cache_touches = keep cache_delete_touches cache_set_touches

lemma revalidate_touches:
  assumes "env_cache env = Some ops"
  shows "touches (\<lambda>r. rejection call (rec_content r) = None) (call_key call) c
    (fst (snd (revalidate env call r current response (c, w))))"
  using assms
  by (auto simp: revalidate_def Let_def revalidated_record_def intro!: cache_touches split: prod.split option.split)

lemma store_touches:
  assumes "env_cache env = Some ops" and "rejection call (rd_body answer) = None"
  shows "touches (\<lambda>r. rejection call (rec_content r) = None) (call_key call) c
    (fst (snd (store env call verb answer (c, w))))"
  using assms
  by (auto simp: store_def Let_def fetched_record_def intro!: cache_touches split: prod.split)

lemma receive_touches:
  assumes "env_cache env = Some ops"
  shows "touches (\<lambda>r. rejection call (rec_content r) = None) (call_key call) c
    (fst (snd (receive env call held verb current response (c, w))))"
  using assms
  by (auto simp: receive_def Let_def intro!: keep revalidate_touches store_touches split: sum.split option.split)

lemma send_touches:
  assumes "env_cache env = Some ops"
  shows "touches (\<lambda>r. rejection call (rec_content r) = None) (call_key call) c
    (fst (snd (send env call held dest (c, w))))"
proof -
  have "touches (\<lambda>r. rejection call (rec_content r) = None) (call_key call) c
      (fst (snd (exchange env call origin held left verb content current (c, w))))"
    for origin left verb content current
    using exchange_ends [of env call origin held left verb content current c w] receive_touches [OF assms]
    by (auto intro: keep)
  then show ?thesis by (simp add: send_def keep split: option.split sum.split)
qed

lemma request_touches:
  assumes "env_cache env = Some ops"
  shows "touches (\<lambda>r. rejection call (rec_content r) = None) (call_key call) c
    (fst (snd (request env call (c, w))))"
proof -
  have held: "touches Q (call_key call) c c1" if "held_record env call found c = (held, dest, c1)"
    for Q found held dest c1
    using held_record_cases [OF that] assms by (auto intro: cache_touches)
  show ?thesis
  proof (rule request_step [of env call c w], goal_cases)
    case (2 found r dest c1 t w1)
    with held show ?case by simp
  next
    case (3 found r dest c1 t w1 e)
    with assms touches_trans [OF cache_delete_touches held] show ?case by simp
  next
    case (4 found held dest c1 w1)
    with touches_trans [OF send_touches [OF assms] held] show ?case by simp
  qed (simp add: keep)
qed

end

text \<open>C20: a request changes what the Agent's cache holds under its own key and no other, and what it puts there is
  a body the caller's validator has accepted.\<close>

theorem request_keeps_cache:
  assumes "env_cache env = Some memory_ops" and "request env call (c, w) = (answer, c', w')"
  shows "(k \<noteq> call_key call \<longrightarrow> MemoryCache_Get c' k = MemoryCache_Get c k) \<and>
    (MemoryCache_Get c' (call_key call) = Inr (Some r) \<longrightarrow>
       MemoryCache_Get c (call_key call) = Inr (Some r) \<or> rejection call (rec_content r) = None)"
proof -
  have "memory.touches (\<lambda>r. rejection call (rec_content r) = None) (call_key call) c c'"
    using memory.request_touches [OF assms(1), of call c w] assms(2) by simp
  from memory.touches_other [OF this] memory.touches_content [OF this] show ?thesis
    by (auto simp: memory_ops_def)
qed

theorem request_keeps_cache_witness:
  "MemoryCache_Get [(''k'', \<lparr>rec_content = ''{}'', rec_etag = [], rec_expires = 10, rec_final_url = [],
     rec_last_modified = [], rec_status = 200, rec_stored = None\<rparr>)] ''other'' = MemoryCache_Get NewMemoryCache ''other''"
proof -
  let ?c = "[(''k'', \<lparr>rec_content = ''{}'', rec_etag = [], rec_expires = 10, rec_final_url = [],
    rec_last_modified = [], rec_status = 200, rec_stored = None\<rparr>)]"
  have run: "request (example_agent_env example_net) example_call (?c, 0) = (Inr example_answer, ?c, 0)"
    by code_simp
  have "env_cache (example_agent_env example_net) = Some memory_ops" by (simp add: example_agent_env_def)
  from request_keeps_cache [OF this run, of "''other''"]
  show ?thesis by (simp add: example_call_def MemoryCache_Get_def NewMemoryCache_def)
qed

subsection \<open>How long an Agent keeps it\<close>

lemma digit_ascii: "is_digit c \<Longrightarrow> byte c < 128 \<and> \<not> is_space (byte c) \<and> c \<noteq> CHR '','' \<and> c \<noteq> CHR ''='' \<and> c \<noteq> CHR 0x22"
  by (auto simp: is_digit_def is_space_def)

lemma trim_char_id: "c \<notin> set s \<Longrightarrow> trim_char c s = s"
proof -
  assume "c \<notin> set s"
  then have "dropWhile (\<lambda>x. x = c) t = t" if "set t \<subseteq> set s" for t using that by (cases t) auto
  from this [of s] this [of "rev s"] show ?thesis by (simp add: trim_char_def)
qed

lemma cacheDirectives_max_age:
  assumes "list_all is_digit digits"
  shows "cacheDirectives (''max-age='' @ digits) = [(''max-age'', digits)]"
proof -
  have digits: "byte c < 128" "\<not> is_space (byte c)" "c \<noteq> CHR '',''" "c \<noteq> CHR ''=''" "c \<noteq> CHR 0x22"
    if "c \<in> set digits" for c
    using that assms digit_ascii [of c] by (auto simp: list_all_iff)
  have "CHR '','' \<notin> set (''max-age='' @ digits)" using digits(3) by auto
  then have split: "split_on CHR '','' (''max-age='' @ digits) = [''max-age='' @ digits]"
    by (rule split_on_no_sep)
  have trim: "trim_space (''max-age='' @ digits) = ''max-age='' @ digits"
    by (rule trim_space_no_space) (use digits in \<open>auto simp: ascii_def is_space_def\<close>)
  have raw: "trim_space digits = digits"
    by (rule trim_space_no_space) (use digits in \<open>auto simp: ascii_def\<close>)
  have cut: "cut CHR ''='' (''max-age='' @ digits) = (''max-age'', digits, True)"
    using cut_append [of "CHR ''=''" "''max-age''" digits] by simp
  have lower: "to_lower ''max-age'' = ''max-age''" by code_simp
  have quote: "trim_char CHR 0x22 digits = digits" using digits(5) by (intro trim_char_id) auto
  show ?thesis
    unfolding cacheDirectives_def split by (simp add: add_directive_def trim cut lower raw quote del: append_Cons)
qed

lemma ParseInt64_nat_digits: "n < 2 ^ 63 \<Longrightarrow> ParseInt64 (nat_digits n) = Some (int n)"
proof -
  assume n: "n < 2 ^ 63"
  have "hd (nat_digits n) \<noteq> CHR ''-''" "hd (nat_digits n) \<noteq> CHR ''+''"
    using nat_digits_all [of n] nat_digits_nonempty [of n] by (cases "nat_digits n"; auto simp: is_digit_def)+
  then have "atoi_time (nat_digits n) = Some (int n)"
    using nat_digits_all [of n] by (simp add: atoi_time_def Let_def decimal_value_nat_digits)
  moreover have "int n < 2 ^ 63" using n by (metis of_nat_less_iff of_nat_numeral of_nat_power)
  ultimately show ?thesis by (simp add: ParseInt64_def)
qed



end
