(* ===== verification/AgentClient.thy ===== *)
theory AgentClient
  imports AgentTransport
begin

section \<open>The Service client of an Agent\<close>

text \<open>
  \<open>agent/client.go\<close>.  A client is a record of its settings beside the environment its requests run in;
  the gate that makes inspections take turns is not modelled.  The functions that return an iterator
  take the \<open>yield\<close> of the loop that ranges over it; the state of the caller's loop (\<open>'x\<close>) travels
  beside the cache and the world.
\<close>

subsection \<open>Constants and settings\<close>

definition documentDepth :: nat where "documentDepth = 8"
definition maximumTraversalPages :: int where "maximumTraversalPages = 10000"

record cache_fallbacks =
  fb_schema :: int
  fb_capability :: int
  fb_collection :: int
  fb_offering :: int
  fb_search :: int
  fb_document :: int

record client_options =
  co_language :: string
  co_fallbacks :: cache_fallbacks
  co_partition :: string
  co_own_http :: bool
  co_page_size :: int
  co_redirects :: int
  co_url :: string

record service_client =
  sc_language :: string
  sc_fallbacks :: cache_fallbacks
  sc_page_size :: int
  sc_redirects :: int
  sc_partition :: string
  sc_cached :: bool
  sc_origin :: string

definition hours :: "int \<Rightarrow> int" where "hours n = n * 3600 * second"

definition or_default :: "int \<Rightarrow> int \<Rightarrow> int" where "or_default n fallback = (if n = 0 then fallback else n)"

definition resolved_fallbacks :: "cache_fallbacks \<Rightarrow> cache_fallbacks" where
  "resolved_fallbacks fb =
     \<lparr>fb_schema = or_default (fb_schema fb) (hours 24), fb_capability = or_default (fb_capability fb) (hours 1),
      fb_collection = or_default (fb_collection fb) (hours 1),
      fb_offering = or_default (fb_offering fb) (5 * 60 * second), fb_search = fb_search fb,
      fb_document = or_default (fb_document fb) (hours 4)\<rparr>"

definition fallback_list :: "cache_fallbacks \<Rightarrow> int list" where
  "fallback_list fb = [fb_schema fb, fb_capability fb, fb_collection fb, fb_offering fb, fb_search fb, fb_document fb]"

text \<open>A client over a caller's own \<open>http.Client\<close> caches only in a partition the caller names.\<close>

definition NewServiceClient ::
  "(string \<Rightarrow> string option) \<Rightarrow> client_options \<Rightarrow> agent_error + service_client" where
  "NewServiceClient to_ascii options =
     (case DeriveServiceOrigin to_ascii (co_url options) of
        Inl err \<Rightarrow> Inl (Rejected err)
      | Inr origin \<Rightarrow>
          (let part = (if co_partition options = [] then ''public'' else co_partition options);
               page_size = or_default (co_page_size options) 50;
               redirects = or_default (co_redirects options) 5;
               fallbacks = resolved_fallbacks (co_fallbacks options) in
           if page_size < 1 \<or> page_size > 100 then
             Inl (Message ''initial page size must be from 1 through 100'')
           else if redirects < 0 \<or> redirects > 5 then
             Inl (Message ''maximum redirects must be from 1 through 5'')
           else if list_ex (\<lambda>n. n < 0) (fallback_list fallbacks) then
             Inl (Message ''cache fallbacks cannot be negative'')
           else
             Inr \<lparr>sc_language = co_language options, sc_fallbacks = fallbacks, sc_page_size = page_size,
               sc_redirects = redirects, sc_partition = part,
               sc_cached = (\<not> (co_own_http options \<and> co_partition options = [])), sc_origin = origin\<rparr>))"

definition client_env :: "('c, 'w) agent_env \<Rightarrow> service_client \<Rightarrow> ('c, 'w) agent_env" where
  "client_env env client = (if sc_cached client then env else env\<lparr>env_cache := None\<rparr>)"

subsection \<open>Early returns\<close>

text \<open>A step that may fail and what follows it; a step without effects.\<close>

definition then_do ::
  "('e + 'a) \<times> 's \<Rightarrow> ('a \<Rightarrow> 's \<Rightarrow> ('e + 'b) \<times> 's) \<Rightarrow> ('e + 'b) \<times> 's" where
  "then_do r f = (case r of (Inl err, s) \<Rightarrow> (Inl err, s) | (Inr x, s) \<Rightarrow> f x s)"

definition odp_result :: "odp_error + 'a \<Rightarrow> agent_error + 'a" where
  "odp_result r = (case r of Inl err \<Rightarrow> Inl (Rejected err) | Inr x \<Rightarrow> Inr x)"

definition failure_of :: "'e + 'a \<Rightarrow> 'e option" where
  "failure_of r = (case r of Inl err \<Rightarrow> Some err | Inr _ \<Rightarrow> None)"

subsection \<open>Reading representations\<close>

definition parse_agent ::
  "(body \<Rightarrow> odp_error + gval) \<Rightarrow> string \<Rightarrow> body \<Rightarrow> agent_error + gval" where
  "parse_agent parse kind data =
     (case normalized_body data kind of
        Inl err \<Rightarrow> Inl (NormalizeFailed err)
      | Inr filtered \<Rightarrow> odp_result (parse filtered))"

definition parseAgentCollection :: "schema_env \<Rightarrow> body \<Rightarrow> agent_error + gval" where
  "parseAgentCollection env = parse_agent (ParseCollection env) ''collection''"

definition parseAgentOffering :: "schema_env \<Rightarrow> body \<Rightarrow> agent_error + gval" where
  "parseAgentOffering env = parse_agent (ParseOffering env) ''offering''"

definition parseAgentCollectionPage :: "schema_env \<Rightarrow> body \<Rightarrow> agent_error + gval" where
  "parseAgentCollectionPage env = parse_agent (ParsePage env Collection_type) ''collection-page''"

definition parseAgentOfferingPage :: "schema_env \<Rightarrow> body \<Rightarrow> agent_error + gval" where
  "parseAgentOfferingPage env = parse_agent (ParsePage env Offering_type) ''offering-page''"

definition parseAgentOfferingSearchResponse :: "schema_env \<Rightarrow> body \<Rightarrow> agent_error + gval" where
  "parseAgentOfferingSearchResponse env = parse_agent (ParseOfferingSearchResponse env) ''offering-page''"

definition requireOfferingRepresentation :: "gval \<Rightarrow> string \<Rightarrow> agent_error + unit" where
  "requireOfferingRepresentation offering representation =
     (if representation = ''terse'' \<and> list_field offering ''Actions'' \<noteq> [] then
        Inl (Message ''ODP Terse Offering cannot contain Actions'')
      else if representation = ''full'' \<and> list_field offering ''DetailFields'' \<noteq> [] then
        Inl (Message ''ODP Full Offering cannot contain detail_fields'')
      else Inr ())"

definition requireCollectionRepresentation :: "gval \<Rightarrow> string \<Rightarrow> agent_error + unit" where
  "requireCollectionRepresentation collection representation =
     (if representation = ''full'' \<and> list_field collection ''DetailFields'' \<noteq> [] then
        Inl (Message ''ODP Full Collection cannot contain detail_fields'')
      else Inr ())"

definition requireResourceID :: "string \<Rightarrow> string \<Rightarrow> string \<Rightarrow> agent_error + unit" where
  "requireResourceID actual expected resourceType =
     (if actual \<noteq> expected then
        Inl (Message (''ODP '' @ resourceType @ '' identifier does not match its request path''))
      else Inr ())"

definition defaultRepresentation :: "string \<Rightarrow> string \<Rightarrow> string" where
  "defaultRepresentation v fallback = (if v = [] then fallback else v)"

definition requestLimit :: "int \<Rightarrow> int \<Rightarrow> int" where
  "requestLimit v fallback = (if v = 0 then fallback else v)"

text \<open>The filters a response may refine on; \<open>None\<close> when it may not carry refinements at all.\<close>

type_synonym refinement_policy = "string list option"

definition searchRefinementPolicy :: "string list \<Rightarrow> refinement_policy" where
  "searchRefinementPolicy requested = (if requested = [] then None else Some requested)"

fun agent_refinements_loop :: "string list \<Rightarrow> string list \<Rightarrow> string list \<Rightarrow> agent_error + unit" where
  "agent_refinements_loop allowed returned [] = Inr ()"
| "agent_refinements_loop allowed returned (filter_id # groups) =
     (if filter_id \<notin> set allowed then
        Inl (Message (''ODP Offering search returned refinement '' @ filter_id @ '' that was not requested''))
      else if filter_id \<in> set returned then
        Inl (Message (''ODP Offering search returned refinement '' @ filter_id @ '' more than once''))
      else agent_refinements_loop allowed (filter_id # returned) groups)"

definition agentRefinements :: "gval list \<Rightarrow> refinement_policy \<Rightarrow> agent_error + unit" where
  "agentRefinements groups policy =
     (if groups = [] then Inr ()
      else
        (case policy of
           None \<Rightarrow> Inl (Message ''ODP Offering search returned refinements that were not requested'')
         | Some allowed \<Rightarrow> agent_refinements_loop allowed [] (map (\<lambda>g. str_field g ''FilterID'') groups)))"

subsection \<open>Pages\<close>

text \<open>An item is checked as the document it would be with the version of its page.\<close>

definition check_item ::
  "gtype \<Rightarrow> (body \<Rightarrow> agent_error + gval) \<Rightarrow> (gval \<Rightarrow> string \<Rightarrow> agent_error + unit) \<Rightarrow> gval \<Rightarrow> string \<Rightarrow> gval \<Rightarrow>
   agent_error + unit" where
  "check_item t parse require page representation item =
     (if str_field item ''ODPVersion'' \<noteq> [] then Inl (Message ''ODP page item cannot restate odp_version'')
      else
        bind_res (parse (encoded t (set_field ''ODPVersion'' (field_of page ''ODPVersion'') item))) (\<lambda>validated.
          require validated representation))"

definition check_items ::
  "(gval \<Rightarrow> agent_error + unit) \<Rightarrow> gval \<Rightarrow> agent_error + gval" where
  "check_items check page = bind_res (map_res check (list_field page ''Items'')) (\<lambda>_. Inr page)"

definition parseCollectionPage :: "schema_env \<Rightarrow> body \<Rightarrow> string \<Rightarrow> agent_error + gval" where
  "parseCollectionPage env data representation =
     bind_res (parseAgentCollectionPage env data) (\<lambda>page.
       if length (list_field page ''Items'') > 100 then
         Inl (Message ''ODP page cannot contain more than 100 items'')
       else
         check_items (check_item Collection_type (parseAgentCollection env) requireCollectionRepresentation page
           representation) page)"

definition validateOfferingPage ::
  "schema_env \<Rightarrow> gval \<Rightarrow> string \<Rightarrow> refinement_policy \<Rightarrow> agent_error + gval" where
  "validateOfferingPage env page representation policy =
     (if length (list_field page ''Items'') > 100 then
        Inl (Message ''ODP page cannot contain more than 100 items'')
      else
        bind_res (agentRefinements (list_field page ''Refinements'') policy) (\<lambda>_.
          check_items (check_item Offering_type (parseAgentOffering env) requireOfferingRepresentation page
            representation) page))"

text \<open>A list page as an \<open>OfferingPage\<close>, which has no refinements.\<close>

definition as_offering_page :: "gval \<Rightarrow> gval" where
  "as_offering_page page =
     fold (\<lambda>name. set_field name (field_of page name)) [''Additional'', ''AuthExpands'', ''Items'', ''Next'', ''ODPVersion'']
       (zero (OfferingPage_type Offering_type))"

definition parseOfferingPage ::
  "schema_env \<Rightarrow> body \<Rightarrow> bool \<Rightarrow> string \<Rightarrow> refinement_policy \<Rightarrow> agent_error + gval" where
  "parseOfferingPage env data search representation policy =
     (if search then
        bind_res (parseAgentOfferingSearchResponse env data) (\<lambda>page.
          validateOfferingPage env page representation policy)
      else
        bind_res (parseAgentOfferingPage env data) (\<lambda>page.
          validateOfferingPage env (as_offering_page page) representation policy))"

subsection \<open>Inspection and single resources\<close>

record inspection =
  ins_operations :: "gval list"
  ins_enrollment :: "gval list"
  ins_payments :: "gval list"
  ins_trust :: "gval list"
  ins_document :: gval
  ins_final_url :: string
  ins_freshness :: string
  ins_requested :: string
  ins_origin :: string

text \<open>The arguments every request of a client has in common, and its validator: too deep, or not what the parser
  accepts.\<close>

definition client_call ::
  "service_client \<Rightarrow> string \<Rightarrow> string \<Rightarrow> string option \<Rightarrow> int \<Rightarrow> int \<Rightarrow> (string \<Rightarrow> agent_error option) \<Rightarrow> agent_call" where
  "client_call client verb dest content bytes fallback validate =
     \<lparr>call_method = verb, call_target = dest, call_body = content, call_language = sc_language client,
      call_redirects = sc_redirects client, call_bytes = bytes,
      call_key = cacheKey (sc_partition client) verb dest (sc_language client) content,
      call_fallback = fallback, call_validate = Some validate\<rparr>"

definition content_validator ::
  "nat \<Rightarrow> string \<Rightarrow> (body \<Rightarrow> agent_error + 'a) \<Rightarrow> string \<Rightarrow> agent_error option" where
  "content_validator limit text parse content =
     (if json_depth_of content > limit then Some (Message text) else failure_of (parse (read_json content)))"

definition resource_validator :: "(body \<Rightarrow> agent_error + 'a) \<Rightarrow> string \<Rightarrow> agent_error option" where
  "resource_validator = content_validator maximumResourceDepth ''ODP response exceeds its nesting-depth limit''"

definition Inspect ::
  "('c, 'w) agent_env \<Rightarrow> service_client \<Rightarrow> ('c, 'w) agent_state \<Rightarrow> (agent_error + inspection) \<times> ('c, 'w) agent_state" where
  "Inspect env client s =
     (let dest = sc_origin client @ ''/.well-known/odp'';
          parse = (\<lambda>data. odp_result (ParseAgentServiceDocument (env_schemas env) data)) in
      then_do
        (request (client_env env client)
           (client_call client ''GET'' dest None documentBytes (fb_document (sc_fallbacks client))
              (content_validator documentDepth ''ODP Service Document exceeds its nesting-depth limit'' parse)) s)
        (\<lambda>result s.
           (bind_res (parse (read_json (rd_body result))) (\<lambda>document.
              let protocols = (\<lambda>name. case ptr_field document ''Protocols'' of
                    None \<Rightarrow> [] | Some p \<Rightarrow> list_field p name) in
              Inr \<lparr>ins_operations = list_field document ''Operations'', ins_enrollment = protocols ''Enrollment'',
                ins_payments = protocols ''Payments'', ins_trust = protocols ''Trust'', ins_document = document,
                ins_final_url = rd_url result, ins_freshness = rd_freshness result, ins_requested = dest,
                ins_origin = sc_origin client\<rparr>), s)))"

definition query_set :: "string \<Rightarrow> string \<Rightarrow> query_values \<Rightarrow> query_values" where
  "query_set k v q = AList.update k [v] q"

definition operation_url :: "service_client \<Rightarrow> gval \<Rightarrow> string \<Rightarrow> string \<Rightarrow> agent_error + url" where
  "operation_url client document operation ident =
     (if \<not> supports (list_field document ''Operations'') operation then Inl (UnsupportedOperation operation)
      else odp_result (BuildOperationURL (str_field (field_of document ''HTTP'') ''EndpointBase'') operation
        (sc_origin client) ident))"

definition parse_resource ::
  "schema_env \<Rightarrow> string \<Rightarrow> string \<Rightarrow> string \<Rightarrow> body \<Rightarrow> agent_error + unit" where
  "parse_resource env operation ident representation data =
     (let full = defaultRepresentation representation ''full'' in
      if operation = ''get-collection'' then
        bind_res (parseAgentCollection env data) (\<lambda>collection.
        bind_res (requireCollectionRepresentation collection full) (\<lambda>_.
          requireResourceID (str_field collection ''ID'') ident ''Collection''))
      else
        bind_res (parseAgentOffering env data) (\<lambda>offering.
        bind_res (requireOfferingRepresentation offering full) (\<lambda>_.
          requireResourceID (str_field offering ''ID'') ident ''Offering'')))"

definition getWithInspection ::
  "('c, 'w) agent_env \<Rightarrow> service_client \<Rightarrow> inspection \<Rightarrow> string \<Rightarrow> string \<Rightarrow> string \<Rightarrow> int \<Rightarrow>
   ('c, 'w) agent_state \<Rightarrow> (agent_error + string) \<times> ('c, 'w) agent_state" where
  "getWithInspection env client insp operation ident representation fallback s =
     (case operation_url client (ins_document insp) operation ident of
        Inl err \<Rightarrow> (Inl err, s)
      | Inr u \<Rightarrow>
          (let query = query_set ''representation'' (defaultRepresentation representation ''full'')
                 (ParseQuery (raw_query u));
               dest = url_string (u\<lparr>raw_query := Encode query\<rparr>) in
           then_do
             (request (client_env env client)
                (client_call client ''GET'' dest None resourceBytes fallback
                   (resource_validator (parse_resource (env_schemas env) operation ident representation))) s)
             (\<lambda>result s. (Inr (rd_body result), s))))"

definition client_get ::
  "('c, 'w) agent_env \<Rightarrow> service_client \<Rightarrow> string \<Rightarrow> string \<Rightarrow> string \<Rightarrow> int \<Rightarrow> ('c, 'w) agent_state \<Rightarrow>
   (agent_error + string) \<times> ('c, 'w) agent_state" where
  "client_get env client operation ident representation fallback s =
     then_do (Inspect env client s) (\<lambda>insp s.
       getWithInspection env client insp operation ident representation fallback s)"

definition GetCollection ::
  "('c, 'w) agent_env \<Rightarrow> service_client \<Rightarrow> string \<Rightarrow> string \<Rightarrow> ('c, 'w) agent_state \<Rightarrow>
   (agent_error + gval) \<times> ('c, 'w) agent_state" where
  "GetCollection env client ident representation s =
     then_do
       (client_get env client ''get-collection'' ident representation (fb_collection (sc_fallbacks client)) s)
       (\<lambda>data s.
          (bind_res (parseAgentCollection (env_schemas env) (read_json data)) (\<lambda>collection.
           bind_res (requireCollectionRepresentation collection (defaultRepresentation representation ''full''))
             (\<lambda>_. Inr collection)), s))"

definition get_offering ::
  "('c, 'w) agent_env \<Rightarrow> service_client \<Rightarrow> string \<Rightarrow> string \<Rightarrow> ('c, 'w) agent_state \<Rightarrow>
   (agent_error + gval \<times> inspection) \<times> ('c, 'w) agent_state" where
  "get_offering env client ident representation s =
     then_do (Inspect env client s) (\<lambda>insp s.
     then_do
       (getWithInspection env client insp ''get-offering'' ident representation (fb_offering (sc_fallbacks client)) s)
       (\<lambda>data s.
          (bind_res (parseAgentOffering (env_schemas env) (read_json data)) (\<lambda>offering.
           bind_res (requireOfferingRepresentation offering (defaultRepresentation representation ''full''))
             (\<lambda>_. Inr (offering, insp))), s)))"

definition GetOffering ::
  "('c, 'w) agent_env \<Rightarrow> service_client \<Rightarrow> string \<Rightarrow> string \<Rightarrow> ('c, 'w) agent_state \<Rightarrow>
   (agent_error + gval) \<times> ('c, 'w) agent_state" where
  "GetOffering env client ident representation s =
     then_do (get_offering env client ident representation s) (\<lambda>(offering, _) s. (Inr offering, s))"

subsection \<open>Listing and searching\<close>

record list_options =
  lo_limit :: int
  lo_max_items :: int
  lo_max_pages :: int
  lo_representation :: string

definition validateListOptions :: "list_options \<Rightarrow> agent_error + unit" where
  "validateListOptions options =
     (if lo_limit options < 0 \<or> lo_limit options > 100 then Inl (Message ''limit must be from 1 through 100'')
      else if lo_max_items options < 0 \<or> lo_max_items options > 10000 then
        Inl (Message ''maximum items must be from 1 through 10000'')
      else if lo_max_pages options < 0 \<or> lo_max_pages options > maximumTraversalPages then
        Inl (Message ''maximum pages must be from 1 through 10000'')
      else if lo_representation options \<notin> {[], ''terse'', ''full''} then
        Inl (Message ''representation must be terse or full'')
      else Inr ())"

definition odpMethod :: "string \<Rightarrow> agent_error + string" where
  "odpMethod operation =
     (case OperationMethod operation of
        None \<Rightarrow> Inl (UnsupportedOperation operation)
      | Some verb \<Rightarrow> Inr verb)"

text \<open>A search document is its type and its value; what is sent of it has to be within the limits and a valid
  request.\<close>

definition search_content ::
  "schema_env \<Rightarrow> string \<Rightarrow> gtype \<times> gval \<Rightarrow> agent_error + string" where
  "search_content env operation search =
     (case search of (t, v) \<Rightarrow>
        let content = encode_json (marshal t v) in
        if int (length content) > documentBytes \<or> json_depth_of content > maximumResourceDepth then
          Inl (Message ''ODP search request exceeds its resource limits'')
        else if operation = ''search-collections'' then
          bind_res (odp_result (ParseCollectionSearchRequest env (read_json content))) (\<lambda>_. Inr content)
        else if operation = ''search-offerings'' then
          bind_res (odp_result (ParseOfferingSearchRequest env (read_json content))) (\<lambda>_. Inr content)
        else Inr content)"

definition initial_fallback :: "service_client \<Rightarrow> string \<Rightarrow> int" where
  "initial_fallback client operation =
     (if operation = ''search-collections'' \<or> operation = ''search-offerings'' then fb_search (sc_fallbacks client)
      else if operation = ''list-collections'' then fb_collection (sc_fallbacks client)
      else fb_offering (sc_fallbacks client))"

text \<open>The method, the URL and the body of the request for a first page.\<close>

definition initial_parts ::
  "('c, 'w) agent_env \<Rightarrow> service_client \<Rightarrow> gval \<Rightarrow> string \<Rightarrow> string \<Rightarrow> list_options \<Rightarrow> (gtype \<times> gval) option \<Rightarrow>
   agent_error + string \<times> string \<times> string option" where
  "initial_parts env client document operation ident options search =
     bind_res (operation_url client document operation ident) (\<lambda>u.
     bind_res (odpMethod operation) (\<lambda>verb.
       let query = query_set ''representation'' (defaultRepresentation (lo_representation options) ''terse'')
             (ParseQuery (raw_query u)) in
       case search of
         Some v \<Rightarrow>
           bind_res (search_content (env_schemas env) operation v) (\<lambda>content.
             Inr (verb, url_string (u\<lparr>raw_query := Encode query\<rparr>), Some content))
       | None \<Rightarrow>
           Inr (verb, url_string (u\<lparr>raw_query := Encode (query_set ''limit''
             (itoa (requestLimit (lo_limit options) (sc_page_size client))) query)\<rparr>), None)))"

definition parse_page ::
  "schema_env \<Rightarrow> string \<Rightarrow> string \<Rightarrow> refinement_policy \<Rightarrow> body \<Rightarrow> agent_error + gval" where
  "parse_page env operation representation policy data =
     (if operation = ''list-collections'' \<or> operation = ''search-collections''
      then parseCollectionPage env data representation
      else parseOfferingPage env data (operation = ''search-offerings'') representation policy)"

definition initialRequest ::
  "('c, 'w) agent_env \<Rightarrow> service_client \<Rightarrow> string \<Rightarrow> string \<Rightarrow> list_options \<Rightarrow> (gtype \<times> gval) option \<Rightarrow>
   refinement_policy \<Rightarrow> ('c, 'w) agent_state \<Rightarrow> (agent_error + string) \<times> ('c, 'w) agent_state" where
  "initialRequest env client operation ident options search policy s =
     then_do (Inspect env client s) (\<lambda>insp s.
       case initial_parts env client (ins_document insp) operation ident options search of
         Inl err \<Rightarrow> (Inl err, s)
       | Inr (verb, dest, content) \<Rightarrow>
           then_do
             (request (client_env env client)
                (client_call client verb dest content resourceBytes (initial_fallback client operation)
                   (resource_validator (parse_page (env_schemas env) operation
                      (defaultRepresentation (lo_representation options) ''terse'') policy))) s)
             (\<lambda>result s. (Inr (rd_body result), s)))"

definition continueRequest ::
  "('c, 'w) agent_env \<Rightarrow> service_client \<Rightarrow> string \<Rightarrow> int \<Rightarrow> (string \<Rightarrow> agent_error option) \<Rightarrow>
   ('c, 'w) agent_state \<Rightarrow> (agent_error + string) \<times> ('c, 'w) agent_state" where
  "continueRequest env client reference fallback validate s =
     (case ResolveContinuation (env_to_ascii env) reference (sc_origin client) of
        Inl err \<Rightarrow> (Inl (Rejected err), s)
      | Inr u \<Rightarrow>
          then_do
            (request (client_env env client)
               (client_call client ''GET'' (url_string u) None resourceBytes fallback validate) s)
            (\<lambda>result s. (Inr (rd_body result), s)))"

subsection \<open>Traversals\<close>

type_synonym ('s, 'x) event_yield = "agent_error + gval \<Rightarrow> 's \<times> 'x \<Rightarrow> bool \<times> 's \<times> 'x"

definition on_client :: "('a \<Rightarrow> 's \<Rightarrow> 'r \<times> 's) \<Rightarrow> 'a \<Rightarrow> 's \<times> 'x \<Rightarrow> 'r \<times> 's \<times> 'x" where
  "on_client f a st = (case st of (s, x) \<Rightarrow> (case f a s of (r, s) \<Rightarrow> (r, s, x)))"

definition fail_with :: "('s, 'x) event_yield \<Rightarrow> agent_error \<Rightarrow> 's \<times> 'x \<Rightarrow> 's \<times> 'x" where
  "fail_with yield err st = snd (yield (Inl err) st)"

text \<open>The loop over the pages, with the rounds that are left: every page is yielded, and its \<open>next\<close> followed
  unless it was followed before.\<close>

fun page_rounds ::
  "(string \<Rightarrow> 's \<times> 'x \<Rightarrow> (agent_error + gval) \<times> 's \<times> 'x) \<Rightarrow> ('s, 'x) event_yield \<Rightarrow> nat \<Rightarrow> string list \<Rightarrow> gval \<Rightarrow>
   's \<times> 'x \<Rightarrow> 's \<times> 'x" where
  "page_rounds load yield 0 visited page st = st"
| "page_rounds load yield (Suc rounds) visited page st =
     (case yield (Inr page) st of
        (go_on, st) \<Rightarrow>
          let reference = str_field page ''Next'' in
          if \<not> go_on \<or> reference = [] then st
          else if rounds = 0 then st
          else if reference \<in> set visited then fail_with yield PaginationLoop st
          else
            (case load reference st of
               (Inl err, st) \<Rightarrow> fail_with yield err st
             | (Inr page, st) \<Rightarrow> page_rounds load yield rounds (reference # visited) page st))"

definition page_limit :: "int \<Rightarrow> nat" where
  "page_limit pages = nat (if pages = 0 then maximumTraversalPages else pages)"

definition visited_first :: "string \<Rightarrow> string list" where
  "visited_first reference = (if reference = [] then [] else [reference])"

definition collection_load ::
  "('c, 'w) agent_env \<Rightarrow> service_client \<Rightarrow> string \<Rightarrow> int \<Rightarrow> string \<Rightarrow> ('c, 'w) agent_state \<Rightarrow>
   (agent_error + gval) \<times> ('c, 'w) agent_state" where
  "collection_load env client representation fallback reference s =
     (let parse = (\<lambda>data. parseCollectionPage (env_schemas env) data representation) in
      then_do (continueRequest env client reference fallback (resource_validator parse) s)
        (\<lambda>data s. (parse (read_json data), s)))"

definition offering_load ::
  "('c, 'w) agent_env \<Rightarrow> service_client \<Rightarrow> bool \<Rightarrow> string \<Rightarrow> int \<Rightarrow> string \<Rightarrow> ('c, 'w) agent_state \<Rightarrow>
   (agent_error + gval) \<times> ('c, 'w) agent_state" where
  "offering_load env client search representation fallback reference s =
     (let parse = (\<lambda>data. parseOfferingPage (env_schemas env) data search representation None) in
      then_do (continueRequest env client reference fallback (resource_validator parse) s)
        (\<lambda>data s. (parse (read_json data), s)))"

definition yieldCollectionPages ::
  "('c, 'w) agent_env \<Rightarrow> service_client \<Rightarrow> gval \<Rightarrow> string \<Rightarrow> int \<Rightarrow> int \<Rightarrow> string \<Rightarrow>
   (('c, 'w) agent_state, 'x) event_yield \<Rightarrow> ('c, 'w) agent_state \<times> 'x \<Rightarrow> ('c, 'w) agent_state \<times> 'x" where
  "yieldCollectionPages env client first representation pages fallback initialReference yield st =
     page_rounds (on_client (collection_load env client representation fallback)) yield (page_limit pages)
       (visited_first initialReference) first st"

definition iterateOfferingPages ::
  "('c, 'w) agent_env \<Rightarrow> service_client \<Rightarrow> gval \<Rightarrow> bool \<Rightarrow> string \<Rightarrow> int \<Rightarrow> int \<Rightarrow> string \<Rightarrow>
   (('c, 'w) agent_state, 'x) event_yield \<Rightarrow> ('c, 'w) agent_state \<times> 'x \<Rightarrow> ('c, 'w) agent_state \<times> 'x" where
  "iterateOfferingPages env client first search representation pages fallback initialReference yield st =
     page_rounds (on_client (offering_load env client search representation fallback)) yield (page_limit pages)
       (visited_first initialReference) first st"

text \<open>The body of the loop over \<open>iterateOfferingPages\<close>, which returns after an error.\<close>

definition relay :: "('s, 'x) event_yield \<Rightarrow> ('s, 'x) event_yield" where
  "relay yield event st =
     (case event of Inl err \<Rightarrow> (False, fail_with yield err st) | Inr page \<Rightarrow> yield (Inr page) st)"

text \<open>What is done with the first page, or its error.\<close>

definition start_pages ::
  "('s, 'x) event_yield \<Rightarrow> (agent_error + gval) \<times> 's \<times> 'x \<Rightarrow> (gval \<Rightarrow> 's \<times> 'x \<Rightarrow> 's \<times> 'x) \<Rightarrow> 's \<times> 'x" where
  "start_pages yield r pages =
     (case r of (Inl err, st) \<Rightarrow> fail_with yield err st | (Inr page, st) \<Rightarrow> pages page st)"

definition collectionPages ::
  "('c, 'w) agent_env \<Rightarrow> service_client \<Rightarrow> string \<Rightarrow> string \<Rightarrow> list_options \<Rightarrow> (gtype \<times> gval) option \<Rightarrow>
   (('c, 'w) agent_state, 'x) event_yield \<Rightarrow> ('c, 'w) agent_state \<times> 'x \<Rightarrow> ('c, 'w) agent_state \<times> 'x" where
  "collectionPages env client operation ident options search yield st =
     (case validateListOptions options of
        Inl err \<Rightarrow> fail_with yield err st
      | Inr _ \<Rightarrow>
          (let representation = defaultRepresentation (lo_representation options) ''terse'';
               fallback = (if operation = ''search-collections'' then fb_search (sc_fallbacks client)
                           else fb_collection (sc_fallbacks client)) in
           start_pages yield
             (on_client (\<lambda>_ s.
                then_do (initialRequest env client operation ident options search None s) (\<lambda>data s.
                  (parseCollectionPage (env_schemas env) (read_json data) representation, s))) () st)
             (\<lambda>page st. yieldCollectionPages env client page representation (lo_max_pages options) fallback [] yield st)))"

definition continueCollectionPages ::
  "('c, 'w) agent_env \<Rightarrow> service_client \<Rightarrow> string \<Rightarrow> list_options \<Rightarrow> bool \<Rightarrow>
   (('c, 'w) agent_state, 'x) event_yield \<Rightarrow> ('c, 'w) agent_state \<times> 'x \<Rightarrow> ('c, 'w) agent_state \<times> 'x" where
  "continueCollectionPages env client reference options search yield st =
     (case validateListOptions (options\<lparr>lo_limit := 0\<rparr>) of
        Inl err \<Rightarrow> fail_with yield err st
      | Inr _ \<Rightarrow>
          (let representation = defaultRepresentation (lo_representation options) ''terse'';
               fallback = (if search then fb_search (sc_fallbacks client) else fb_collection (sc_fallbacks client)) in
           start_pages yield (on_client (collection_load env client representation fallback) reference st)
             (\<lambda>page st. yieldCollectionPages env client page representation (lo_max_pages options) fallback
               reference yield st)))"

definition refinement_policy_of :: "(gtype \<times> gval) option \<Rightarrow> refinement_policy" where
  "refinement_policy_of search =
     (case search of None \<Rightarrow> None | Some (_, v) \<Rightarrow> searchRefinementPolicy (strs_field v ''Refinements''))"

definition offeringPages ::
  "('c, 'w) agent_env \<Rightarrow> service_client \<Rightarrow> string \<Rightarrow> string \<Rightarrow> list_options \<Rightarrow> (gtype \<times> gval) option \<Rightarrow>
   (('c, 'w) agent_state, 'x) event_yield \<Rightarrow> ('c, 'w) agent_state \<times> 'x \<Rightarrow> ('c, 'w) agent_state \<times> 'x" where
  "offeringPages env client operation ident options search yield st =
     (case validateListOptions options of
        Inl err \<Rightarrow> fail_with yield err st
      | Inr _ \<Rightarrow>
          (let policy = refinement_policy_of search;
               representation = defaultRepresentation (lo_representation options) ''terse'';
               searching = (operation = ''search-offerings'');
               fallback = (if searching then fb_search (sc_fallbacks client) else fb_offering (sc_fallbacks client)) in
           start_pages yield
             (on_client (\<lambda>_ s.
                then_do (initialRequest env client operation ident options search policy s) (\<lambda>data s.
                  (parseOfferingPage (env_schemas env) (read_json data) searching representation policy, s))) () st)
             (\<lambda>page st. iterateOfferingPages env client page searching representation (lo_max_pages options) fallback []
               (relay yield) st)))"

definition continueOfferingPages ::
  "('c, 'w) agent_env \<Rightarrow> service_client \<Rightarrow> string \<Rightarrow> list_options \<Rightarrow> bool \<Rightarrow>
   (('c, 'w) agent_state, 'x) event_yield \<Rightarrow> ('c, 'w) agent_state \<times> 'x \<Rightarrow> ('c, 'w) agent_state \<times> 'x" where
  "continueOfferingPages env client reference options search yield st =
     (case validateListOptions (options\<lparr>lo_limit := 0\<rparr>) of
        Inl err \<Rightarrow> fail_with yield err st
      | Inr _ \<Rightarrow>
          (let representation = defaultRepresentation (lo_representation options) ''terse'';
               fallback = (if search then fb_search (sc_fallbacks client) else fb_offering (sc_fallbacks client)) in
           start_pages yield (on_client (offering_load env client search representation fallback) reference st)
             (\<lambda>page st. iterateOfferingPages env client page search representation (lo_max_pages options) fallback
               reference (relay yield) st)))"

subsection \<open>Items\<close>

text \<open>The loop over the items of a page, with the count of those yielded beside the caller's state; the answer is
  \<open>False\<close> when it returned from the enclosing function.\<close>

type_synonym ('s, 'x) item_yield = "agent_error + gval \<Rightarrow> 's \<times> 'x \<Rightarrow> bool \<times> 's \<times> 'x"

fun item_rounds ::
  "('s, 'x) item_yield \<Rightarrow> int \<Rightarrow> gval list \<Rightarrow> 's \<times> 'x \<times> int \<Rightarrow> bool \<times> 's \<times> 'x \<times> int" where
  "item_rounds yield max_items [] st = (True, st)"
| "item_rounds yield max_items (item # rest) (s, x, count) =
     (if max_items \<noteq> 0 \<and> count \<ge> max_items then (False, s, x, count)
      else
        (case yield (Inr item) (s, x) of
           (go_on, s, x) \<Rightarrow>
             if \<not> go_on \<or> max_items \<noteq> 0 \<and> count + 1 \<ge> max_items then (False, s, x, count + 1)
             else item_rounds yield max_items rest (s, x, count + 1)))"

definition page_items ::
  "('s, 'x) item_yield \<Rightarrow> int \<Rightarrow> agent_error + gval \<Rightarrow> 's \<times> 'x \<times> int \<Rightarrow> bool \<times> 's \<times> 'x \<times> int" where
  "page_items yield max_items event st =
     (case event of
        Inl err \<Rightarrow> (case st of (s, x, count) \<Rightarrow> (case fail_with yield err (s, x) of (s, x) \<Rightarrow> (False, s, x, count)))
      | Inr page \<Rightarrow> item_rounds yield max_items (list_field page ''Items'') st)"

definition counting ::
  "(('s, 'x \<times> int) event_yield \<Rightarrow> 's \<times> 'x \<times> int \<Rightarrow> 's \<times> 'x \<times> int) \<Rightarrow> ('s, 'x) item_yield \<Rightarrow> int \<Rightarrow>
   's \<times> 'x \<Rightarrow> 's \<times> 'x" where
  "counting pages yield max_items st =
     (case st of (s, x) \<Rightarrow> (case pages (page_items yield max_items) (s, x, 0) of (s, x, _) \<Rightarrow> (s, x)))"

definition collectionItems where
  "collectionItems env client operation ident options search yield st =
     counting (collectionPages env client operation ident options search) yield (lo_max_items options) st"

definition continueCollectionItems where
  "continueCollectionItems env client reference options search yield st =
     counting (continueCollectionPages env client reference options search) yield (lo_max_items options) st"

definition offeringItems where
  "offeringItems env client operation ident options search yield st =
     counting (offeringPages env client operation ident options search) yield (lo_max_items options) st"

definition continueOfferingItems where
  "continueOfferingItems env client reference options search yield st =
     counting (continueOfferingPages env client reference options search) yield (lo_max_items options) st"

subsection \<open>The operations\<close>

record search_options =
  so_list :: list_options
  so_query :: string

record collection_search = search_options +
  so_parent :: gval

record offering_search = search_options +
  so_collection :: string
  so_filters :: gval
  so_descendants :: bool
  so_refinements :: gval
  so_sort :: string

definition struct_of :: "gtype \<Rightarrow> (string \<times> gval) list \<Rightarrow> gval" where
  "struct_of t vals = fold (\<lambda>(name, v). set_field name v) vals (zero t)"

definition search_limit :: "service_client \<Rightarrow> list_options \<Rightarrow> gval" where
  "search_limit client options = GInt (requestLimit (lo_limit options) (sc_page_size client))"

definition collection_search_request :: "service_client \<Rightarrow> collection_search \<Rightarrow> gtype \<times> gval" where
  "collection_search_request client options =
     (CollectionSearchRequest_type, struct_of CollectionSearchRequest_type
       [(''Limit'', search_limit client (so_list options)), (''ODPVersion'', GStr Version),
        (''ParentID'', so_parent options), (''Query'', GStr (so_query options))])"

definition offering_search_request :: "service_client \<Rightarrow> offering_search \<Rightarrow> gtype \<times> gval" where
  "offering_search_request client options =
     (OfferingSearchRequest_type, struct_of OfferingSearchRequest_type
       [(''CollectionID'', GStr (so_collection options)), (''Filters'', so_filters options),
        (''IncludeDescendants'', GBool (so_descendants options)),
        (''Limit'', search_limit client (so_list options)), (''ODPVersion'', GStr Version),
        (''Query'', GStr (so_query options)), (''Refinements'', so_refinements options),
        (''Sort'', GStr (so_sort options))])"

definition ListCollections where
  "ListCollections env client options = collectionItems env client ''list-collections'' [] options None"

definition ListCollectionPages where
  "ListCollectionPages env client options = collectionPages env client ''list-collections'' [] options None"

definition SearchCollections where
  "SearchCollections env client options = collectionItems env client ''search-collections'' [] (so_list options)
     (Some (collection_search_request client options))"

definition SearchCollectionPages where
  "SearchCollectionPages env client options = collectionPages env client ''search-collections'' [] (so_list options)
     (Some (collection_search_request client options))"

definition ContinueListCollections where
  "ContinueListCollections env client reference options = continueCollectionItems env client reference options False"

definition ContinueListCollectionPages where
  "ContinueListCollectionPages env client reference options = continueCollectionPages env client reference options False"

definition ContinueSearchCollections where
  "ContinueSearchCollections env client reference options = continueCollectionItems env client reference options True"

definition ContinueSearchCollectionPages where
  "ContinueSearchCollectionPages env client reference options = continueCollectionPages env client reference options True"

definition ListOfferings where
  "ListOfferings env client options = offeringItems env client ''list-offerings'' [] options None"

definition ListOfferingPages where
  "ListOfferingPages env client options = offeringPages env client ''list-offerings'' [] options None"

definition ListCollectionOfferings where
  "ListCollectionOfferings env client collectionID options =
     offeringItems env client ''list-collection-offerings'' collectionID options None"

definition ListCollectionOfferingPages where
  "ListCollectionOfferingPages env client collectionID options =
     offeringPages env client ''list-collection-offerings'' collectionID options None"

definition SearchOfferings where
  "SearchOfferings env client options = offeringItems env client ''search-offerings'' [] (so_list options)
     (Some (offering_search_request client options))"

definition SearchOfferingPages where
  "SearchOfferingPages env client options = offeringPages env client ''search-offerings'' [] (so_list options)
     (Some (offering_search_request client options))"

definition ContinueListOfferings where
  "ContinueListOfferings env client reference options = continueOfferingItems env client reference options False"

definition ContinueListOfferingPages where
  "ContinueListOfferingPages env client reference options = continueOfferingPages env client reference options False"

definition ContinueSearchOfferings where
  "ContinueSearchOfferings env client reference options = continueOfferingItems env client reference options True"

definition ContinueSearchOfferingPages where
  "ContinueSearchOfferingPages env client reference options = continueOfferingPages env client reference options True"

subsection \<open>What a traversal gives its caller\<close>

text \<open>What \<open>yield\<close> keeps true of the caller's state, every traversal keeps true.\<close>

definition maintains :: "('x \<Rightarrow> bool) \<Rightarrow> ('s, 'x) event_yield \<Rightarrow> bool" where
  "maintains I yield \<longleftrightarrow> (\<forall>event s x. I x \<longrightarrow> I (snd (snd (yield event (s, x)))))"

lemma maintainsD: "maintains I yield \<Longrightarrow> I (snd st) \<Longrightarrow> I (snd (snd (yield event st)))"
  by (cases st) (simp add: maintains_def)

lemma fail_with_keeps: "maintains I yield \<Longrightarrow> I (snd st) \<Longrightarrow> I (snd (fail_with yield err st))"
  by (simp add: fail_with_def maintainsD)

lemma on_client_caller [simp]: "snd (snd (on_client f a st)) = snd st"
  by (simp add: on_client_def split: prod.split)

lemma page_rounds_keeps:
  assumes "maintains I yield"
  shows "I (snd st) \<Longrightarrow> I (snd (page_rounds (on_client f) yield rounds visited page st))"
proof (induction rounds arbitrary: visited page st)
  case (Suc rounds)
  obtain go_on st1 where yielded: "yield (Inr page) st = (go_on, st1)" by (cases "yield (Inr page) st")
  then have st1: "I (snd st1)" using maintainsD [OF assms Suc.prems, of "Inr page"] by simp
  obtain r st2 where loaded: "on_client f (str_field page ''Next'') st1 = (r, st2)"
    by (cases "on_client f (str_field page ''Next'') st1")
  then have "I (snd st2)" using st1 on_client_caller [of f "str_field page ''Next''" st1] by simp
  with yielded st1 loaded fail_with_keeps [OF assms] Suc.IH show ?case
    by (cases r) (simp_all add: Let_def)
qed simp

lemma relay_keeps: "maintains I yield \<Longrightarrow> maintains I (relay yield)"
  by (auto simp: maintains_def relay_def fail_with_def split: sum.split)

lemma start_pages_keeps:
  assumes "maintains I yield" and "I (snd (snd r))" and "\<And>page st. I (snd st) \<Longrightarrow> I (snd (pages page st))"
  shows "I (snd (start_pages yield r pages))"
  using assms fail_with_keeps [OF assms(1)] by (cases r) (auto simp: start_pages_def split: sum.split)

lemma pages_keep:
  assumes "maintains I yield" and "I (snd st)"
  shows "I (snd (collectionPages env client operation ident options search yield st))"
    and "I (snd (continueCollectionPages env client reference options search' yield st))"
    and "I (snd (offeringPages env client operation ident options search yield st))"
    and "I (snd (continueOfferingPages env client reference options search' yield st))"
proof -
  note keeps = fail_with_keeps [OF assms] start_pages_keeps [OF assms(1)]
    page_rounds_keeps [OF assms(1)] page_rounds_keeps [OF relay_keeps [OF assms(1)]]
  note defs = collectionPages_def continueCollectionPages_def offeringPages_def continueOfferingPages_def
    yieldCollectionPages_def iterateOfferingPages_def
  show "I (snd (collectionPages env client operation ident options search yield st))"
    unfolding defs Let_def by (simp split: sum.split add: keeps assms(2))
  show "I (snd (continueCollectionPages env client reference options search' yield st))"
    unfolding defs Let_def by (simp split: sum.split add: keeps assms(2))
  show "I (snd (offeringPages env client operation ident options search yield st))"
    unfolding defs Let_def by (simp split: sum.split add: keeps assms(2))
  show "I (snd (continueOfferingPages env client reference options search' yield st))"
    unfolding defs Let_def by (simp split: sum.split add: keeps assms(2))
qed

text \<open>A loop over items that writes down what it is given.\<close>

definition noting :: "('s, 'x) item_yield \<Rightarrow> ('s, 'x \<times> (agent_error + gval) list) item_yield" where
  "noting yield event st =
     (case st of (s, x, seen) \<Rightarrow> (case yield event (s, x) of (go_on, s, x) \<Rightarrow> (go_on, s, x, seen @ [event])))"

definition items_of :: "(agent_error + gval) list \<Rightarrow> gval list" where
  "items_of seen = concat (map (case_sum (\<lambda>_. []) (\<lambda>item. [item])) seen)"

definition counted :: "int \<Rightarrow> ('x \<times> (agent_error + gval) list) \<times> int \<Rightarrow> bool" where
  "counted max_items x \<longleftrightarrow>
     int (length (items_of (snd (fst x)))) = snd x \<and> (max_items = 0 \<or> snd x \<le> max 0 max_items)"

lemma item_rounds_counted:
  "counted max_items (snd st) \<Longrightarrow> counted max_items (snd (snd (item_rounds (noting yield) max_items items st)))"
proof (induction items arbitrary: st)
  case (Cons item items)
  obtain s x seen count where st: "st = (s, (x, seen), count)" by (metis prod.exhaust)
  obtain go_on s' x' where yielded: "yield (Inr item) (s, x) = (go_on, s', x')" by (metis prod_cases3)
  show ?case
  proof (cases "max_items \<noteq> 0 \<and> count \<ge> max_items")
    case True
    with Cons.prems st show ?thesis by simp
  next
    case False
    then have "counted max_items ((x', seen @ [Inr item]), count + 1)"
      using Cons.prems st by (auto simp: counted_def items_of_def)
    moreover have "noting yield (Inr item) (s, x, seen) = (go_on, s', x', seen @ [Inr item])"
      by (simp add: noting_def yielded)
    ultimately show ?thesis
      using False st Cons.IH [of "(s', (x', seen @ [Inr item]), count + 1)"] by auto
  qed
qed simp

lemma page_items_counted:
  fixes yield :: "('s, 'x) item_yield"
  shows "maintains (counted max_items) (page_items (noting yield) max_items)"
  unfolding maintains_def
proof (intro allI impI)
  fix event and s :: 's and x :: "('x \<times> (agent_error + gval) list) \<times> int"
  assume "counted max_items x"
  then show "counted max_items (snd (snd (page_items (noting yield) max_items event (s, x))))"
    using item_rounds_counted [of max_items "(s, x)" yield]
    by (cases event) (auto simp: page_items_def fail_with_def noting_def counted_def items_of_def split: prod.split)
qed

lemma counting_counted:
  assumes "\<And>st. counted max_items (snd st) \<Longrightarrow> counted max_items (snd (pages (page_items (noting yield) max_items) st))"
  shows "max_items = 0 \<or> int (length (items_of (snd (snd (counting pages (noting yield) max_items (s, x, []))))))
    \<le> max 0 max_items"
proof -
  have "counted max_items (snd (pages (page_items (noting yield) max_items) (s, (x, []), 0)))"
    by (rule assms) (simp add: counted_def items_of_def)
  then show ?thesis by (auto simp: counting_def counted_def split: prod.split)
qed

text \<open>C22: whatever a Service sends and wherever its continuations lead, a caller that asks for at most \<open>MaxItems\<close>
  items is given no more, by each of the four iterators over items.\<close>

theorem items_bounded:
  "let within = (\<lambda>st. lo_max_items options = 0 \<or>
         int (length (items_of (snd (snd st)))) \<le> max 0 (lo_max_items options)) in
   within (collectionItems env client operation ident options search (noting yield) (s, x, [])) \<and>
   within (continueCollectionItems env client reference options search' (noting yield) (s, x, [])) \<and>
   within (offeringItems env client operation ident options search (noting yield) (s, x, [])) \<and>
   within (continueOfferingItems env client reference options search' (noting yield) (s, x, []))"
  unfolding Let_def collectionItems_def continueCollectionItems_def offeringItems_def continueOfferingItems_def
  by (intro conjI counting_counted pages_keep [where I = "counted (lo_max_items options)", OF page_items_counted])

subsection \<open>Refinements\<close>

lemma agent_refinements_loop_iff:
  "agent_refinements_loop allowed returned ids = Inr () \<longleftrightarrow>
     set ids \<subseteq> set allowed \<and> distinct ids \<and> set ids \<inter> set returned = {}"
  by (induction allowed returned ids rule: agent_refinements_loop.induct) auto

text \<open>A response may carry refinements exactly when there are none of them, or the request asked for some,
  each is of a filter it named and no filter has two.\<close>

theorem agentRefinements_iff:
  "agentRefinements groups (searchRefinementPolicy requested) = Inr () \<longleftrightarrow>
     (let ids = map (\<lambda>g. str_field g ''FilterID'') groups in
      groups = [] \<or> requested \<noteq> [] \<and> set ids \<subseteq> set requested \<and> distinct ids)"
  by (auto simp: agentRefinements_def searchRefinementPolicy_def agent_refinements_loop_iff Let_def)

end
