(* ===== verification/AgentCapabilities.thy ===== *)
theory AgentCapabilities
  imports AgentClient
begin

section \<open>Search capabilities\<close>

text \<open>
  \<open>agent/capabilities.go\<close>: the filters and sorts an Agent may use in a search, gathered from the Service Document
  and a Collection.  A Go map is an association list of its keys; where its order could show, the code
  sorts the keys.  The text of an issue is one of the code's or that of the error it reports.
\<close>

definition maximumCapabilityPages :: nat where "maximumCapabilityPages = 16"
definition maximumFilters :: int where "maximumFilters = 1024"
definition maximumSorts :: int where "maximumSorts = 128"

datatype issue_text = IssueText string | ErrorText agent_error

record capability_issue =
  ci_kind :: string
  ci_message :: issue_text
  ci_scope :: string

type_synonym definitions = "(string \<times> gval) list"

record search_catalog =
  cat_filters :: definitions
  cat_issues :: "capability_issue list"
  cat_sorts :: "(string \<times> gval \<times> gval list) list"

definition add_issue :: "string \<Rightarrow> issue_text \<Rightarrow> string \<Rightarrow> search_catalog \<Rightarrow> search_catalog" where
  "add_issue kind text scope result =
     result\<lparr>cat_issues := cat_issues result @ [\<lparr>ci_kind = kind, ci_message = text, ci_scope = scope\<rparr>]\<rparr>"

definition duplicateNames :: "string list \<Rightarrow> string" where
  "duplicateNames duplicates = join_with '', '' (sort duplicates)"

subsection \<open>Linked sources\<close>

text \<open>The loop over the pages of a source: \<open>parse\<close> has the values read so far, and gives those with the page's and
  where the next page is.\<close>

fun capability_pages ::
  "('c, 'w) agent_env \<Rightarrow> service_client \<Rightarrow> (gval list \<Rightarrow> body \<Rightarrow> agent_error + gval list \<times> string) \<Rightarrow> nat \<Rightarrow>
   string list \<Rightarrow> string \<Rightarrow> gval list \<Rightarrow> ('c, 'w) agent_state \<Rightarrow>
   (agent_error + gval list) \<times> ('c, 'w) agent_state" where
  "capability_pages env client parse left visited reference vals s =
     (if reference = [] then (Inr vals, s)
      else
        (case left of
           0 \<Rightarrow> (Inl (Message ''ODP capability source exceeded 16 pages''), s)
         | Suc left' \<Rightarrow>
             (case ResolveContinuation (env_to_ascii env) reference (sc_origin client) of
                Inl err \<Rightarrow> (Inl (Rejected err), s)
              | Inr u \<Rightarrow>
                  (let address = url_string u in
                   if address \<in> set visited then
                     (Inl (Message ''ODP capability pagination loop detected''), s)
                   else
                     (case request (client_env env client)
                         (client_call client ''GET'' address None resourceBytes
                            (fb_capability (sc_fallbacks client))
                            (\<lambda>content. if json_depth_of content > maximumResourceDepth
                               then Some ResponseLimitExceeded else None)) s of
                        (Inl err, s) \<Rightarrow> (Inl err, s)
                      | (Inr result, s) \<Rightarrow>
                          (case parse vals (read_json (rd_body result)) of
                             Inl err \<Rightarrow> (Inl err, s)
                           | Inr (vals, reference) \<Rightarrow>
                               capability_pages env client parse left' (address # visited) reference vals s))))))"

declare capability_pages.simps [simp del]

definition loadCapabilityPages ::
  "('c, 'w) agent_env \<Rightarrow> service_client \<Rightarrow> string \<Rightarrow> (gval list \<Rightarrow> body \<Rightarrow> agent_error + gval list \<times> string) \<Rightarrow>
   ('c, 'w) agent_state \<Rightarrow> (agent_error + gval list) \<times> ('c, 'w) agent_state" where
  "loadCapabilityPages env client reference parse s =
     capability_pages env client parse maximumCapabilityPages [] reference [] s"

definition capability_page ::
  "(body \<Rightarrow> odp_error + gval) \<Rightarrow> string \<Rightarrow> int \<Rightarrow> string \<Rightarrow> gval list \<Rightarrow> body \<Rightarrow>
   agent_error + gval list \<times> string" where
  "capability_page parse kind budget text vals data =
     bind_res (parse_agent parse kind data) (\<lambda>page.
       let vals = vals @ list_field page ''Items'' in
       if int (length vals) > budget then Inl (Message text) else Inr (vals, str_field page ''Next''))"

definition loadFilterPages ::
  "('c, 'w) agent_env \<Rightarrow> service_client \<Rightarrow> string \<Rightarrow> int \<Rightarrow> ('c, 'w) agent_state \<Rightarrow>
   (agent_error + gval list) \<times> ('c, 'w) agent_state" where
  "loadFilterPages env client reference budget s =
     loadCapabilityPages env client reference
       (capability_page (ParseFilterDefinitionPage (env_schemas env)) ''filter-page'' budget
          ''ODP linked filter source exceeds the effective filter limit'') s"

definition loadSortPages ::
  "('c, 'w) agent_env \<Rightarrow> service_client \<Rightarrow> string \<Rightarrow> int \<Rightarrow> ('c, 'w) agent_state \<Rightarrow>
   (agent_error + gval list) \<times> ('c, 'w) agent_state" where
  "loadSortPages env client reference budget s =
     loadCapabilityPages env client reference
       (capability_page (ParseSortDefinitionPage (env_schemas env)) ''sort-page'' budget
          ''ODP linked sort source exceeds the effective sort limit'') s"

subsection \<open>Sources\<close>

text \<open>The values of a source: those inline, or those of the pages it links to.\<close>

definition source_values ::
  "(string \<Rightarrow> ('c, 'w) agent_state \<Rightarrow> (agent_error + gval list) \<times> ('c, 'w) agent_state) \<Rightarrow> gval \<Rightarrow>
   ('c, 'w) agent_state \<Rightarrow> (agent_error + gval list) \<times> ('c, 'w) agent_state" where
  "source_values load source s =
     (case ptr_field source ''Linked'' of
        None \<Rightarrow> (Inr (list_field source ''Inline''), s)
      | Some link \<Rightarrow> load (str_field link ''Href'') s)"

definition firstRepeated :: "string list \<Rightarrow> string option" where
  "firstRepeated identifiers = first_repeat [] identifiers"

definition def_id :: "gval \<Rightarrow> string" where "def_id v = str_field v ''ID''"

definition conflicting :: "definitions \<Rightarrow> gval list \<Rightarrow> string list" where
  "conflicting known vals = filter (\<lambda>i. map_of known i \<noteq> None) (map def_id vals)"

text \<open>An identifier both publish is taken from what is known and not added.\<close>

definition merge_definitions :: "definitions \<Rightarrow> gval list \<Rightarrow> definitions" where
  "merge_definitions known vals =
     (let conflicts = set (conflicting known vals) in
      fold (\<lambda>v. AList.update (def_id v) v) (filter (\<lambda>v. def_id v \<notin> conflicts) vals)
        (filter (\<lambda>(i, _). i \<notin> conflicts) known))"

definition addFilters ::
  "('c, 'w) agent_env \<Rightarrow> service_client \<Rightarrow> string \<Rightarrow> gval option \<Rightarrow> search_catalog \<Rightarrow> ('c, 'w) agent_state \<Rightarrow>
   search_catalog \<times> ('c, 'w) agent_state" where
  "addFilters env client scope source result s =
     (case source of
        None \<Rightarrow> (result, s)
      | Some source \<Rightarrow>
          (case source_values (\<lambda>href. loadFilterPages env client href
              (maximumFilters - int (length (cat_filters result)))) source s of
             (Inl err, s) \<Rightarrow> (add_issue ''filters'' (ErrorText err) scope result, s)
           | (Inr vals, s) \<Rightarrow>
               (case firstRepeated (map def_id vals) of
                  Some repeated \<Rightarrow>
                    (add_issue ''filters'' (IssueText (''Source repeats filter '' @ repeated @ ''.'')) scope result, s)
                | None \<Rightarrow>
                    if int (length (cat_filters result) + length vals) > maximumFilters then
                      (add_issue ''filters'' (IssueText ''Effective filters exceed their limit.'') scope result, s)
                    else
                      (let conflicts = conflicting (cat_filters result) vals;
                           merged = result\<lparr>cat_filters := merge_definitions (cat_filters result) vals\<rparr> in
                       (if conflicts \<noteq> [] then
                          add_issue ''filters'' (IssueText (''Duplicate filters: '' @ duplicateNames conflicts)) scope
                            merged
                        else merged, s)))))"

text \<open>The sorts known so far, and the scope each came from.\<close>

record sort_sources =
  ss_sorts :: definitions
  ss_scopes :: "(string \<times> string) list"

definition addSorts ::
  "('c, 'w) agent_env \<Rightarrow> service_client \<Rightarrow> string \<Rightarrow> gval option \<Rightarrow> search_catalog \<times> sort_sources \<Rightarrow>
   ('c, 'w) agent_state \<Rightarrow> (search_catalog \<times> sort_sources) \<times> ('c, 'w) agent_state" where
  "addSorts env client scope source st s =
     (case (source, st) of
        (None, _) \<Rightarrow> (st, s)
      | (Some source, (result, known)) \<Rightarrow>
          (case source_values (\<lambda>href. loadSortPages env client href
              (maximumSorts - int (length (ss_sorts known)))) source s of
             (Inl err, s) \<Rightarrow> ((add_issue ''sorts'' (ErrorText err) scope result, known), s)
           | (Inr vals, s) \<Rightarrow>
               (case firstRepeated (map def_id vals) of
                  Some repeated \<Rightarrow>
                    ((add_issue ''sorts'' (IssueText (''Source repeats sort '' @ repeated @ ''.'')) scope result, known), s)
                | None \<Rightarrow>
                    if int (length (ss_sorts known) + length vals) > maximumSorts then
                      ((add_issue ''sorts'' (IssueText ''Effective sorts exceed their limit.'') scope result, known), s)
                    else
                      (let conflicts = conflicting (ss_sorts known) vals;
                           added = filter (\<lambda>v. def_id v \<notin> set conflicts) vals;
                           known = \<lparr>ss_sorts = merge_definitions (ss_sorts known) vals,
                             ss_scopes = fold (\<lambda>v. AList.update (def_id v) scope) added
                               (filter (\<lambda>(i, _). i \<notin> set conflicts) (ss_scopes known))\<rparr> in
                       ((if conflicts \<noteq> [] then
                           add_issue ''sorts'' (IssueText (''Duplicate sorts: '' @ duplicateNames conflicts)) scope result
                         else result, known), s)))))"

subsection \<open>The catalog\<close>

definition collectionCapabilities :: "gval option \<Rightarrow> gval option" where
  "collectionCapabilities collection = Option.bind collection (\<lambda>c. ptr_field c ''SearchCapabilities'')"

definition add_source ::
  "('c, 'w) agent_env \<Rightarrow> service_client \<Rightarrow> gval option \<times> string \<Rightarrow>
   (search_catalog \<times> sort_sources) \<times> ('c, 'w) agent_state \<Rightarrow> (search_catalog \<times> sort_sources) \<times> ('c, 'w) agent_state" where
  "add_source env client source st =
     (case (source, st) of
        ((None, scope), _) \<Rightarrow> st
      | ((Some capabilities, scope), ((result, known), s)) \<Rightarrow>
          (case addFilters env client scope (ptr_field capabilities ''Filters'') result s of
             (result, s) \<Rightarrow> addSorts env client scope (ptr_field capabilities ''Sorts'') (result, known) s))"

text \<open>The filters of a sort's keys, if they are all there.\<close>

definition sort_filters :: "definitions \<Rightarrow> gval \<Rightarrow> gval list option" where
  "sort_filters filters srt = all_some (map (\<lambda>key. map_of filters (str_field key ''FilterID'')) (list_field srt ''Keys''))"

definition resolve_sort :: "sort_sources \<Rightarrow> string \<Rightarrow> search_catalog \<Rightarrow> search_catalog" where
  "resolve_sort known i result =
     (case map_of (ss_sorts known) i of
        None \<Rightarrow> result
      | Some srt \<Rightarrow>
          (case sort_filters (cat_filters result) srt of
             None \<Rightarrow>
               add_issue ''sorts'' (IssueText (''Sort '' @ i @ '' references an unavailable filter.''))
                 (case map_of (ss_scopes known) i of Some scope \<Rightarrow> scope | None \<Rightarrow> []) result
           | Some filters \<Rightarrow> result\<lparr>cat_sorts := AList.update i (srt, filters) (cat_sorts result)\<rparr>))"

definition sortedKeys :: "(string \<times> 'v) list \<Rightarrow> string list" where
  "sortedKeys d = sort (map fst d)"

definition empty_catalog :: search_catalog where
  "empty_catalog = \<lparr>cat_filters = [], cat_issues = [], cat_sorts = []\<rparr>"

definition gathered ::
  "('c, 'w) agent_env \<Rightarrow> service_client \<Rightarrow> (gval option \<times> string) list \<Rightarrow> ('c, 'w) agent_state \<Rightarrow>
   search_catalog \<times> ('c, 'w) agent_state" where
  "gathered env client sources s =
     (case fold (add_source env client) sources ((empty_catalog, \<lparr>ss_sorts = [], ss_scopes = []\<rparr>), s) of
        ((result, known), s) \<Rightarrow> (fold (resolve_sort known) (sortedKeys (ss_sorts known)) result, s))"

definition resolveSearchCapabilities ::
  "('c, 'w) agent_env \<Rightarrow> service_client \<Rightarrow> gval option \<Rightarrow> ('c, 'w) agent_state \<Rightarrow>
   (agent_error + search_catalog) \<times> ('c, 'w) agent_state" where
  "resolveSearchCapabilities env client collection s =
     then_do (Inspect env client s) (\<lambda>insp s.
       if \<not> supports (list_field (ins_document insp) ''Operations'') ''search-offerings'' then
         (Inr (if collectionCapabilities collection \<noteq> None then
            add_issue ''filters''
              (IssueText ''Collection search capabilities require the search-offerings operation.'') ''collection''
              empty_catalog
          else empty_catalog), s)
       else
         (case gathered env client
             [(ptr_field (ins_document insp) ''SearchCapabilities'', ''service''),
              (collectionCapabilities collection, ''collection'')] s of
            (result, s) \<Rightarrow> (Inr result, s)))"

definition GetCollectionSearchCapabilities ::
  "('c, 'w) agent_env \<Rightarrow> service_client \<Rightarrow> string \<Rightarrow> ('c, 'w) agent_state \<Rightarrow>
   (agent_error + search_catalog) \<times> ('c, 'w) agent_state" where
  "GetCollectionSearchCapabilities env client ident s =
     then_do (GetCollection env client ident ''full'' s) (\<lambda>collection s.
       resolveSearchCapabilities env client (Some collection) s)"

definition GetOfferingSearchCapabilities ::
  "('c, 'w) agent_env \<Rightarrow> service_client \<Rightarrow> string \<Rightarrow> ('c, 'w) agent_state \<Rightarrow>
   (agent_error + search_catalog) \<times> ('c, 'w) agent_state" where
  "GetOfferingSearchCapabilities env client collectionID s =
     (if collectionID = [] then resolveSearchCapabilities env client None s
      else
        then_do (GetCollection env client collectionID ''full'' s) (\<lambda>collection s.
          resolveSearchCapabilities env client (Some collection) s))"

subsection \<open>What a catalog holds\<close>

definition definitions_ok :: "int \<Rightarrow> definitions \<Rightarrow> bool" where
  "definitions_ok limit d \<longleftrightarrow>
     distinct (map fst d) \<and> int (length d) \<le> limit \<and> list_all (\<lambda>(i, v). def_id v = i) d"

definition catalog_ok :: "search_catalog \<Rightarrow> bool" where
  "catalog_ok result \<longleftrightarrow>
     definitions_ok maximumFilters (cat_filters result) \<and> distinct (map fst (cat_sorts result)) \<and>
     int (length (cat_sorts result)) \<le> maximumSorts \<and>
     list_all (\<lambda>(i, srt, filters). def_id srt = i \<and> sort_filters (cat_filters result) srt = Some filters)
       (cat_sorts result)"

lemma update_length: "length (AList.update k v d) \<le> Suc (length d)"
  by (induction d) auto

lemma update_all: "list_all P d \<Longrightarrow> P (k, v) \<Longrightarrow> list_all P (AList.update k v d)"
  by (induction d) auto

lemma fold_update_definitions:
  assumes "distinct (map fst d)" and "list_all (\<lambda>(i, v). def_id v = i) d"
  shows "distinct (map fst (fold (\<lambda>v. AList.update (def_id v) v) vals d)) \<and>
    length (fold (\<lambda>v. AList.update (def_id v) v) vals d) \<le> length d + length vals \<and>
    list_all (\<lambda>(i, v). def_id v = i) (fold (\<lambda>v. AList.update (def_id v) v) vals d)"
  using assms
proof (induction vals arbitrary: d)
  case (Cons v vals)
  have "distinct (map fst (AList.update (def_id v) v d))" using Cons.prems(1) by (rule distinct_update)
  moreover have "list_all (\<lambda>(i, v). def_id v = i) (AList.update (def_id v) v d)"
    using Cons.prems(2) by (rule update_all) simp
  ultimately show ?case
    using Cons.IH [of "AList.update (def_id v) v d"] update_length [of "def_id v" v d] by auto
qed simp

lemma distinct_keys_filter: "distinct (map fst d) \<Longrightarrow> distinct (map fst (filter P d))"
  by (induction d) auto

lemma merge_definitions_ok:
  assumes "definitions_ok limit known" and "int (length known + length vals) \<le> limit"
  shows "definitions_ok limit (merge_definitions known vals)"
proof -
  let ?conflicts = "set (conflicting known vals)"
  let ?kept = "filter (\<lambda>(i, _). i \<notin> ?conflicts) known" and ?added = "filter (\<lambda>v. def_id v \<notin> ?conflicts) vals"
  have "distinct (map fst ?kept)" "list_all (\<lambda>(i, v). def_id v = i) ?kept"
    using assms(1) distinct_keys_filter by (auto simp: definitions_ok_def list_all_iff)
  from fold_update_definitions [OF this, of ?added]
  have merged: "distinct (map fst (merge_definitions known vals))"
      "length (merge_definitions known vals) \<le> length ?kept + length ?added"
      "list_all (\<lambda>(i, v). def_id v = i) (merge_definitions known vals)"
    by (simp_all add: merge_definitions_def Let_def)
  moreover have "length (merge_definitions known vals) \<le> length known + length vals"
    by (rule order_trans [OF merged(2)]) (intro add_mono length_filter_le)
  ultimately show ?thesis using assms(2) by (simp add: definitions_ok_def)
qed

lemma add_issue_fields [simp]:
  "cat_filters (add_issue kind text scope result) = cat_filters result"
  "cat_sorts (add_issue kind text scope result) = cat_sorts result"
  by (simp_all add: add_issue_def)

lemma addFilters_ok:
  assumes "definitions_ok maximumFilters (cat_filters result)"
  shows "definitions_ok maximumFilters (cat_filters (fst (addFilters env client scope source result s))) \<and>
    cat_sorts (fst (addFilters env client scope source result s)) = cat_sorts result"
  using assms by (auto simp: addFilters_def Let_def intro: merge_definitions_ok split: option.split prod.split sum.split)

lemma addSorts_ok:
  assumes "definitions_ok maximumSorts (ss_sorts known)"
  shows "cat_filters (fst (fst (addSorts env client scope source (result, known) s))) = cat_filters result \<and>
    cat_sorts (fst (fst (addSorts env client scope source (result, known) s))) = cat_sorts result \<and>
    definitions_ok maximumSorts (ss_sorts (snd (fst (addSorts env client scope source (result, known) s))))"
  using assms by (auto simp: addSorts_def Let_def intro: merge_definitions_ok split: option.split prod.split sum.split)

lemma add_source_ok:
  assumes "definitions_ok maximumFilters (cat_filters (fst (fst st)))" "definitions_ok maximumSorts (ss_sorts (snd (fst st)))"
  shows "definitions_ok maximumFilters (cat_filters (fst (fst (add_source env client source st)))) \<and>
    definitions_ok maximumSorts (ss_sorts (snd (fst (add_source env client source st)))) \<and>
    cat_sorts (fst (fst (add_source env client source st))) = cat_sorts (fst (fst st))"
proof -
  obtain result known s where st: "st = ((result, known), s)" by (metis prod.collapse)
  obtain capabilities scope where source: "source = (capabilities, scope)" by (cases source)
  show ?thesis
  proof (cases capabilities)
    case None
    with assms st source show ?thesis by (simp add: add_source_def)
  next
    case (Some c)
    obtain result' s' where added:
        "addFilters env client scope (ptr_field c ''Filters'') result s = (result', s')"
      by (cases "addFilters env client scope (ptr_field c ''Filters'') result s")
    with addFilters_ok [of result env client scope "ptr_field c ''Filters''" s]
      addSorts_ok [of known env client scope "ptr_field c ''Sorts''" result' s'] assms st source Some
    show ?thesis by (simp add: add_source_def)
  qed
qed

text \<open>The sorts resolved so far, over the filters \<open>filters\<close> and the identifiers \<open>ids\<close>.\<close>

definition sorts_ok :: "definitions \<Rightarrow> string set \<Rightarrow> search_catalog \<Rightarrow> bool" where
  "sorts_ok filters ids result \<longleftrightarrow>
     cat_filters result = filters \<and> distinct (map fst (cat_sorts result)) \<and> fst ` set (cat_sorts result) \<subseteq> ids \<and>
     list_all (\<lambda>(i, srt, fs). def_id srt = i \<and> sort_filters filters srt = Some fs) (cat_sorts result)"

lemma resolve_sort_ok:
  assumes "sorts_ok filters (fst ` set (ss_sorts known)) result" and "list_all (\<lambda>(i, v). def_id v = i) (ss_sorts known)"
  shows "sorts_ok filters (fst ` set (ss_sorts known)) (resolve_sort known i result)"
proof (cases "map_of (ss_sorts known) i")
  case None
  with assms show ?thesis by (simp add: resolve_sort_def)
next
  case (Some srt)
  then have srt: "def_id srt = i" "i \<in> fst ` set (ss_sorts known)"
    using assms(2) map_of_SomeD [OF Some] by (auto simp: list_all_iff rev_image_eqI)
  show ?thesis
  proof (cases "sort_filters (cat_filters result) srt")
    case None
    with assms Some show ?thesis by (simp add: resolve_sort_def sorts_ok_def)
  next
    case fs: (Some fs)
    have "distinct (map fst (AList.update i (srt, fs) (cat_sorts result)))"
      using assms(1) by (intro distinct_update) (simp add: sorts_ok_def)
    moreover have "fst ` set (AList.update i (srt, fs) (cat_sorts result)) \<subseteq> fst ` set (ss_sorts known)"
      using assms(1) srt(2) by (simp add: sorts_ok_def dom_update)
    moreover have "list_all (\<lambda>(i, srt, fs). def_id srt = i \<and> sort_filters filters srt = Some fs)
        (AList.update i (srt, fs) (cat_sorts result))"
      using assms(1) srt(1) fs by (intro update_all) (simp_all add: sorts_ok_def)
    ultimately show ?thesis
      using assms(1) Some fs by (simp add: resolve_sort_def sorts_ok_def)
  qed
qed

lemma resolve_sorts_ok:
  assumes "sorts_ok filters (fst ` set (ss_sorts known)) result" and "list_all (\<lambda>(i, v). def_id v = i) (ss_sorts known)"
  shows "sorts_ok filters (fst ` set (ss_sorts known)) (fold (resolve_sort known) ids result)"
  using assms by (induction ids arbitrary: result) (simp_all add: resolve_sort_ok)

lemma add_sources_ok:
  assumes "definitions_ok maximumFilters (cat_filters (fst (fst st)))" "definitions_ok maximumSorts (ss_sorts (snd (fst st)))"
  shows "definitions_ok maximumFilters (cat_filters (fst (fst (fold (add_source env client) sources st)))) \<and>
    definitions_ok maximumSorts (ss_sorts (snd (fst (fold (add_source env client) sources st)))) \<and>
    cat_sorts (fst (fst (fold (add_source env client) sources st))) = cat_sorts (fst (fst st))"
  using assms by (induction sources arbitrary: st) (simp_all add: add_source_ok)

text \<open>C25: whatever sources an Agent gathers and whatever they link to, the catalog has at most 1024 filters and 128
  sorts, each once and under its own identifier, and every sort comes with the filters of its keys, all of
  them filters of the catalog.\<close>

theorem catalog_invariant: "catalog_ok (fst (gathered env client sources s))"
proof -
  obtain result known s' where run:
      "fold (add_source env client) sources ((empty_catalog, \<lparr>ss_sorts = [], ss_scopes = []\<rparr>), s) = ((result, known), s')"
    by (metis prod.collapse)
  have "definitions_ok maximumFilters (cat_filters result)" "definitions_ok maximumSorts (ss_sorts known)"
      "cat_sorts result = []"
    using add_sources_ok [of "((empty_catalog, \<lparr>ss_sorts = [], ss_scopes = []\<rparr>), s)" env client sources] run
    by (simp_all add: empty_catalog_def definitions_ok_def maximumFilters_def maximumSorts_def)
  note facts = this
  let ?result = "fold (resolve_sort known) (sortedKeys (ss_sorts known)) result"
  have ok: "sorts_ok (cat_filters result) (fst ` set (ss_sorts known)) ?result"
    using facts by (intro resolve_sorts_ok) (simp_all add: sorts_ok_def definitions_ok_def)
  have "length (cat_sorts ?result) = card (fst ` set (cat_sorts ?result))"
    using ok distinct_card [of "map fst (cat_sorts ?result)"] by (simp add: sorts_ok_def)
  also have "\<dots> \<le> card (fst ` set (ss_sorts known))"
    using ok by (intro card_mono) (simp_all add: sorts_ok_def)
  also have "\<dots> \<le> length (ss_sorts known)" using card_length [of "map fst (ss_sorts known)"] by simp
  finally have "int (length (cat_sorts ?result)) \<le> maximumSorts" using facts(2) by (simp add: definitions_ok_def)
  with ok facts(1) show ?thesis by (simp add: gathered_def run catalog_ok_def sorts_ok_def)
qed

end
