(* ===== verification/AgentSupporting.thy ===== *)
theory AgentSupporting
  imports AgentClient
begin

section \<open>Supporting documents\<close>

text \<open>
  \<open>agent/supporting.go\<close>: Attribute Schemas and OpenAPI documents, fetched from any origin over HTTPS
  with a client of their own and no credentials.  The environment here is that of the supporting
  client: the cache they share, the other client's network, one clock.
\<close>

record supporting =
  su_target :: string
  su_class :: string
  su_accept :: string
  su_types :: "string list"
  su_bytes :: int
  su_depth :: nat
  su_fallback :: int

definition decodeSupportingJSON :: "string \<Rightarrow> agent_error + obj" where
  "decodeSupportingJSON content =
     (case read_json content of
        Decoded (JObj document) EndOfInput \<Rightarrow> Inr document
      | Decoded (JObj document) _ \<Rightarrow> Inl (Message ''ODP supporting document must contain one JSON value'')
      | _ \<Rightarrow> Inl (Message ''ODP supporting document must be a JSON object''))"

definition su_key :: "supporting \<Rightarrow> string" where
  "su_key su = cacheKey (''anonymous:'' @ su_class su @ '':'' @ su_accept su) ''GET'' (su_target su) [] None"

text \<open>The request as \<open>request\<close> would be asked for it, for the parts the two have in common.\<close>

definition su_call :: "service_client \<Rightarrow> supporting \<Rightarrow> agent_call" where
  "su_call client su =
     \<lparr>call_method = ''GET'', call_target = su_target su, call_body = None, call_language = [],
      call_redirects = sc_redirects client, call_bytes = su_bytes su, call_key = su_key su,
      call_fallback = su_fallback su, call_validate = None\<rparr>"

definition secure_parse :: "string \<Rightarrow> url option" where
  "secure_parse raw =
     (case Parse raw of
        Some u \<Rightarrow> if scheme u \<noteq> ''https'' \<or> host u = [] then None else Some u
      | None \<Rightarrow> None)"

definition su_headers :: "supporting \<Rightarrow> cache_record option \<Rightarrow> http_header" where
  "su_headers su held =
     (let h = header_set ''Accept'' (su_accept su) [] in
      case held of
        None \<Rightarrow> h
      | Some r \<Rightarrow>
          (let h = (if rec_etag r \<noteq> [] then header_set ''If-None-Match'' (rec_etag r) h else h) in
           if rec_last_modified r \<noteq> [] then header_set ''If-Modified-Since'' (rec_last_modified r) h else h))"

definition su_redirect ::
  "('c, 'w) agent_env \<Rightarrow> string \<Rightarrow> url \<Rightarrow> in_response \<Rightarrow> agent_error + url" where
  "su_redirect env origin current response =
     (case Parse (header_get (in_header response) ''Location'') of
        None \<Rightarrow> Inl (Message ''ODP supporting document redirect must use HTTPS'')
      | Some ref \<Rightarrow>
          (let next = ResolveReference current ref in
           if scheme next \<noteq> ''https'' \<or> host next = [] then
             Inl (Message ''ODP supporting document redirect must use HTTPS'')
           else if origin_of env (url_string next) \<noteq> Inr origin then
             Inl (Message ''ODP supporting document redirect changed origin'')
           else Inr next))"

text \<open>Answering once the cache has been written.\<close>

definition su_after ::
  "(string + unit) \<times> 'c \<Rightarrow> 'w \<Rightarrow> agent_error + obj \<Rightarrow> (agent_error + obj) \<times> ('c, 'w) agent_state" where
  "su_after written w answer =
     (case written of
        (Inl err, c) \<Rightarrow> (Inl (CacheFailed err), c, w)
      | (Inr _, c) \<Rightarrow> (answer, c, w))"

definition su_revalidate ::
  "('c, 'w) agent_env \<Rightarrow> service_client \<Rightarrow> supporting \<Rightarrow> cache_record \<Rightarrow> url \<Rightarrow> in_response \<Rightarrow>
   ('c, 'w) agent_state \<Rightarrow> (agent_error + obj) \<times> ('c, 'w) agent_state" where
  "su_revalidate env client su r current response s =
     (case s of (c, w) \<Rightarrow>
        let h = in_header response; echoed = header_get h ''ETag''; answer = decodeSupportingJSON (rec_content r) in
        if echoed \<noteq> [] \<and> echoed \<noteq> rec_etag r then
          (Inl (Message ''ODP supporting document 304 confirmed a validator the cache does not hold''),
           snd (cache_delete env (su_key su) c), w)
        else if \<not> supportedVary (header_values h ''Vary'') \<or> control h ''no-store'' \<noteq> None then
          su_after (cache_delete env (su_key su) c) w answer
        else
          (case net_now (env_net env) w of (now, w) \<Rightarrow>
             su_after (cache_set env (su_key su)
               (revalidated_record env (su_call client su) r h (url_string current) now) c) w answer))"

text \<open>The document of a successful response, before anything is written.\<close>

definition su_content :: "supporting \<Rightarrow> in_response \<Rightarrow> agent_error + string \<times> obj" where
  "su_content su response =
     (case ParseMediaType (header_get (in_header response) ''Content-Type'') of
        None \<Rightarrow> Inl (Message ''ODP supporting document has an unsupported media type'')
      | Some mediaType \<Rightarrow>
          if to_lower mediaType \<notin> set (su_types su) then
            Inl (Message ''ODP supporting document has an unsupported media type'')
          else
            (case read_response (su_bytes su + 1) response of
               Inl err \<Rightarrow> Inl (NetworkFailed err)
             | Inr content \<Rightarrow>
                 if int (length content) > su_bytes su then Inl ResponseLimitExceeded
                 else if json_depth_of content > su_depth su then Inl ResponseLimitExceeded
                 else bind_res (decodeSupportingJSON content) (\<lambda>document. Inr (content, document))))"

definition su_record ::
  "('c, 'w) agent_env \<Rightarrow> supporting \<Rightarrow> url \<Rightarrow> in_response \<Rightarrow> string \<Rightarrow> int \<Rightarrow> cache_record" where
  "su_record env su current response content now =
     (let h = in_header response in
      \<lparr>rec_content = content, rec_etag = header_get h ''ETag'',
       rec_expires = expiry (env_zones env) h (su_fallback su) now, rec_final_url = url_string current,
       rec_last_modified = header_get h ''Last-Modified'', rec_status = in_status response, rec_stored = Some now\<rparr>)"

definition su_receive ::
  "('c, 'w) agent_env \<Rightarrow> service_client \<Rightarrow> supporting \<Rightarrow> cache_record option \<Rightarrow> url \<Rightarrow> in_response \<Rightarrow>
   ('c, 'w) agent_state \<Rightarrow> (agent_error + obj) \<times> ('c, 'w) agent_state" where
  "su_receive env client su held current response s =
     (case (in_status response = 304, held) of
        (True, Some r) \<Rightarrow> su_revalidate env client su r current response s
      | _ \<Rightarrow>
          if \<not> successful (in_status response) then
            (Inl (Message (''ODP supporting document returned HTTP '' @ itoa (in_status response))), s)
          else
            (case su_content su response of
               Inl err \<Rightarrow> (Inl err, s)
             | Inr (content, document) \<Rightarrow>
                 (case s of (c, w) \<Rightarrow>
                    if cacheable ''GET'' (in_header response) (su_fallback su) then
                      (case net_now (env_net env) w of (now, w) \<Rightarrow>
                         su_after (cache_set env (su_key su) (su_record env su current response content now) c) w
                           (Inr document))
                    else su_after (cache_delete env (su_key su) c) w (Inr document))))"

text \<open>The loop, with \<open>left = maxRedirects - redirects\<close>.\<close>

fun su_exchange ::
  "('c, 'w) agent_env \<Rightarrow> service_client \<Rightarrow> supporting \<Rightarrow> string \<Rightarrow> cache_record option \<Rightarrow> nat \<Rightarrow> url \<Rightarrow>
   ('c, 'w) agent_state \<Rightarrow> (agent_error + obj) \<times> ('c, 'w) agent_state" where
  "su_exchange env client su origin held left current (c, w) =
     (case NewRequest ''GET'' (url_string current) (su_headers su held) None of
        Inl err \<Rightarrow> (Inl err, c, w)
      | Inr req \<Rightarrow>
          (case net_do (env_net env) req w of
             (Inl err, w) \<Rightarrow> (Inl (NetworkFailed err), c, w)
           | (Inr response, w) \<Rightarrow>
               if redirectStatus (in_status response) then
                 (case left of
                    0 \<Rightarrow> (Inl (Message ''ODP supporting document exceeded its redirect limit''), c, w)
                  | Suc left' \<Rightarrow>
                      (case su_redirect env origin current response of
                         Inl err \<Rightarrow> (Inl err, c, w)
                       | Inr next \<Rightarrow> su_exchange env client su origin held left' next (c, w)))
               else su_receive env client su held current response (c, w)))"

declare su_exchange.simps [simp del]

text \<open>An entry fetched from another origin is dropped.\<close>

definition su_held ::
  "('c, 'w) agent_env \<Rightarrow> supporting \<Rightarrow> string \<Rightarrow> cache_record option \<Rightarrow> 'c \<Rightarrow> cache_record option \<times> 'c" where
  "su_held env su origin found c =
     (case found of
        None \<Rightarrow> (None, c)
      | Some r \<Rightarrow>
          if rec_final_url r \<noteq> [] \<and> origin_of env (rec_final_url r) \<noteq> Inr origin
          then (None, snd (cache_delete env (su_key su) c)) else (Some r, c))"

definition su_fetch ::
  "('c, 'w) agent_env \<Rightarrow> service_client \<Rightarrow> supporting \<Rightarrow> string \<Rightarrow> url \<Rightarrow> cache_record option \<Rightarrow> ('c, 'w) agent_state \<Rightarrow>
   (agent_error + obj) \<times> ('c, 'w) agent_state" where
  "su_fetch env client su origin current held s =
     su_exchange env client su origin held (nat (sc_redirects client)) current s"

definition supportingJSON ::
  "('c, 'w) agent_env \<Rightarrow> service_client \<Rightarrow> supporting \<Rightarrow> ('c, 'w) agent_state \<Rightarrow>
   (agent_error + obj) \<times> ('c, 'w) agent_state" where
  "supportingJSON env client su s =
     (case secure_parse (su_target su) of
        None \<Rightarrow> (Inl (Message ''ODP supporting document URL must use HTTPS''), s)
      | Some current \<Rightarrow>
          (case origin_of env (url_string current) of
             Inl err \<Rightarrow> (Inl (Rejected err), s)
           | Inr origin \<Rightarrow>
               (case s of (c, w) \<Rightarrow>
                  (case cachedRecord env (su_key su) c of
                     Inl err \<Rightarrow> (Inl (CacheFailed err), c, w)
                   | Inr found \<Rightarrow>
                       (case su_held env su origin found c of
                          (None, c) \<Rightarrow> su_fetch env client su origin current None (c, w)
                        | (Some r, c) \<Rightarrow>
                            (case net_now (env_net env) w of (now, w) \<Rightarrow>
                               if now < rec_expires r then
                                 (case decodeSupportingJSON (rec_content r) of
                                    Inl err \<Rightarrow> (Inl err, snd (cache_delete env (su_key su) c), w)
                                  | Inr document \<Rightarrow> (Inr document, c, w))
                               else su_fetch env client su origin current (Some r) (c, w)))))))"

subsection \<open>Where they are fetched\<close>

lemma su_after_state [simp]: "snd (su_after written w answer) = (snd written, w)"
  by (simp add: su_after_def split: prod.splits sum.splits)

lemma su_revalidate_log:
  "env_net env = recorded net \<Longrightarrow> snd (snd (snd (su_revalidate env client su r current response s))) = snd (snd s)"
  by (auto simp: su_revalidate_def Let_def dest: recorded_now split: prod.splits)

lemma su_receive_log:
  "env_net env = recorded net \<Longrightarrow> snd (snd (snd (su_receive env client su held current response s))) = snd (snd s)"
  by (auto simp: su_receive_def su_revalidate_log dest: recorded_now
      split: prod.splits sum.splits option.splits bool.splits)

text \<open>A request the client may send: a GET without a body, of an HTTPS URL of the origin.\<close>

definition fetches_from :: "('c, 'w) agent_env \<Rightarrow> string \<Rightarrow> out_request \<Rightarrow> bool" where
  "fetches_from env origin req \<longleftrightarrow>
     out_method req = ''GET'' \<and> out_body req = None \<and>
     (\<exists>u. scheme u = ''https'' \<and> host u \<noteq> [] \<and> out_url req = url_string u) \<and>
     origin_of env (out_url req) = Inr origin"

lemma su_redirect_target:
  "su_redirect env origin current response = Inr next \<Longrightarrow>
     scheme next = ''https'' \<and> host next \<noteq> [] \<and> origin_of env (url_string next) = Inr origin"
  by (auto simp: su_redirect_def Let_def split: option.splits if_splits)

lemma NewRequest_fields:
  "NewRequest verb dest h content = Inr req \<Longrightarrow>
     out_url req = dest \<and> out_body req = content \<and> (verb \<noteq> [] \<longrightarrow> out_method req = verb) \<and> out_header req = h"
  by (auto simp: NewRequest_def split: if_splits)

lemma su_exchange_log:
  assumes "env_net env = recorded net"
  shows "scheme current = ''https'' \<Longrightarrow> host current \<noteq> [] \<Longrightarrow> origin_of env (url_string current) = Inr origin \<Longrightarrow>
    \<exists>more. snd (snd (snd (su_exchange env client su origin held left current (c, w)))) = snd w @ more \<and>
      length more \<le> Suc left \<and> list_all (fetches_from env origin) more"
proof (induction left arbitrary: current w)
  case (0 current w)
  then have "NewRequest ''GET'' (url_string current) h None = Inr req \<Longrightarrow> fetches_from env origin req" for h req
    by (auto simp: fetches_from_def dest!: NewRequest_fields)
  then show ?case
    by (auto simp: su_exchange.simps [of env client su origin held 0] su_receive_log assms
        dest: recorded_do [of net] split: sum.split prod.split)
next
  case (Suc left current w)
  then have req: "NewRequest ''GET'' (url_string current) h None = Inr req \<Longrightarrow> fetches_from env origin req" for h req
    by (auto simp: fetches_from_def dest!: NewRequest_fields)
  show ?case
  proof (cases "NewRequest ''GET'' (url_string current) (su_headers su held) None")
    case (Inl e)
    then show ?thesis by (simp add: su_exchange.simps)
  next
    case made: (Inr q)
    obtain r w1 where sent: "net_do (env_net env) q w = (r, w1)" by (cases "net_do (env_net env) q w")
    then have log: "snd w1 = snd w @ [q]" using recorded_do assms by metis
    show ?thesis
    proof (cases "\<exists>response next. r = Inr response \<and> redirectStatus (in_status response) \<and>
        su_redirect env origin current response = Inr next")
      case True
      then obtain response "next" where follow: "r = Inr response" "redirectStatus (in_status response)"
          "su_redirect env origin current response = Inr next" by blast
      note target = su_redirect_target [OF follow(3)]
      from Suc.IH [of "next" w1] target obtain more where
          "snd (snd (snd (su_exchange env client su origin held left next (c, w1)))) = snd w1 @ more"
          "length more \<le> Suc left" "list_all (fetches_from env origin) more" by blast
      moreover have "su_exchange env client su origin held (Suc left) current (c, w) =
          su_exchange env client su origin held left next (c, w1)"
        by (subst su_exchange.simps) (simp add: made sent follow)
      ultimately show ?thesis using log req [OF made] by (intro exI [of _ "q # more"]) simp
    next
      case False
      then have "snd (snd (snd (su_exchange env client su origin held (Suc left) current (c, w)))) = snd w1"
        by (subst su_exchange.simps) (auto simp: made sent [unfolded assms] su_receive_log assms split: sum.split)
      then show ?thesis using log req [OF made] by (intro exI [of _ "[q]"]) simp
    qed
  qed
qed

lemma su_fetch_log:
  assumes "env_net env = recorded net" and "secure_parse (su_target su) = Some current"
    and "origin_of env (url_string current) = Inr origin"
  shows "\<exists>more. snd (snd (snd (su_fetch env client su origin current held (c, w)))) = snd w @ more \<and>
    length more \<le> Suc (nat (sc_redirects client)) \<and> list_all (fetches_from env origin) more"
proof -
  have "scheme current = ''https''" "host current \<noteq> []"
    using assms(2) by (auto simp: secure_parse_def split: option.splits if_splits)
  with su_exchange_log [OF assms(1)] assms(3) show ?thesis by (simp add: su_fetch_def)
qed

text \<open>C27: a supporting document is asked for at most one time more than redirects are followed, each time with a
  GET without a body of an HTTPS URL of the origin the document was named at.\<close>

theorem supportingJSON_stays:
  assumes "env_net env = recorded net" and "supportingJSON env client su (c, w, []) = (answer, c', w', log)"
  shows "log = [] \<or>
    (\<exists>u origin. secure_parse (su_target su) = Some u \<and> origin_of env (url_string u) = Inr origin \<and>
       length log \<le> Suc (nat (sc_redirects client)) \<and> list_all (fetches_from env origin) log)"
proof (cases "secure_parse (su_target su)")
  case None
  with assms(2) show ?thesis by (simp add: supportingJSON_def)
next
  case (Some u)
  show ?thesis
  proof (cases "origin_of env (url_string u)")
    case (Inl e)
    with assms(2) Some show ?thesis by (simp add: supportingJSON_def)
  next
    case (Inr origin)
    have fetched: "snd w1 = [] \<Longrightarrow> su_fetch env client su origin u held (c1, w1) = (answer, c', w', log) \<Longrightarrow>
        length log \<le> Suc (nat (sc_redirects client)) \<and> list_all (fetches_from env origin) log" for held c1 w1
      using su_fetch_log [OF assms(1) Some Inr, of client held c1 w1] by auto
    have clock: "snd (snd (net_now (env_net env) (w, []))) = []"
      using recorded_now [OF prod.collapse [symmetric], of net "(w, [])"] assms(1) by simp
    have "log = [] \<or> length log \<le> Suc (nat (sc_redirects client)) \<and> list_all (fetches_from env origin) log"
      using assms(2) Some Inr clock
      by (auto simp: supportingJSON_def split: sum.splits prod.splits option.splits if_splits dest!: fetched [rotated])
    with Some Inr show ?thesis by blast
  qed
qed

definition example_client :: service_client where
  "example_client =
     \<lparr>sc_language = [], sc_fallbacks = resolved_fallbacks \<lparr>fb_schema = 0, fb_capability = 0, fb_collection = 0,
        fb_offering = 0, fb_search = 0, fb_document = 0\<rparr>,
      sc_page_size = 50, sc_redirects = 5, sc_partition = ''public'', sc_cached = True, sc_origin = ''https://s.co''\<rparr>"

definition example_supporting :: supporting where
  "example_supporting =
     \<lparr>su_target = ''https://s.co/a'', su_class = ''openapi'', su_accept = ''application/json'',
      su_types = [''application/json''], su_bytes = 100, su_depth = 8, su_fallback = 0\<rparr>"

theorem supportingJSON_stays_witness:
  "origin_of (example_agent_env (recorded example_net)) ''https://s.co/b'' = Inr ''https://s.co''"
proof -
  let ?env = "example_agent_env (recorded example_net)"
  obtain answer c' w' log where run:
      "supportingJSON ?env example_client example_supporting (NewMemoryCache, 0, []) = (answer, c', w', log)"
    by (metis prod_cases4)
  have "map_option (\<lambda>u. (url_string u, origin_of ?env (url_string u))) (secure_parse (su_target example_supporting))
      = Some (''https://s.co/a'', Inr ''https://s.co'')"
    by code_simp
  then obtain u where u: "secure_parse (su_target example_supporting) = Some u" "url_string u = ''https://s.co/a''"
      "origin_of ?env (url_string u) = Inr ''https://s.co''"
    by auto
  have "cachedRecord ?env (su_key example_supporting) NewMemoryCache = Inr None"
    by (simp add: cachedRecord_def example_agent_env_def memory_ops_def MemoryCache_Get_def NewMemoryCache_def)
  then have "supportingJSON ?env example_client example_supporting (NewMemoryCache, 0, [])
      = su_fetch ?env example_client example_supporting ''https://s.co'' u None (NewMemoryCache, 0, [])"
    by (simp add: supportingJSON_def u(1,3) u(3) [unfolded u(2)] u(2) su_held_def)
  moreover have "(case secure_parse (su_target example_supporting) of
      Some u \<Rightarrow> map out_url (snd (snd (snd (su_fetch ?env example_client example_supporting ''https://s.co'' u None
        (NewMemoryCache, 0, []))))) | None \<Rightarrow> []) = [''https://s.co/a'', ''https://s.co/b'']"
    by code_simp
  ultimately have urls: "map out_url log = [''https://s.co/a'', ''https://s.co/b'']"
    using run by (simp add: u(1)) (metis snd_conv)
  have "env_net ?env = recorded example_net" by (simp add: example_agent_env_def)
  from supportingJSON_stays [OF this run] urls u show ?thesis by (auto simp: fetches_from_def map_eq_Cons_conv)
qed

subsection \<open>What they are\<close>

lemma su_after_Inr: "su_after written w answer = (Inr document, s') \<Longrightarrow> answer = Inr document"
  by (auto simp: su_after_def split: prod.splits sum.splits)

lemma su_receive_content:
  assumes "su_receive env client su held current response s = (Inr document, s')"
  shows "(\<exists>r. held = Some r \<and> decodeSupportingJSON (rec_content r) = Inr document) \<or>
    (\<exists>content. decodeSupportingJSON content = Inr document \<and> int (length content) \<le> su_bytes su \<and>
       json_depth_of content \<le> su_depth su)"
  using assms
  by (auto simp: su_receive_def su_revalidate_def su_content_def Let_def bind_res_def dest!: su_after_Inr
      split: prod.splits sum.splits option.splits bool.splits if_splits)

lemma su_exchange_content:
  assumes "su_exchange env client su origin held left current (c, w) = (Inr document, s')"
  shows "(\<exists>r. held = Some r \<and> decodeSupportingJSON (rec_content r) = Inr document) \<or>
    (\<exists>content. decodeSupportingJSON content = Inr document \<and> int (length content) \<le> su_bytes su \<and>
       json_depth_of content \<le> su_depth su)"
  using assms
proof (induction left arbitrary: current w)
  case (0 current w)
  then show ?case
    by (auto simp: su_exchange.simps [of env client su origin held 0] dest!: su_receive_content
        split: sum.splits prod.splits if_splits)
next
  case (Suc left current w)
  from Suc.prems show ?case
    by (auto simp: su_exchange.simps [of env client su origin held "Suc left"] dest!: su_receive_content Suc.IH
        split: sum.splits prod.splits if_splits)
qed

text \<open>A supporting document an Agent is given is one JSON object, and either what the cache held under its
  key or a response within the byte and depth limits of its kind.\<close>

theorem supportingJSON_content:
  assumes "supportingJSON env client su (c, w) = (Inr document, s')"
  shows "(\<exists>r. cachedRecord env (su_key su) c = Inr (Some r) \<and> decodeSupportingJSON (rec_content r) = Inr document) \<or>
    (\<exists>content. decodeSupportingJSON content = Inr document \<and> int (length content) \<le> su_bytes su \<and>
       json_depth_of content \<le> su_depth su)"
  using assms
  by (fastforce simp: supportingJSON_def su_held_def su_fetch_def dest: su_exchange_content
      split: sum.splits prod.splits option.splits if_splits)

end
