(* ===== verification/AgentSchemas.thy ===== *)
theory AgentSchemas
  imports AgentSupporting
begin

section \<open>Attribute Schemas\<close>

text \<open>
  \<open>agent/schemas.go\<close>: the graph of JSON Schema documents behind a URL, loaded within limits and bundled
  into one.  The compiler of the bundle is \<open>santhosh-tekuri/jsonschema\<close>, a parameter: it rejects a bundle
  or gives the predicate on values that is its validator.  The members of an object are visited in
  the order of their list where Go leaves the order open; only which of several errors is reported
  depends on it.
\<close>

definition attributeSchemaDialect :: string where
  "attributeSchemaDialect = ''https://json-schema.org/draft/2020-12/schema''"
definition attributeSchemaMediaType :: string where "attributeSchemaMediaType = ''application/schema+json''"
definition maximumAttributeDocuments :: nat where "maximumAttributeDocuments = 16"
definition maximumAttributeDocumentSize :: int where "maximumAttributeDocumentSize = 262144"
definition maximumAttributeGraphSize :: int where "maximumAttributeGraphSize = 1048576"
definition maximumAttributeDepth :: nat where "maximumAttributeDepth = 8"

record ('c, 'w) details_env =
  de_agent :: "('c, 'w) agent_env"
  de_supporting :: "'w network"
  de_compile :: "string \<Rightarrow> obj \<Rightarrow> string + (json \<Rightarrow> bool)"
  de_openapi :: "obj \<Rightarrow> string + bool"

definition supporting_env :: "('c, 'w) details_env \<Rightarrow> ('c, 'w) agent_env" where
  "supporting_env env = (de_agent env)\<lparr>env_net := de_supporting env\<rparr>"

subsection \<open>Walks over a document\<close>

text \<open>A step for each element in turn, until one fails.\<close>

primrec steps_res :: "('a \<Rightarrow> 's \<Rightarrow> 'e + 's) \<Rightarrow> 'a list \<Rightarrow> 's \<Rightarrow> 'e + 's" where
  "steps_res f [] s = Inr s"
| "steps_res f (x # xs) s = bind_res (f x s) (steps_res f xs)"

lemma steps_res_cong [fundef_cong]:
  assumes "xs = ys" and "\<And>x s. x \<in> set ys \<Longrightarrow> f x s = g x s"
  shows "steps_res f xs = steps_res g ys"
proof
  fix s
  have "\<forall>x\<in>set zs. \<forall>s. f x s = g x s \<Longrightarrow> steps_res f zs s = steps_res g zs s" for zs
  proof (induction zs arbitrary: s)
    case (Cons z zs)
    then show ?case by (cases "g z s") auto
  qed simp
  with assms show "steps_res f xs s = steps_res g ys s" by simp
qed

lemma json_nodes_inside:
  "x \<in> set xs \<Longrightarrow> json_nodes x < json_nodes (JArr xs)"
  "m \<in> set ms \<Longrightarrow> json_nodes (snd m) < json_nodes (JObj ms)"
  by (simp_all add: less_Suc_eq_le member_le_sum_list)

text \<open>A check of every value in a document: \<open>own\<close> of each object, before those inside it.\<close>

function check_objects :: "(obj \<Rightarrow> 'e + unit) \<Rightarrow> json \<Rightarrow> unit \<Rightarrow> 'e + unit" where
  "check_objects own (JArr xs) u = steps_res (check_objects own) xs u"
| "check_objects own (JObj ms) u =
     bind_res (own ms) (\<lambda>u. steps_res (\<lambda>m. check_objects own (snd m)) ms u)"
| "check_objects own JNull u = Inr u"
| "check_objects own (JBool b) u = Inr u"
| "check_objects own (JNum literal) u = Inr u"
| "check_objects own (JStr text) u = Inr u"
  by pat_completeness auto
termination
  by (relation "measure (\<lambda>(own, v, u). json_nodes v)") (simp_all add: json_nodes_inside del: json_nodes.simps)

definition vocabulary_prefix :: string where
  "vocabulary_prefix = ''https://json-schema.org/draft/2020-12/vocab/''"

definition supported_vocabulary :: "obj \<Rightarrow> agent_error + unit" where
  "supported_vocabulary ms =
     (case get_obj ms ''$vocabulary'' of
        None \<Rightarrow> Inr ()
      | Some vocabulary \<Rightarrow>
          (case find (\<lambda>m. snd m = JBool True \<and> \<not> has_prefix (fst m) vocabulary_prefix) vocabulary of
             Some (uri, _) \<Rightarrow> Inl (Message (''ODP Attribute Schema requires unsupported vocabulary '' @ uri))
           | None \<Rightarrow> Inr ()))"

definition requireSupportedVocabularies :: "json \<Rightarrow> agent_error + unit" where
  "requireSupportedVocabularies v = check_objects supported_vocabulary v ()"

definition fragment_dynamic_reference :: "obj \<Rightarrow> agent_error + unit" where
  "fragment_dynamic_reference ms =
     (case map_of ms ''$dynamicRef'' of
        None \<Rightarrow> Inr ()
      | Some (JStr text) \<Rightarrow>
          if has_prefix text ''#'' then Inr ()
          else Inl (Message ''ODP Attribute Schema $dynamicRef must be a fragment-only reference'')
      | Some _ \<Rightarrow> Inl (Message ''ODP Attribute Schema $dynamicRef must be a fragment-only reference''))"

definition requireFragmentDynamicReferences :: "json \<Rightarrow> agent_error + unit" where
  "requireFragmentDynamicReferences v = check_objects fragment_dynamic_reference v ()"

subsection \<open>References\<close>

definition resolveSchemaReference :: "string \<Rightarrow> string \<Rightarrow> agent_error + url" where
  "resolveSchemaReference reference base =
     (case Parse base of
        None \<Rightarrow> Inl InvalidURL
      | Some baseURL \<Rightarrow>
          (case Parse reference of
             None \<Rightarrow> Inl (Message ''ODP Attribute Schema references must use HTTPS'')
           | Some ref \<Rightarrow>
               (let resolved = ResolveReference baseURL ref in
                if scheme resolved \<noteq> ''https'' \<or> host resolved = [] then
                  Inl (Message ''ODP Attribute Schema references must use HTTPS'')
                else Inr resolved)))"

text \<open>Its text without a fragment.\<close>

definition document_url :: "url \<Rightarrow> string" where "document_url u = url_string (u\<lparr>fragment := []\<rparr>)"

definition resolved_document :: "string \<Rightarrow> string \<Rightarrow> agent_error + string" where
  "resolved_document reference base = bind_res (resolveSchemaReference reference base) (\<lambda>u. Inr (document_url u))"

text \<open>The base of what is inside an object: its \<open>$id\<close>, if it has one.\<close>

definition object_base :: "obj \<Rightarrow> string \<Rightarrow> agent_error + string" where
  "object_base ms base =
     (case get_str ms ''$id'' of None \<Rightarrow> Inr base | Some identifier \<Rightarrow> resolved_document identifier base)"

function schemaResourceURLs :: "json \<Rightarrow> string \<Rightarrow> string list \<Rightarrow> agent_error + string list" where
  "schemaResourceURLs v base result =
     bind_res (resolved_document [] base) (\<lambda>own.
       let result = List.insert own result in
       case v of
         JArr xs \<Rightarrow> steps_res (\<lambda>x. schemaResourceURLs x base) xs result
       | JObj ms \<Rightarrow>
           bind_res (object_base ms base) (\<lambda>base.
             steps_res (\<lambda>m. schemaResourceURLs (snd m) base) ms
               (if get_str ms ''$id'' = None then result else List.insert base result))
       | _ \<Rightarrow> Inr result)"
  by pat_completeness auto
termination
  by (relation "measure (\<lambda>(v, base, result). json_nodes v)") (simp_all add: json_nodes_inside del: json_nodes.simps)

declare schemaResourceURLs.simps [simp del]

function collectSchemaReferences :: "json \<Rightarrow> string \<Rightarrow> string list \<Rightarrow> agent_error + string list" where
  "collectSchemaReferences (JArr xs) base result = steps_res (\<lambda>x. collectSchemaReferences x base) xs result"
| "collectSchemaReferences (JObj ms) base result =
     bind_res (object_base ms base) (\<lambda>base.
     bind_res (case get_str ms ''$ref'' of
                 None \<Rightarrow> Inr result
               | Some reference \<Rightarrow>
                   bind_res (resolved_document reference base) (\<lambda>u. Inr (List.insert u result))) (\<lambda>result.
       steps_res (\<lambda>m result. if fst m = ''$ref'' then Inr result else collectSchemaReferences (snd m) base result)
         ms result))"
| "collectSchemaReferences JNull base result = Inr result"
| "collectSchemaReferences (JBool b) base result = Inr result"
| "collectSchemaReferences (JNum literal) base result = Inr result"
| "collectSchemaReferences (JStr text) base result = Inr result"
  by pat_completeness auto
termination
  by (relation "measure (\<lambda>(v, base, result). json_nodes v)") (simp_all add: json_nodes_inside del: json_nodes.simps)

definition schemaReferences :: "json \<Rightarrow> string \<Rightarrow> agent_error + string list" where
  "schemaReferences v retrievalURL =
     bind_res (schemaResourceURLs v retrievalURL []) (\<lambda>own_urls.
     bind_res (collectSchemaReferences v retrievalURL []) (\<lambda>references.
       Inr (sort (filter (\<lambda>reference. reference \<notin> set own_urls) references))))"

subsection \<open>Loading the graph\<close>

record schema_graph =
  sg_documents :: "(string \<times> obj) list"
  sg_bytes :: int

text \<open>A document that has been fetched joins the graph, if it may; what it refers to is loaded next.\<close>

definition admit_schema :: "string \<Rightarrow> obj \<Rightarrow> schema_graph \<Rightarrow> agent_error + schema_graph \<times> string list" where
  "admit_schema documentURL document g =
     (if map_of document ''$schema'' \<noteq> Some (JStr attributeSchemaDialect) then
        Inl (Message ''ODP Attribute Schema must declare JSON Schema Draft 2020-12'')
      else
        bind_res (requireFragmentDynamicReferences (JObj document)) (\<lambda>_.
          let size = sg_bytes g + int (length (encode_json (JObj document))) in
          if size > maximumAttributeGraphSize then
            Inl (Message ''ODP Attribute Schema graph exceeds its byte limit'')
          else
            bind_res (requireSupportedVocabularies (JObj document)) (\<lambda>_.
            bind_res (schemaReferences (JObj document) documentURL) (\<lambda>references.
              Inr (\<lparr>sg_documents = (documentURL, document) # sg_documents g, sg_bytes = size\<rparr>, references)))))"

definition attribute_schema :: "service_client \<Rightarrow> string \<Rightarrow> supporting" where
  "attribute_schema client documentURL =
     \<lparr>su_target = documentURL, su_class = ''attribute-schema'', su_accept = attributeSchemaMediaType,
      su_types = [attributeSchemaMediaType], su_bytes = maximumAttributeDocumentSize,
      su_depth = maximumResourceDepth, su_fallback = fb_schema (sc_fallbacks client)\<rparr>"

primrec load_all ::
  "(string \<Rightarrow> schema_graph \<Rightarrow> 's \<Rightarrow> ('e + schema_graph) \<times> 's) \<Rightarrow> string list \<Rightarrow> schema_graph \<Rightarrow> 's \<Rightarrow>
   ('e + schema_graph) \<times> 's" where
  "load_all load [] g s = (Inr g, s)"
| "load_all load (u # us) g s = then_do (load u g s) (load_all load us)"

text \<open>\<open>load\<close>, with \<open>levels = maximumAttributeDepth + 1 - depth\<close>.\<close>

primrec load_schema ::
  "('c, 'w) agent_env \<Rightarrow> service_client \<Rightarrow> nat \<Rightarrow> string \<Rightarrow> schema_graph \<Rightarrow> ('c, 'w) agent_state \<Rightarrow>
   (agent_error + schema_graph) \<times> ('c, 'w) agent_state" where
  "load_schema env client 0 = (\<lambda>documentURL g s.
     if map_of (sg_documents g) documentURL \<noteq> None then (Inr g, s)
     else if length (sg_documents g) \<ge> maximumAttributeDocuments then
       (Inl (Message ''ODP Attribute Schema graph exceeds 16 documents''), s)
     else (Inl (Message ''ODP Attribute Schema graph exceeds eight reference levels''), s))"
| "load_schema env client (Suc levels) = (\<lambda>documentURL g s.
     if map_of (sg_documents g) documentURL \<noteq> None then (Inr g, s)
     else if length (sg_documents g) \<ge> maximumAttributeDocuments then
       (Inl (Message ''ODP Attribute Schema graph exceeds 16 documents''), s)
     else
       then_do (supportingJSON env client (attribute_schema client documentURL) s) (\<lambda>document s.
         case admit_schema documentURL document g of
           Inl err \<Rightarrow> (Inl err, s)
         | Inr (g, references) \<Rightarrow> load_all (load_schema env client levels) references g s))"

definition load_graph ::
  "('c, 'w) agent_env \<Rightarrow> service_client \<Rightarrow> string \<Rightarrow> ('c, 'w) agent_state \<Rightarrow>
   (agent_error + schema_graph) \<times> ('c, 'w) agent_state" where
  "load_graph env client rootURL s =
     load_schema env client (Suc maximumAttributeDepth) rootURL \<lparr>sg_documents = [], sg_bytes = 0\<rparr> s"

subsection \<open>The bundle\<close>

text \<open>\<open>cloneMap\<close>: through text and back, numbers through \<open>float64\<close>.\<close>

definition cloneMap :: "obj \<Rightarrow> obj" where "cloneMap d = any_members d"

definition with_id :: "string \<Rightarrow> obj \<Rightarrow> obj" where
  "with_id u d = (if map_of d ''$id'' = None then AList.update ''$id'' (JStr u) d else d)"

text \<open>A key nobody has; the entries bound how often it can be lengthened.\<close>

fun fresh_key :: "nat \<Rightarrow> obj \<Rightarrow> string \<Rightarrow> string" where
  "fresh_key 0 d key = key"
| "fresh_key (Suc n) d key = (if map_of d key = None then key else fresh_key n d (key @ ''_''))"

definition add_external :: "(string \<times> obj) list \<Rightarrow> nat \<times> string \<Rightarrow> obj \<Rightarrow> obj" where
  "add_external documents e d =
     (case e of (index, u) \<Rightarrow>
        AList.update (fresh_key (Suc (length d)) d (''odp_external_'' @ nat_digits index))
          (JObj (with_id u (cloneMap (case map_of documents u of Some document \<Rightarrow> document | None \<Rightarrow> [])))) d)"

definition schema_bundle :: "string \<Rightarrow> (string \<times> obj) list \<Rightarrow> obj" where
  "schema_bundle rootURL documents =
     (let externalURLs = sort (filter (\<lambda>u. u \<noteq> rootURL) (map fst documents));
          root = with_id rootURL (cloneMap (case map_of documents rootURL of Some d \<Rightarrow> d | None \<Rightarrow> [])) in
      if externalURLs = [] then root
      else
        AList.update ''$defs''
          (JObj (fold (add_external documents) (enumerate 0 externalURLs)
            (case get_obj root ''$defs'' of Some d \<Rightarrow> d | None \<Rightarrow> []))) root)"

definition resolveSchema ::
  "('c, 'w) details_env \<Rightarrow> service_client \<Rightarrow> string \<Rightarrow> ('c, 'w) agent_state \<Rightarrow>
   (agent_error + obj \<times> (json \<Rightarrow> bool)) \<times> ('c, 'w) agent_state" where
  "resolveSchema env client reference s =
     (case secure_parse reference of
        None \<Rightarrow> (Inl (Message ''ODP Attribute Schema URL must use HTTPS''), s)
      | Some u \<Rightarrow>
          (let rootURL = document_url u in
           then_do (load_graph (supporting_env env) client rootURL s) (\<lambda>g s.
             let root = schema_bundle rootURL (sg_documents g) in
             case de_compile env rootURL root of
               Inl err \<Rightarrow> (Inl (Message err), s)
             | Inr validator \<Rightarrow> (Inr (root, validator), s))))"

subsection \<open>What the graph holds\<close>

definition document_names :: "schema_graph \<Rightarrow> string set" where
  "document_names g = fst ` set (sg_documents g)"

text \<open>A document that may be in a graph.\<close>

definition schema_ok :: "string \<Rightarrow> obj \<Rightarrow> bool" where
  "schema_ok u document \<longleftrightarrow>
     map_of document ''$schema'' = Some (JStr attributeSchemaDialect) \<and>
     requireFragmentDynamicReferences (JObj document) = Inr () \<and>
     requireSupportedVocabularies (JObj document) = Inr ()"

definition graph_ok :: "schema_graph \<Rightarrow> bool" where
  "graph_ok g \<longleftrightarrow>
     distinct (map fst (sg_documents g)) \<and> length (sg_documents g) \<le> maximumAttributeDocuments \<and>
     sg_bytes g = (\<Sum>(_, document)\<leftarrow>sg_documents g. int (length (encode_json (JObj document)))) \<and>
     sg_bytes g \<le> maximumAttributeGraphSize \<and> list_all (\<lambda>(u, document). schema_ok u document) (sg_documents g)"

text \<open>\<open>g'\<close> has what \<open>g\<close> has, and documents whose references it has as well.\<close>

definition grown :: "schema_graph \<Rightarrow> schema_graph \<Rightarrow> bool" where
  "grown g g' \<longleftrightarrow>
     (graph_ok g \<longrightarrow> graph_ok g') \<and>
     (\<exists>new. sg_documents g' = new @ sg_documents g \<and>
        list_all (\<lambda>(u, document). \<exists>references. schemaReferences (JObj document) u = Inr references \<and>
          set references \<subseteq> document_names g') new)"

lemma grown_refl [simp]: "grown g g"
  by (simp add: grown_def)

lemma grown_names: "grown g g' \<Longrightarrow> document_names g \<subseteq> document_names g'"
  by (auto simp: grown_def document_names_def)

lemma grown_trans:
  assumes "grown g g'" and "grown g' g''"
  shows "grown g g''"
proof -
  from assms obtain new new' where
      new: "sg_documents g' = new @ sg_documents g" "sg_documents g'' = new' @ sg_documents g'"
      "list_all (\<lambda>(u, document). \<exists>references. schemaReferences (JObj document) u = Inr references \<and>
        set references \<subseteq> document_names g') new"
      "list_all (\<lambda>(u, document). \<exists>references. schemaReferences (JObj document) u = Inr references \<and>
        set references \<subseteq> document_names g'') new'"
    unfolding grown_def by blast
  have "sg_documents g'' = (new' @ new) @ sg_documents g" using new by simp
  moreover have "list_all (\<lambda>(u, document). \<exists>references. schemaReferences (JObj document) u = Inr references \<and>
      set references \<subseteq> document_names g'') (new' @ new)"
    using new(3,4) grown_names [OF assms(2)] by (fastforce simp: list_all_iff)
  moreover have "graph_ok g \<longrightarrow> graph_ok g''" using assms by (simp add: grown_def)
  ultimately show ?thesis unfolding grown_def by blast
qed

lemma then_do_Inr: "then_do r f = (Inr x, s) \<longleftrightarrow> (\<exists>y t. r = (Inr y, t) \<and> f y t = (Inr x, s))"
  by (auto simp: then_do_def split: prod.splits sum.splits)

lemma admit_schema_grown:
  assumes "admit_schema u document g = Inr (g', references)" and "map_of (sg_documents g) u = None"
    and "length (sg_documents g) < maximumAttributeDocuments"
  shows "sg_documents g' = (u, document) # sg_documents g \<and> schemaReferences (JObj document) u = Inr references \<and>
    (graph_ok g \<longrightarrow> graph_ok g')"
  using assms
  by (auto simp: admit_schema_def Let_def graph_ok_def schema_ok_def map_of_eq_None_iff res_simps split: if_splits)

lemma load_all_grown:
  assumes "\<And>u g s g' s'. load u g s = (Inr g', s') \<Longrightarrow> grown g g' \<and> u \<in> document_names g'"
  shows "load_all load us g s = (Inr g', s') \<Longrightarrow> grown g g' \<and> set us \<subseteq> document_names g'"
proof (induction us arbitrary: g s)
  case (Cons u us)
  then obtain g1 s1 where "load u g s = (Inr g1, s1)" "load_all load us g1 s1 = (Inr g', s')"
    by (auto simp: then_do_Inr)
  with assms [of u g s g1 s1] Cons.IH [of g1 s1] grown_trans grown_names show ?case by fastforce
qed simp

lemma load_schema_grown:
  "load_schema env client levels u g s = (Inr g', s') \<Longrightarrow> grown g g' \<and> u \<in> document_names g'"
proof (induction levels arbitrary: u g s g' s')
  case 0
  then show ?case by (auto simp: document_names_def rev_image_eqI dest: map_of_SomeD split: if_splits)
next
  case (Suc levels)
  show ?case
  proof (cases "map_of (sg_documents g) u")
    case (Some d)
    with Suc.prems show ?thesis by (auto simp: document_names_def rev_image_eqI dest: map_of_SomeD)
  next
    case None
    with Suc.prems have few: "length (sg_documents g) < maximumAttributeDocuments"
      by (auto simp: not_le split: if_splits)
    with Suc.prems None obtain document s1 where
        "next": "(case admit_schema u document g of Inl err \<Rightarrow> (Inl err, s1)
          | Inr (g, references) \<Rightarrow> load_all (load_schema env client levels) references g s1) = (Inr g', s')"
      by (auto simp: then_do_Inr)
    then obtain g1 references where admitted: "admit_schema u document g = Inr (g1, references)"
      by (cases "admit_schema u document g") auto
    with "next" have rest: "load_all (load_schema env client levels) references g1 s1 = (Inr g', s')" by simp
    note first = admit_schema_grown [OF admitted None few]
    have more: "grown g1 g'" "set references \<subseteq> document_names g'"
      using load_all_grown [of "load_schema env client levels", OF _ rest] Suc.IH by blast+
    then obtain new where new: "sg_documents g' = new @ sg_documents g1"
        "list_all (\<lambda>(u, document). \<exists>references. schemaReferences (JObj document) u = Inr references \<and>
          set references \<subseteq> document_names g') new"
      unfolding grown_def by blast
    have "sg_documents g' = (new @ [(u, document)]) @ sg_documents g" using new(1) first by simp
    moreover have "list_all (\<lambda>(u, document). \<exists>references. schemaReferences (JObj document) u = Inr references \<and>
        set references \<subseteq> document_names g') (new @ [(u, document)])"
      using new(2) first more(2) by simp
    moreover have "graph_ok g \<longrightarrow> graph_ok g'" using first more(1) by (simp add: grown_def)
    ultimately have "grown g g'" unfolding grown_def by blast
    moreover have "u \<in> document_names g'" using new(1) first by (simp add: document_names_def)
    ultimately show ?thesis ..
  qed
qed

text \<open>C28: a graph that loads has the document it was asked for, at most sixteen documents of together a mebibyte,
  each once and each of the dialect with supported vocabularies and local dynamic references, and every document
  that one of them refers to, however the references run in circles.\<close>

theorem load_graph_closed:
  assumes "load_graph env client rootURL s = (Inr g, s')"
  shows "rootURL \<in> document_names g \<and> graph_ok g \<and>
    list_all (\<lambda>(u, document). \<exists>references. schemaReferences (JObj document) u = Inr references \<and>
      set references \<subseteq> document_names g) (sg_documents g)"
proof -
  have "graph_ok \<lparr>sg_documents = [], sg_bytes = 0\<rparr>"
    by (simp add: graph_ok_def maximumAttributeDocuments_def maximumAttributeGraphSize_def)
  with load_schema_grown [OF assms [unfolded load_graph_def]] show ?thesis by (auto simp: grown_def)
qed

lemma encode_plain:
  "list_all (\<lambda>c. 32 \<le> byte c \<and> byte c < 127 \<and> byte c \<notin> {34, 38, 60, 62, 92}) s \<Longrightarrow>
     encode_string s = [CHR 0x22] @ s @ [CHR 0x22]"
proof -
  assume a: "list_all (\<lambda>c. 32 \<le> byte c \<and> byte c < 127 \<and> byte c \<notin> {34, 38, 60, 62, 92}) s"
  then have "concat (map escape_rune (rune_spans s)) = s"
    by (induction s) (simp_all add: rune_spans_ascii_Cons escape_rune_def rune_error_def)
  then show ?thesis by (simp add: encode_string_def)
qed

text \<open>A schema without references, served with every request.\<close>

definition example_schema :: obj where
  "example_schema = [(''$schema'', JStr attributeSchemaDialect)]"

definition example_schema_header :: http_header where
  "example_schema_header = [(''Content-Type'', [attributeSchemaMediaType]), (''Cache-Control'', [''no-store''])]"

definition example_schema_response :: in_response where
  "example_schema_response =
     \<lparr>in_status = 200, in_header = example_schema_header, in_length = 0, in_body = encode_json (JObj example_schema), in_failure = None\<rparr>"

definition example_schema_net :: "nat network" where
  "example_schema_net = \<lparr>net_do = (\<lambda>req n. (Inr example_schema_response, n)), net_now = (\<lambda>n. (0, n))\<rparr>"

definition example_schema_env :: "(memory_cache, nat) agent_env" where
  "example_schema_env = (example_agent_env example_schema_net)\<lparr>env_cache := None\<rparr>"

lemma example_schema_read: "read_json (encode_json (JObj example_schema)) = Decoded (JObj example_schema) EndOfInput"
proof (rule read_json_encode)
  show "plain_json (JObj example_schema)" by code_simp
qed

lemma example_schema_text:
  "encode_json (JObj example_schema) =
     ''{'' @ [CHR 0x22] @ ''$schema'' @ [CHR 0x22] @ '':'' @ [CHR 0x22] @ attributeSchemaDialect @ [CHR 0x22] @ ''}''"
proof -
  have "encode_string ''$schema'' = [CHR 0x22] @ ''$schema'' @ [CHR 0x22]"
      "encode_string attributeSchemaDialect = [CHR 0x22] @ attributeSchemaDialect @ [CHR 0x22]"
    by (rule encode_plain, code_simp)+
  then show ?thesis by (simp add: example_schema_def)
qed

lemma example_schema_length: "length (encode_json (JObj example_schema)) = 58"
  unfolding example_schema_text by (simp add: attributeSchemaDialect_def)

lemma example_schema_content:
  "su_content (attribute_schema example_client ''https://s.co/a'') example_schema_response
     = Inr (encode_json (JObj example_schema), example_schema)"
proof -
  have "ParseMediaType (header_get example_schema_header ''Content-Type'') = Some attributeSchemaMediaType" by code_simp
  moreover have "to_lower attributeSchemaMediaType = attributeSchemaMediaType" by code_simp
  moreover have "Depth (Some (JObj example_schema)) = 2" by code_simp
  ultimately show ?thesis
    by (simp add: su_content_def attribute_schema_def example_schema_response_def read_response_def
      maximumAttributeDocumentSize_def example_schema_length json_depth_of_def example_schema_read first_value_def
      maximumResourceDepth_def decodeSupportingJSON_def del: encode_json.simps)
qed

lemma example_schema_fetched:
  "supportingJSON example_schema_env example_client (attribute_schema example_client ''https://s.co/a'') ([], 0)
     = (Inr example_schema, [], 0)"
proof -
  let ?su = "attribute_schema example_client ''https://s.co/a''" and ?env = example_schema_env
  have "map_option url_string (secure_parse ''https://s.co/a'') = Some ''https://s.co/a''"
      "DeriveServiceOrigin Some ''https://s.co/a'' = Inr ''https://s.co''"
    by code_simp+
  then obtain u where u: "secure_parse (su_target ?su) = Some u" "url_string u = ''https://s.co/a''"
      "origin_of ?env ''https://s.co/a'' = Inr ''https://s.co''"
    by (auto simp: attribute_schema_def origin_of_def example_schema_env_def example_agent_env_def)
  have content: "su_content ?su example_schema_response = Inr (encode_json (JObj example_schema), example_schema)"
    by (rule example_schema_content)
  have "control example_schema_header ''no-store'' \<noteq> None" by code_simp
  then have "\<not> redirectStatus 200" "successful 200" "\<not> cacheable ''GET'' example_schema_header n" for n
    by (simp_all add: redirectStatus_def successful_def cacheable_def)
  then have status: "\<not> redirectStatus 200" "in_status example_schema_response = 200"
      "successful 200" "\<not> cacheable ''GET'' (in_header example_schema_response) (su_fallback ?su)"
    by (simp_all add: example_schema_response_def)
  obtain req where req: "NewRequest ''GET'' ''https://s.co/a'' (su_headers ?su None) None = Inr req"
  proof -
    have "list_all header_field_byte ''GET'' \<and> Parse ''https://s.co/a'' \<noteq> None" by code_simp
    then show ?thesis using that by (auto simp: NewRequest_def)
  qed
  have no_cache: "env_cache ?env = None" by (simp add: example_schema_env_def)
  have sent: "net_do (env_net ?env) req 0 = (Inr example_schema_response, 0)"
    by (simp add: example_schema_env_def example_agent_env_def example_schema_net_def)
  have "su_exchange ?env example_client ?su ''https://s.co'' None left u ([], 0) = (Inr example_schema, [], 0)" for left
    by (subst su_exchange.simps)
      (simp add: u(2) req sent status su_receive_def content cache_delete_def no_cache su_after_def)
  then show ?thesis
    by (simp add: supportingJSON_def u cachedRecord_def no_cache su_held_def su_fetch_def)
qed

theorem load_graph_closed_witness:
  "graph_ok \<lparr>sg_documents = [(''https://s.co/a'', example_schema)],
     sg_bytes = int (length (encode_json (JObj example_schema)))\<rparr>"
proof -
  let ?g = "\<lparr>sg_documents = [(''https://s.co/a'', example_schema)],
    sg_bytes = int (length (encode_json (JObj example_schema)))\<rparr>"
  have checks: "requireFragmentDynamicReferences (JObj example_schema) = Inr ()"
      "requireSupportedVocabularies (JObj example_schema) = Inr ()"
      "schemaReferences (JObj example_schema) ''https://s.co/a'' = Inr []"
    by code_simp+
  have "map_of example_schema ''$schema'' = Some (JStr attributeSchemaDialect)"
    by (simp add: example_schema_def)
  then have "admit_schema ''https://s.co/a'' example_schema \<lparr>sg_documents = [], sg_bytes = 0\<rparr> = Inr (?g, [])"
    by (simp add: admit_schema_def checks example_schema_length maximumAttributeGraphSize_def del: encode_json.simps)
  then have "load_graph example_schema_env example_client ''https://s.co/a'' ([], 0) = (Inr ?g, [], 0)"
    by (simp add: load_graph_def maximumAttributeDocuments_def then_do_def example_schema_fetched)
  from load_graph_closed [OF this] show ?thesis by simp
qed

subsection \<open>What the bundle keeps\<close>

lemma fresh_key_present:
  "map_of d (fresh_key n d key) \<noteq> None \<Longrightarrow> i < n \<Longrightarrow> map_of d (key @ replicate i CHR ''_'') \<noteq> None"
proof (induction n d key arbitrary: i rule: fresh_key.induct)
  case (2 n d key)
  then show ?case
    by (cases i) (auto split: if_splits simp: replicate_append_same [symmetric] simp del: replicate_append_same)
qed simp

lemma fresh_key_fresh: "length d < n \<Longrightarrow> map_of d (fresh_key n d key) = None"
proof (rule ccontr)
  assume "length d < n" and "map_of d (fresh_key n d key) \<noteq> None"
  from fresh_key_present [OF this(2)] have "(\<lambda>i. key @ replicate i CHR ''_'') ` {..<n} \<subseteq> fst ` set d"
    by (fastforce simp: map_of_eq_None_iff)
  then have "card ((\<lambda>i. key @ replicate i CHR ''_'') ` {..<n}) \<le> card (fst ` set d)"
    by (intro card_mono) simp_all
  moreover have "inj_on (\<lambda>i. key @ replicate i CHR ''_'') {..<n}" by (auto intro!: inj_onI dest: arg_cong [of _ _ length])
  ultimately have "n \<le> card (fst ` set d)" by (simp add: card_image)
  also have "\<dots> \<le> length d" using card_length [of "map fst d"] by simp
  finally show False using \<open>length d < n\<close> by simp
qed

text \<open>The entries of the bundle: those it started with and one for each external document.\<close>

lemma add_external_entries:
  "(map_of d k = Some v \<longrightarrow> map_of (add_external documents e d) k = Some v) \<and>
   (\<exists>key. map_of (add_external documents e d) key = Some (JObj (with_id (snd e)
      (cloneMap (case map_of documents (snd e) of Some document \<Rightarrow> document | None \<Rightarrow> [])))))"
  using fresh_key_fresh [of d "Suc (length d)" "''odp_external_'' @ nat_digits (fst e)"]
  by (cases e) (auto simp: add_external_def)

lemma add_externals_entries:
  "(map_of d k = Some v \<longrightarrow> map_of (fold (add_external documents) es d) k = Some v) \<and>
   (e \<in> set es \<longrightarrow> (\<exists>key. map_of (fold (add_external documents) es d) key = Some (JObj (with_id (snd e)
      (cloneMap (case map_of documents (snd e) of Some document \<Rightarrow> document | None \<Rightarrow> []))))))"
proof (induction es arbitrary: d k v)
  case (Cons e' es)
  note here = add_external_entries [of d _ _ documents e']
  show ?case
  proof (intro conjI impI)
    assume "map_of d k = Some v"
    then show "map_of (fold (add_external documents) (e' # es) d) k = Some v" using here Cons by simp
  next
    assume "e \<in> set (e' # es)"
    then show "\<exists>key. map_of (fold (add_external documents) (e' # es) d) key = Some (JObj (with_id (snd e)
        (cloneMap (case map_of documents (snd e) of Some document \<Rightarrow> document | None \<Rightarrow> []))))"
      using here Cons by fastforce
  qed
qed simp

text \<open>C29: the search for a free key ends, so that the bundle keeps every definition of the root document and has
  each other document of the graph among its definitions, under a key of its own and with its URL for an
  identifier where it has none.\<close>

theorem schema_bundle_complete:
  fixes rootURL and documents
  defines "root \<equiv> with_id rootURL (cloneMap (case map_of documents rootURL of Some d \<Rightarrow> d | None \<Rightarrow> []))"
    and "defs \<equiv> (case get_obj (schema_bundle rootURL documents) ''$defs'' of Some d \<Rightarrow> d | None \<Rightarrow> [])"
  shows "(\<forall>d v. get_obj root ''$defs'' = Some d \<and> map_of d k = Some v \<longrightarrow> map_of defs k = Some v) \<and>
    (u \<noteq> rootURL \<and> map_of documents u = Some document \<longrightarrow>
       (\<exists>key. map_of defs key = Some (JObj (with_id u (cloneMap document)))))"
proof (intro conjI allI impI)
  let ?external = "sort (filter (\<lambda>u. u \<noteq> rootURL) (map fst documents))"
  let ?own = "case get_obj root ''$defs'' of Some d \<Rightarrow> d | None \<Rightarrow> []"
  have made: "schema_bundle rootURL documents =
      (if ?external = [] then root
       else AList.update ''$defs'' (JObj (fold (add_external documents) (enumerate 0 ?external) ?own)) root)"
    by (simp add: schema_bundle_def Let_def flip: root_def)
  have defs: "defs = (if ?external = [] then ?own else fold (add_external documents) (enumerate 0 ?external) ?own)"
    unfolding defs_def made by (simp add: obj_simps)
  {
    fix d v
    assume "get_obj root ''$defs'' = Some d \<and> map_of d k = Some v"
    then show "map_of defs k = Some v" unfolding defs by (simp add: add_externals_entries)
  next
    assume u: "u \<noteq> rootURL \<and> map_of documents u = Some document"
    then have "u \<in> set ?external" by (auto simp: rev_image_eqI dest: map_of_SomeD)
    then obtain i where "(i, u) \<in> set (enumerate 0 ?external)"
    proof -
      from \<open>u \<in> set ?external\<close> obtain i where "i < length ?external" "?external ! i = u"
        unfolding in_set_conv_nth by blast
      then show ?thesis using that [of i] by (simp only: in_set_enumerate_eq) simp
    qed
    with \<open>u \<in> set ?external\<close> u show "\<exists>key. map_of defs key = Some (JObj (with_id u (cloneMap document)))"
      using add_externals_entries [of ?own _ _ documents "enumerate 0 ?external" "(i, u)"] unfolding defs
      by (auto split: if_splits)
  }
qed

theorem schema_bundle_complete_witness:
  "\<exists>defs key. get_obj (schema_bundle ''a'' [(''a'', []), (''b'', [])]) ''$defs'' = Some defs \<and>
     map_of defs key = Some (JObj (with_id ''b'' (cloneMap [])))"
proof -
  obtain key where "map_of (case get_obj (schema_bundle ''a'' [(''a'', []), (''b'', [])]) ''$defs'' of Some d \<Rightarrow> d | None \<Rightarrow> [])
      key = Some (JObj (with_id ''b'' (cloneMap [])))"
    using schema_bundle_complete [of "''a''" "[(''a'', []), (''b'', [])]" "[]" "''b''" "[]"] by auto
  then show ?thesis by (cases "get_obj (schema_bundle ''a'' [(''a'', []), (''b'', [])]) ''$defs''") auto
qed

end
