(* ===== verification/AgentOfferings.thy ===== *)
theory AgentOfferings
  imports AgentSchemas AgentCapabilities
begin

section \<open>Offering details and Actions\<close>

text \<open>
  \<open>agent/offerings.go\<close> and \<open>agent/openapi.go\<close>.  \<open>de_openapi\<close> is \<open>pb33f/libopenapi\<close>: \<open>NewDocument\<close>, which may
  fail, and whether \<open>BuildV3Model\<close> finds the document valid.
\<close>

record offering_issue =
  oi_action :: string
  oi_message :: issue_text
  oi_scope :: string

record http_action =
  ha_method :: string
  ha_request :: "gval option"
  ha_types :: "string list"
  ha_url :: string

record openapi_action =
  oa_operation :: string
  oa_url :: string

record discovered_action =
  da_authentication :: string
  da_description :: string
  da_http :: "http_action option"
  da_id :: string
  da_openapi :: "openapi_action option"
  da_rel :: string

record offering_details =
  od_offering :: gval
  od_actions :: "discovered_action list"
  od_schema :: "obj option"
  od_issues :: "offering_issue list"

record resolved_action =
  ra_action :: discovered_action
  ra_document :: "obj option"
  ra_operation :: "obj option"
  ra_schema :: "obj option"

subsection \<open>Targets\<close>

definition resolveHTTPReference :: "string \<Rightarrow> string \<Rightarrow> agent_error + string" where
  "resolveHTTPReference reference base =
     (case Parse base of
        None \<Rightarrow> Inl InvalidURL
      | Some baseURL \<Rightarrow>
          (case Parse reference of
             None \<Rightarrow> Inl (Message ''ODP Action target must use HTTP or HTTPS'')
           | Some ref \<Rightarrow>
               (let address = ResolveReference baseURL ref in
                if scheme address \<noteq> ''https'' \<and> scheme address \<noteq> ''http'' \<or> host address = [] then
                  Inl (Message ''ODP Action target must use HTTP or HTTPS'')
                else Inr (url_string address))))"

text \<open>The text is parsed again, its error ignored.\<close>

definition resolveHTTPSReference :: "string \<Rightarrow> string \<Rightarrow> agent_error + string" where
  "resolveHTTPSReference reference base =
     bind_res (resolveHTTPReference reference base) (\<lambda>address.
       if map_option scheme (Parse address) \<noteq> Some ''https'' then
         Inl (Message ''ODP supporting document URL must use HTTPS'')
       else Inr address)"

subsection \<open>Actions\<close>

definition action_id :: "gval \<Rightarrow> string" where "action_id action = str_field action ''ID''"

text \<open>An action whose identifier is its own: what is exposed of it, or why it is not.\<close>

definition discover :: "string \<Rightarrow> string \<Rightarrow> gval \<Rightarrow> issue_text + discovered_action" where
  "discover serviceOrigin serviceOpenAPIURL action =
     (let discovered = \<lparr>da_authentication = str_field action ''Authentication'',
            da_description = str_field action ''Description'', da_http = None, da_id = action_id action,
            da_openapi = None, da_rel = str_field action ''Rel''\<rparr> in
      case (ptr_field action ''HTTP'', ptr_field action ''OpenAPI'') of
        (Some http, _) \<Rightarrow>
          (case resolveHTTPReference (str_field http ''Href'') serviceOrigin of
             Inl err \<Rightarrow> Inl (ErrorText err)
           | Inr address \<Rightarrow>
               Inr (discovered\<lparr>da_http := Some \<lparr>ha_method = str_field http ''Method'',
                 ha_request = ptr_field http ''Request'', ha_types = strs_field http ''ResponseContentTypes'',
                 ha_url = address\<rparr>\<rparr>))
      | (None, Some openapi) \<Rightarrow>
          (let openAPIURL = (if str_field openapi ''URL'' = [] then serviceOpenAPIURL else str_field openapi ''URL'') in
           if openAPIURL = [] then Inl (IssueText ''OpenAPI Action has no OpenAPI document URL'')
           else
             (case resolveHTTPSReference openAPIURL serviceOrigin of
                Inl err \<Rightarrow> Inl (ErrorText err)
              | Inr address \<Rightarrow>
                  Inr (discovered\<lparr>da_openapi := Some \<lparr>oa_operation = str_field openapi ''OperationID'',
                    oa_url = address\<rparr>\<rparr>)))
      | (None, None) \<Rightarrow> Inl (IssueText ''Action has neither an HTTP nor an OpenAPI target''))"

definition action_issue :: "string \<Rightarrow> issue_text \<Rightarrow> offering_issue" where
  "action_issue ident text = \<lparr>oi_action = ident, oi_message = text, oi_scope = ''action''\<rparr>"

text \<open>The loop; \<open>counts\<close> says how often an identifier occurs.\<close>

fun actions_loop ::
  "(gval \<Rightarrow> issue_text + discovered_action) \<Rightarrow> (string \<Rightarrow> nat) \<Rightarrow> string list \<Rightarrow> gval list \<Rightarrow>
   discovered_action list \<times> offering_issue list \<Rightarrow> discovered_action list \<times> offering_issue list" where
  "actions_loop f counts reported [] st = st"
| "actions_loop f counts reported (action # actions) (result, issues) =
     (let ident = action_id action in
      if counts ident > 1 then
        (if ident \<in> set reported then actions_loop f counts reported actions (result, issues)
         else
           actions_loop f counts (ident # reported) actions
             (result, issues @ [action_issue ident (IssueText (''Duplicate Action identifier '' @ ident))]))
      else
        (case f action of
           Inl text \<Rightarrow> actions_loop f counts reported actions (result, issues @ [action_issue ident text])
         | Inr discovered \<Rightarrow> actions_loop f counts reported actions (result @ [discovered], issues)))"

definition normalizeActions ::
  "gval list \<Rightarrow> string \<Rightarrow> string \<Rightarrow> discovered_action list \<times> offering_issue list" where
  "normalizeActions actions serviceOrigin serviceOpenAPIURL =
     actions_loop (discover serviceOrigin serviceOpenAPIURL) (count_list (map action_id actions)) [] actions ([], [])"

subsection \<open>Details\<close>

definition with_issue :: "string \<Rightarrow> issue_text \<Rightarrow> offering_details \<Rightarrow> offering_details" where
  "with_issue scope text details =
     details\<lparr>od_offering := set_field ''Attributes'' (GMap None) (od_offering details),
       od_issues := od_issues details @ [\<lparr>oi_action = [], oi_message = text, oi_scope = scope\<rparr>]\<rparr>"

definition checked_attributes :: "(json \<Rightarrow> bool) \<Rightarrow> offering_details \<Rightarrow> offering_details" where
  "checked_attributes validator details =
     (case field_of (od_offering details) ''Attributes'' of
        GMap (Some attributes) \<Rightarrow>
          if \<not> numbers_in_range (JObj attributes) \<or> \<not> validator (as_any (JObj attributes)) then
            with_issue ''attributes'' (IssueText ''Offering attributes do not match their Attribute Schema'') details
          else details
      | _ \<Rightarrow> details)"

definition GetOfferingDetails ::
  "('c, 'w) details_env \<Rightarrow> service_client \<Rightarrow> string \<Rightarrow> ('c, 'w) agent_state \<Rightarrow>
   (agent_error + offering_details) \<times> ('c, 'w) agent_state" where
  "GetOfferingDetails env client ident s =
     then_do (get_offering (de_agent env) client ident ''full'' s) (\<lambda>(offering, insp) s.
       let serviceOpenAPIURL =
             (case ptr_field (field_of (ins_document insp) ''HTTP'') ''OpenAPI'' of
                Some openapi \<Rightarrow> str_field openapi ''URL'' | None \<Rightarrow> []);
           (actions, issues) = normalizeActions (list_field offering ''Actions'') (sc_origin client) serviceOpenAPIURL;
           details = \<lparr>od_offering = offering, od_actions = actions, od_schema = None, od_issues = issues\<rparr> in
       case ptr_field offering ''Schema'' of
         None \<Rightarrow> (Inr details, s)
       | Some schema \<Rightarrow>
           (case resolveHTTPSReference (str_field schema ''URL'') (sc_origin client) of
              Inl err \<Rightarrow> (Inr (with_issue ''attribute_schema'' (ErrorText err) details), s)
            | Inr reference \<Rightarrow>
                (case resolveSchema env client reference s of
                   (Inl err, s) \<Rightarrow> (Inr (with_issue ''attribute_schema'' (ErrorText err) details), s)
                 | (Inr (schema, validator), s) \<Rightarrow>
                     (Inr (checked_attributes validator (details\<lparr>od_schema := Some schema\<rparr>)), s))))"

subsection \<open>OpenAPI\<close>

definition maximumOpenAPIBytes :: int where "maximumOpenAPIBytes = 1048576"
definition maximumOpenAPIDepth :: nat where "maximumOpenAPIDepth = 32"

text \<open>\<open>^3\.1\.\d+(?:[-+].*)?$\<close>, where \<open>.\<close> is not a line feed.\<close>

definition openAPIVersion :: "string \<Rightarrow> bool" where
  "openAPIVersion v \<longleftrightarrow>
     has_prefix v ''3.1.'' \<and>
     (let digits = takeWhile is_digit (drop 4 v); rest = drop (length digits) (drop 4 v) in
      digits \<noteq> [] \<and> (rest = [] \<or> (hd rest = CHR ''-'' \<or> hd rest = CHR ''+'') \<and> CHR 0x0A \<notin> set (tl rest)))"

definition openapi_methods :: "string list" where
  "openapi_methods = [''delete'', ''get'', ''head'', ''options'', ''patch'', ''post'', ''put'', ''trace'']"

definition path_operations :: "string \<Rightarrow> json \<Rightarrow> obj list" where
  "path_operations operationID rawPath =
     (case rawPath of
        JObj item \<Rightarrow>
          concat (map (\<lambda>verb. case get_obj item verb of
              Some operation \<Rightarrow> if map_of operation ''operationId'' = Some (JStr operationID) then [operation] else []
            | None \<Rightarrow> []) openapi_methods)
      | _ \<Rightarrow> [])"

definition openapi_document :: "string \<Rightarrow> supporting" where
  "openapi_document address =
     \<lparr>su_target = address, su_class = ''openapi'',
      su_accept = ''application/vnd.oai.openapi+json;version=3.1, application/json;q=0.9'',
      su_types = [''application/vnd.oai.openapi+json'', ''application/json''], su_bytes = maximumOpenAPIBytes,
      su_depth = maximumOpenAPIDepth, su_fallback = 0\<rparr>"

definition find_operation :: "('c, 'w) details_env \<Rightarrow> obj \<Rightarrow> string \<Rightarrow> agent_error + obj \<times> obj" where
  "find_operation env document operationID =
     (if (case get_str document ''openapi'' of Some version \<Rightarrow> \<not> openAPIVersion version | None \<Rightarrow> True) then
        Inl (Message ''ODP Action requires an OpenAPI 3.1 document'')
      else
        (case de_openapi env document of
           Inl err \<Rightarrow> Inl (Message err)
         | Inr False \<Rightarrow> Inl (Message ''ODP Action OpenAPI document is invalid'')
         | Inr True \<Rightarrow>
             (case get_obj document ''paths'' of
                None \<Rightarrow> Inl (Message ''ODP OpenAPI document must contain paths'')
              | Some paths \<Rightarrow>
                  (case concat (map (\<lambda>m. path_operations operationID (snd m)) paths) of
                     [operation] \<Rightarrow> Inr (cloneMap document, cloneMap operation)
                   | _ \<Rightarrow> Inl (Message (''ODP Action operation_id '' @ operationID @ '' must resolve exactly once''))))))"

definition resolveOpenAPI ::
  "('c, 'w) details_env \<Rightarrow> service_client \<Rightarrow> string \<Rightarrow> string \<Rightarrow> ('c, 'w) agent_state \<Rightarrow>
   (agent_error + obj \<times> obj) \<times> ('c, 'w) agent_state" where
  "resolveOpenAPI env client address operationID s =
     then_do (supportingJSON (supporting_env env) client (openapi_document address) s) (\<lambda>document s.
       (find_operation env document operationID, s))"

subsection \<open>\<open>ResolveAction\<close>\<close>

definition resolve_target ::
  "('c, 'w) details_env \<Rightarrow> service_client \<Rightarrow> discovered_action \<Rightarrow> ('c, 'w) agent_state \<Rightarrow>
   (agent_error + resolved_action) \<times> ('c, 'w) agent_state" where
  "resolve_target env client action s =
     (let result = \<lparr>ra_action = action, ra_document = None, ra_operation = None, ra_schema = None\<rparr> in
      case (da_http action, da_openapi action) of
        (Some http, _) \<Rightarrow>
          (case Option.bind (ha_request http) (\<lambda>request. ptr_field request ''Schema'') of
             None \<Rightarrow> (Inr result, s)
           | Some schema \<Rightarrow>
               (case resolveHTTPSReference (str_field schema ''URL'') (sc_origin client) of
                  Inl err \<Rightarrow> (Inl err, s)
                | Inr reference \<Rightarrow>
                    then_do (resolveSchema env client reference s) (\<lambda>(schema, _) s.
                      (Inr (result\<lparr>ra_schema := Some schema\<rparr>), s))))
      | (None, None) \<Rightarrow> (Inl (Message ''ODP Action has no usable target''), s)
      | (None, Some openapi) \<Rightarrow>
          then_do (resolveOpenAPI env client (oa_url openapi) (oa_operation openapi) s) (\<lambda>(document, operation) s.
            (Inr (result\<lparr>ra_document := Some document, ra_operation := Some operation\<rparr>), s)))"

definition ResolveAction ::
  "('c, 'w) details_env \<Rightarrow> service_client \<Rightarrow> string \<Rightarrow> string \<Rightarrow> ('c, 'w) agent_state \<Rightarrow>
   (agent_error + resolved_action) \<times> ('c, 'w) agent_state" where
  "ResolveAction env client offeringID actionID s =
     then_do (GetOfferingDetails env client offeringID s) (\<lambda>details s.
       case find (\<lambda>action. da_id action = actionID) (od_actions details) of
         None \<Rightarrow> (Inl (Message (''ODP Offering does not expose usable Action '' @ actionID)), s)
       | Some action \<Rightarrow> resolve_target env client action s)"

subsection \<open>Which Actions are exposed\<close>

lemma distinct_filter_once:
  assumes "\<And>y. count_list (map f xs) y \<le> count_list ys y"
  shows "distinct (map f (filter (\<lambda>x. count_list ys (f x) = 1) xs))"
  using assms
proof (induction xs)
  case (Cons x xs)
  have "count_list (map f xs) y \<le> count_list ys y" for y
    using Cons.prems [of y] by (simp split: if_splits)
  moreover have "f x \<notin> set (map f xs)" if "count_list ys (f x) = 1"
    using Cons.prems [of "f x"] that by (simp add: count_list_0_iff flip: length_map)
  ultimately show ?case using Cons.IH by auto
qed simp

definition usable :: "(gval \<Rightarrow> issue_text + discovered_action) \<Rightarrow> gval list \<Rightarrow> discovered_action list" where
  "usable f actions = concat (map (\<lambda>a. case f a of Inr discovered \<Rightarrow> [discovered] | Inl _ \<Rightarrow> []) actions)"

lemma usable_simps [simp]:
  "usable f [] = []"
  "usable f (a # as) = (case f a of Inr discovered \<Rightarrow> discovered # usable f as | Inl _ \<Rightarrow> usable f as)"
  by (simp_all add: usable_def split: sum.split)

lemma actions_loop_result:
  "fst (actions_loop f counts reported actions (result, issues)) =
     result @ usable f (filter (\<lambda>a. counts (action_id a) \<le> 1) actions)"
  by (induction f counts reported actions "(result, issues)" arbitrary: result issues rule: actions_loop.induct)
    (auto simp: Let_def split: sum.split)

lemma actions_loop_issues:
  "oi_action ` set (snd (actions_loop f counts reported actions (result, issues))) =
     oi_action ` set issues \<union>
     {action_id a |a. a \<in> set actions \<and> counts (action_id a) > 1 \<and> action_id a \<notin> set reported} \<union>
     {action_id a |a. a \<in> set actions \<and> counts (action_id a) \<le> 1 \<and> (\<exists>text. f a = Inl text)}"
proof (induction f counts reported actions "(result, issues)" arbitrary: result issues rule: actions_loop.induct)
  case (2 f counts reported action actions result issues)
  show ?case
  proof (cases "counts (action_id action) > 1")
    case True
    then show ?thesis
      using 2(1) [OF refl True] 2(2) [OF refl True] by (auto simp: Let_def action_issue_def)
  next
    case False
    then show ?thesis
      using 2(3,4) [OF refl False] by (cases "f action") (auto simp: Let_def action_issue_def)
  qed
qed simp

definition web_url :: "string \<Rightarrow> string list \<Rightarrow> bool" where
  "web_url address schemes \<longleftrightarrow> (\<exists>u. scheme u \<in> set schemes \<and> host u \<noteq> [] \<and> address = url_string u)"

definition well_targeted :: "discovered_action \<Rightarrow> bool" where
  "well_targeted action \<longleftrightarrow>
     (case (da_http action, da_openapi action) of
        (Some http, None) \<Rightarrow> web_url (ha_url http) [''https'', ''http'']
      | (None, Some openapi) \<Rightarrow>
          web_url (oa_url openapi) [''https'', ''http''] \<and> map_option scheme (Parse (oa_url openapi)) = Some ''https''
      | _ \<Rightarrow> False)"

lemma resolveHTTPReference_web:
  "resolveHTTPReference reference base = Inr address \<Longrightarrow> web_url address [''https'', ''http'']"
  by (auto simp: resolveHTTPReference_def web_url_def Let_def split: option.splits if_splits)

lemma resolveHTTPSReference_web:
  "resolveHTTPSReference reference base = Inr address \<Longrightarrow>
     web_url address [''https'', ''http''] \<and> map_option scheme (Parse address) = Some ''https''"
  by (auto simp: resolveHTTPSReference_def res_simps dest: resolveHTTPReference_web split: if_splits)

lemma discover_Inr:
  assumes "discover serviceOrigin serviceOpenAPIURL action = Inr discovered"
  shows "da_id discovered = action_id action \<and> well_targeted discovered"
  using assms
  by (auto simp: discover_def Let_def well_targeted_def dest!: resolveHTTPReference_web resolveHTTPSReference_web
      split: option.splits sum.splits if_splits)

lemma usable_set: "d \<in> set (usable f actions) \<longleftrightarrow> (\<exists>a\<in>set actions. f a = Inr d)"
  by (induction actions) (auto split: sum.split)

lemma usable_ids:
  assumes "\<And>a d. f a = Inr d \<Longrightarrow> da_id d = action_id a" and "distinct (map action_id actions)"
  shows "distinct (map da_id (usable f actions))"
  using assms(2)
proof (induction actions)
  case (Cons a actions)
  then show ?case using assms(1) by (cases "f a") (fastforce simp: usable_set)+
qed simp

text \<open>C30: an Agent exposes, in their order, the Actions whose identifier no other Action has and whose target it can
  resolve; they have distinct identifiers and absolute HTTP or HTTPS targets, an OpenAPI document only over
  HTTPS; and each identifier of an Offering is either exposed or reported, never both.\<close>

theorem normalizeActions_exposes:
  fixes actions and serviceOrigin and serviceOpenAPIURL
  defines "ids \<equiv> map action_id actions"
    and "result \<equiv> fst (normalizeActions actions serviceOrigin serviceOpenAPIURL)"
    and "issues \<equiv> snd (normalizeActions actions serviceOrigin serviceOpenAPIURL)"
  shows "result = usable (discover serviceOrigin serviceOpenAPIURL)
      (filter (\<lambda>a. count_list ids (action_id a) = 1) actions) \<and>
    distinct (map da_id result) \<and> list_all well_targeted result \<and>
    set (map da_id result) \<union> set (map oi_action issues) = set ids \<and>
    set (map da_id result) \<inter> set (map oi_action issues) = {}"
proof -
  let ?f = "discover serviceOrigin serviceOpenAPIURL"
  let ?once = "filter (\<lambda>a. count_list ids (action_id a) = 1) actions"
  have once: "count_list ids (action_id a) \<le> 1 \<longleftrightarrow> count_list ids (action_id a) = 1" if "a \<in> set actions" for a
  proof -
    have "count_list ids (action_id a) \<noteq> 0" using that by (auto simp: ids_def count_list_0_iff)
    then show ?thesis by linarith
  qed
  then have "filter (\<lambda>a. count_list ids (action_id a) \<le> 1) actions = ?once" by (intro filter_cong) auto
  then have result: "result = usable ?f ?once"
    by (simp add: result_def normalizeActions_def actions_loop_result flip: ids_def)
  have issues: "set (map oi_action issues) =
      {action_id a |a. a \<in> set actions \<and> count_list ids (action_id a) > 1} \<union>
      {action_id a |a. a \<in> set ?once \<and> (\<exists>text. ?f a = Inl text)}"
    using once by (auto simp: issues_def normalizeActions_def actions_loop_issues simp flip: ids_def)
  have distinct: "distinct (map action_id ?once)"
    unfolding ids_def by (rule distinct_filter_once) simp
  have ids: "set (map da_id result) = {action_id a |a. a \<in> set ?once \<and> (\<exists>d. ?f a = Inr d)}"
  proof -
    have "set (map da_id (usable ?f as)) = {action_id a |a. a \<in> set as \<and> (\<exists>d. ?f a = Inr d)}" for as
      by (induction as) (auto dest: discover_Inr split: sum.split)
    then show ?thesis unfolding result .
  qed
  have "set (map da_id result) \<union> set (map oi_action issues) = set ids"
  proof -
    have "(\<exists>text. ?f a = Inl text) \<or> (\<exists>d. ?f a = Inr d)" for a by (cases "?f a") auto
    then show ?thesis unfolding ids issues using once by (fastforce simp: ids_def not_le [symmetric])
  qed
  moreover have "set (map da_id result) \<inter> set (map oi_action issues) = {}"
  proof -
    have "a = b" if "a \<in> set ?once" "b \<in> set ?once" "action_id a = action_id b" for a b
      using distinct that by (simp only: distinct_map inj_on_def)
    then show ?thesis unfolding ids issues by fastforce
  qed
  moreover have "distinct (map da_id result)"
    unfolding result by (rule usable_ids [OF _ distinct]) (simp add: discover_Inr)
  moreover have "list_all well_targeted result"
    unfolding result by (auto simp: list_all_iff usable_set dest: discover_Inr)
  ultimately show ?thesis using result by blast
qed

end
