(* ===== verification/AgentNetwork.thy ===== *)
theory AgentNetwork
  imports GoUrl
begin

section \<open>Where an Agent connects\<close>

text \<open>
  \<open>agent/network.go\<close>: the dialer of the default client and the addresses it takes for public, with what it
  uses of \<open>net\<close> and \<open>net/netip\<close>.  An address is its bytes, each an \<open>8 word\<close>, and the zone of an IPv6 one.
  The resolver is the parameter \<open>lookup\<close>; what is dialled is the first address it gave.
\<close>

unbundle bit_operations_syntax

subsection \<open>\<open>netip.Addr\<close>\<close>

definition Unmap :: "addr \<Rightarrow> addr" where
  "Unmap a =
     (case a of V6 b zone \<Rightarrow> if take 12 b = v4_mapped then V4 (drop 12 b) else a | V4 b \<Rightarrow> a)"

definition addr_loopback :: "addr \<Rightarrow> bool" where
  "addr_loopback a =
     (case Unmap a of V4 b \<Rightarrow> b ! 0 = 127 | V6 b zone \<Rightarrow> b = replicate 15 0 @ [1])"

definition addr_multicast :: "addr \<Rightarrow> bool" where
  "addr_multicast a = (case Unmap a of V4 b \<Rightarrow> b ! 0 AND 0xF0 = 0xE0 | V6 b zone \<Rightarrow> b ! 0 = 0xFF)"

definition addr_link_local :: "addr \<Rightarrow> bool" where
  "addr_link_local a =
     (case Unmap a of
        V4 b \<Rightarrow> b ! 0 = 169 \<and> b ! 1 = 254
      | V6 b zone \<Rightarrow> b ! 0 = 0xFE \<and> b ! 1 AND 0xC0 = 0x80)"

definition addr_private :: "addr \<Rightarrow> bool" where
  "addr_private a =
     (case Unmap a of
        V4 b \<Rightarrow> b ! 0 = 10 \<or> b ! 0 = 172 \<and> b ! 1 AND 0xF0 = 16 \<or> b ! 0 = 192 \<and> b ! 1 = 168
      | V6 b zone \<Rightarrow> b ! 0 AND 0xFE = 0xFC)"

definition addr_global_unicast :: "addr \<Rightarrow> bool" where
  "addr_global_unicast a \<longleftrightarrow>
     a \<noteq> V4 [0, 0, 0, 0] \<and> a \<noteq> V4 [255, 255, 255, 255] \<and> a \<noteq> V6 (replicate 16 0) [] \<and>
     \<not> addr_loopback a \<and> \<not> addr_multicast a \<and> \<not> addr_link_local a"

text \<open>A prefix is the bytes of its address and a number of bits; it contains no address with a zone and none of
  the other family.\<close>

type_synonym ip_prefix = "8 word list \<times> nat"

definition same_bits :: "nat \<Rightarrow> 8 word list \<Rightarrow> 8 word list \<Rightarrow> bool" where
  "same_bits bits b c \<longleftrightarrow>
     take (bits div 8) b = take (bits div 8) c \<and>
     (bits mod 8 = 0 \<or>
      drop_bit (8 - bits mod 8) (b ! (bits div 8)) = drop_bit (8 - bits mod 8) (c ! (bits div 8)))"

definition prefix_contains :: "ip_prefix \<Rightarrow> addr \<Rightarrow> bool" where
  "prefix_contains p a =
     (case p of (c, bits) \<Rightarrow>
        (case a of
           V4 b \<Rightarrow> length c = 4 \<and> same_bits bits b c
         | V6 b zone \<Rightarrow> zone = [] \<and> length c = 16 \<and> same_bits bits b c))"

subsection \<open>Public addresses\<close>

definition v6_prefix :: "8 word list \<Rightarrow> nat \<Rightarrow> ip_prefix" where
  "v6_prefix b bits = (b @ replicate (16 - length b) 0, bits)"

definition nonPublicPrefixes :: "ip_prefix list" where
  "nonPublicPrefixes =
     [([0, 0, 0, 0], 8), ([100, 64, 0, 0], 10), ([192, 0, 0, 0], 24), ([192, 0, 2, 0], 24),
      ([192, 31, 196, 0], 24), ([192, 88, 99, 0], 24), ([192, 175, 48, 0], 24), ([198, 18, 0, 0], 15),
      ([198, 51, 100, 0], 24), ([203, 0, 113, 0], 24), ([240, 0, 0, 0], 4),
      v6_prefix [] 96, v6_prefix [0x00, 0x64, 0xFF, 0x9B] 96, v6_prefix [0x00, 0x64, 0xFF, 0x9B, 0x00, 0x01] 48,
      v6_prefix [0x01, 0x00] 64, v6_prefix [0x20, 0x01] 32, v6_prefix [0x20, 0x01, 0x00, 0x02] 48,
      v6_prefix [0x20, 0x01, 0x00, 0x03] 32, v6_prefix [0x20, 0x01, 0x00, 0x04, 0x01, 0x12] 48,
      v6_prefix [0x20, 0x01, 0x00, 0x10] 28, v6_prefix [0x20, 0x01, 0x00, 0x20] 28,
      v6_prefix [0x20, 0x01, 0x00, 0x30] 28, v6_prefix [0x20, 0x01, 0x0D, 0xB8] 32, v6_prefix [0x20, 0x02] 16,
      v6_prefix [0x26, 0x20, 0x00, 0x4F, 0x80, 0x00] 48, v6_prefix [0x5F, 0x00] 16, v6_prefix [0xFE, 0xC0] 10]"

definition isPublicAddress :: "addr \<Rightarrow> bool" where
  "isPublicAddress address =
     (let a = Unmap address in
      if \<not> addr_global_unicast a \<or> addr_private a \<or> addr_loopback a \<or> addr_link_local a then False
      else \<not> list_ex (\<lambda>p. prefix_contains p a) nonPublicPrefixes)"

definition isLocalDevelopmentHost :: "string \<Rightarrow> bool" where
  "isLocalDevelopmentHost h \<longleftrightarrow> equal_fold h ''localhost'' \<or> h = ''127.0.0.1'' \<or> h = ''::1''"

subsection \<open>The dialer\<close>

definition index_of_char :: "char \<Rightarrow> string \<Rightarrow> nat option" where
  "index_of_char c s = (if c \<in> set s then Some (length (takeWhile (\<lambda>x. x \<noteq> c) s)) else None)"

text \<open>\<open>net.SplitHostPort\<close>; \<open>None\<close> is its error.\<close>

definition SplitHostPort :: "string \<Rightarrow> (string \<times> string) option" where
  "SplitHostPort s =
     (case last_index CHR '':'' s of
        None \<Rightarrow> None
      | Some i \<Rightarrow>
          if hd s = CHR ''['' then
            (case index_of_char CHR '']'' s of
               None \<Rightarrow> None
             | Some stop \<Rightarrow>
                 if Suc stop \<noteq> i \<or> CHR ''['' \<in> set (drop 1 s) \<or> CHR '']'' \<in> set (drop (Suc stop) s) then None
                 else Some (take (stop - 1) (drop 1 s), drop (Suc i) s))
          else if CHR '':'' \<in> set (take i s) \<or> CHR ''['' \<in> set s \<or> CHR '']'' \<in> set s then None
          else Some (take i s, drop (Suc i) s))"

datatype dial_error = BadAddress | LookupFailed string | NotResolved | OutsideLoopback | NotPublic

fun check_addresses :: "bool \<Rightarrow> addr list \<Rightarrow> dial_error + unit" where
  "check_addresses loopback_only [] = Inr ()"
| "check_addresses loopback_only (candidate # rest) =
     (if loopback_only then
        (if \<not> addr_loopback candidate then Inl OutsideLoopback else check_addresses loopback_only rest)
      else if \<not> isPublicAddress candidate then Inl NotPublic
      else check_addresses loopback_only rest)"

definition secure_dial ::
  "bool \<Rightarrow> (string \<Rightarrow> string + addr list) \<Rightarrow> string \<Rightarrow> dial_error + addr \<times> string" where
  "secure_dial allowLocalNetwork lookup address =
     (case SplitHostPort address of
        None \<Rightarrow> Inl BadAddress
      | Some (h, port) \<Rightarrow>
          (case lookup h of
             Inl err \<Rightarrow> Inl (LookupFailed err)
           | Inr addresses \<Rightarrow>
               if addresses = [] then Inl NotResolved
               else
                 (case check_addresses (isLocalDevelopmentHost h \<and> allowLocalNetwork) addresses of
                    Inl err \<Rightarrow> Inl err
                  | Inr _ \<Rightarrow> Inr (hd addresses, port))))"

subsection \<open>Bytes as numbers\<close>

lemma high_bits: "drop_bit n (b :: 8 word) = drop_bit n c \<longleftrightarrow> unat b div 2 ^ n = unat c div 2 ^ n"
  by (metis unat_drop_bit_eq drop_bit_eq_div word_unat_eq_iff)

lemma byte_below: "unat (b :: 8 word) < 256"
  using unsigned_less [of b] by simp

lemma masked_byte:
  "b AND 0xF0 = 0xE0 \<longleftrightarrow> unat b div 16 = 14" "b AND 0xF0 = 16 \<longleftrightarrow> unat b div 16 = 1"
  "b AND 0xC0 = 0x80 \<longleftrightarrow> unat b div 64 = 2" "b AND 0xFE = 0xFC \<longleftrightarrow> unat b div 2 = 126"
  for b :: "8 word"
proof -
  let ?P = "\<lambda>n b :: 8 word. (b AND 0xF0 = 0xE0 \<longleftrightarrow> n div 16 = 14) \<and> (b AND 0xF0 = 16 \<longleftrightarrow> n div 16 = (1 :: nat)) \<and>
      (b AND 0xC0 = 0x80 \<longleftrightarrow> n div 64 = 2) \<and> (b AND 0xFE = 0xFC \<longleftrightarrow> n div 2 = 126)"
  have "list_all (\<lambda>n. ?P n (of_nat n)) [0..<256]"
    by code_simp
  then have "\<forall>n\<in>{0..<256}. ?P n (of_nat n)" by (simp only: list_all_iff set_upt)
  then have "?P (unat b) (of_nat (unat b))" by (rule bspec) (use byte_below [of b] in simp)
  moreover have "of_nat (unat b) = b" by simp
  ultimately have "?P (unat b) b" by metis
  then show "b AND 0xF0 = 0xE0 \<longleftrightarrow> unat b div 16 = 14"
      "b AND 0xF0 = 16 \<longleftrightarrow> unat b div 16 = 1" "b AND 0xC0 = 0x80 \<longleftrightarrow> unat b div 64 = 2"
      "b AND 0xFE = 0xFC \<longleftrightarrow> unat b div 2 = 126"
    by blast+
qed

subsection \<open>IPv4\<close>

text \<open>An IPv4 address as the number it is, and the ranges of the IANA registry that are not globally reachable or
  not unicast, each from its first address to its last.\<close>

definition ipv4_number :: "nat \<Rightarrow> nat \<Rightarrow> nat \<Rightarrow> nat \<Rightarrow> nat" where
  "ipv4_number a b c d = 256 * (256 * (256 * a + b) + c) + d"

definition special_ranges :: "(nat \<times> nat) list" where
  "special_ranges =
     [(ipv4_number 0 0 0 0, ipv4_number 0 255 255 255), (ipv4_number 10 0 0 0, ipv4_number 10 255 255 255),
      (ipv4_number 100 64 0 0, ipv4_number 100 127 255 255), (ipv4_number 127 0 0 0, ipv4_number 127 255 255 255),
      (ipv4_number 169 254 0 0, ipv4_number 169 254 255 255), (ipv4_number 172 16 0 0, ipv4_number 172 31 255 255),
      (ipv4_number 192 0 0 0, ipv4_number 192 0 0 255), (ipv4_number 192 0 2 0, ipv4_number 192 0 2 255),
      (ipv4_number 192 31 196 0, ipv4_number 192 31 196 255), (ipv4_number 192 88 99 0, ipv4_number 192 88 99 255),
      (ipv4_number 192 168 0 0, ipv4_number 192 168 255 255), (ipv4_number 192 175 48 0, ipv4_number 192 175 48 255),
      (ipv4_number 198 18 0 0, ipv4_number 198 19 255 255), (ipv4_number 198 51 100 0, ipv4_number 198 51 100 255),
      (ipv4_number 203 0 113 0, ipv4_number 203 0 113 255), (ipv4_number 224 0 0 0, ipv4_number 255 255 255 255)]"

lemma radix_less: "x < 256 \<Longrightarrow> y < 256 \<Longrightarrow> 256 * p + x < 256 * q + y \<longleftrightarrow> p < q \<or> p = q \<and> x < y"
  for x y p q :: nat
proof (cases p q rule: linorder_cases)
  case less
  then have "256 * p + 256 \<le> 256 * q" by simp
  then show "x < 256 \<Longrightarrow> y < 256 \<Longrightarrow> 256 * p + x < 256 * q + y \<longleftrightarrow> p < q \<or> p = q \<and> x < y"
    using less by simp
next
  case greater
  then have "256 * q + 256 \<le> 256 * p" by simp
  then show "x < 256 \<Longrightarrow> y < 256 \<Longrightarrow> 256 * p + x < 256 * q + y \<longleftrightarrow> p < q \<or> p = q \<and> x < y"
    using greater by simp
qed simp

lemma radix_le: "x < 256 \<Longrightarrow> y < 256 \<Longrightarrow> 256 * p + x \<le> 256 * q + y \<longleftrightarrow> p < q \<or> p = q \<and> x \<le> y"
    and radix_eq: "x < 256 \<Longrightarrow> y < 256 \<Longrightarrow> 256 * p + x = 256 * q + y \<longleftrightarrow> p = q \<and> x = y"
  for x y p q :: nat
  using radix_less [of x y p q] radix_less [of y x q p] by auto

lemma ipv4_number_le:
  assumes "b < 256" "c < 256" "d < 256" "b' < 256" "c' < 256" "d' < 256"
  shows "ipv4_number a b c d \<le> ipv4_number a' b' c' d' \<longleftrightarrow>
    a < a' \<or> a = a' \<and> (b < b' \<or> b = b' \<and> (c < c' \<or> c = c' \<and> d \<le> d'))"
  using assms unfolding ipv4_number_def by (simp only: radix_le radix_less radix_eq) blast

lemma high_bits_between:
  "n div 16 = 14 \<longleftrightarrow> 224 \<le> n \<and> n \<le> 239" "n div 16 = 15 \<longleftrightarrow> 240 \<le> n \<and> n \<le> 255"
  "n div 16 = Suc 0 \<longleftrightarrow> 16 \<le> n \<and> n \<le> 31" "n div 64 = Suc 0 \<longleftrightarrow> 64 \<le> n \<and> n \<le> 127"
  "n div 2 = 9 \<longleftrightarrow> 18 \<le> n \<and> n \<le> 19" for n :: nat
  by arith+

lemma numeral_byte: "(b :: 8 word) = numeral n \<longleftrightarrow> unat b = unat (numeral n :: 8 word)"
    "(b :: 8 word) = 0 \<longleftrightarrow> unat b = 0"
  by (simp_all add: word_unat_eq_iff)

lemma ipv4_ranges:
  assumes "b < 256" "c < 256" "d < 256"
  shows "ipv4_number p 0 0 0 \<le> ipv4_number a b c d \<and> ipv4_number a b c d \<le> ipv4_number p 255 255 255 \<longleftrightarrow> a = p"
    and "0 < q \<Longrightarrow> q < r \<Longrightarrow> r < 256 \<Longrightarrow>
      ipv4_number p q 0 0 \<le> ipv4_number a b c d \<and> ipv4_number a b c d \<le> ipv4_number p r 255 255 \<longleftrightarrow>
      a = p \<and> q \<le> b \<and> b \<le> r"
    and "q < 256 \<Longrightarrow>
      ipv4_number p q 0 0 \<le> ipv4_number a b c d \<and> ipv4_number a b c d \<le> ipv4_number p q 255 255 \<longleftrightarrow> a = p \<and> b = q"
    and "q < 256 \<Longrightarrow> r < 256 \<Longrightarrow>
      ipv4_number p q r 0 \<le> ipv4_number a b c d \<and> ipv4_number a b c d \<le> ipv4_number p q r 255 \<longleftrightarrow>
      a = p \<and> b = q \<and> c = r"
    and "a < 256 \<Longrightarrow>
      ipv4_number 224 0 0 0 \<le> ipv4_number a b c d \<and> ipv4_number a b c d \<le> ipv4_number 255 255 255 255 \<longleftrightarrow> 224 \<le> a"
  using assms by (auto simp: ipv4_number_le)

lemma below_cases: "(n = 0 \<Longrightarrow> P) \<Longrightarrow> (224 \<le> n \<Longrightarrow> P) \<Longrightarrow> (0 < n \<Longrightarrow> n < 224 \<Longrightarrow> P) \<Longrightarrow> P" for n :: nat
  by linarith

lemma public_v4:
  "isPublicAddress (V4 [a, b, c, d]) \<longleftrightarrow>
     \<not> list_ex (\<lambda>(first, last). first \<le> ipv4_number (unat a) (unat b) (unat c) (unat d) \<and>
       ipv4_number (unat a) (unat b) (unat c) (unat d) \<le> last) special_ranges"
proof -
  note bounds = byte_below [of a] byte_below [of b] byte_below [of c] byte_below [of d]
  have "isPublicAddress (V4 [a, b, c, d]) \<longleftrightarrow>
      \<not> (unat a = 0 \<or> unat a = 10 \<or> unat a = 100 \<and> 64 \<le> unat b \<and> unat b \<le> 127 \<or> unat a = 127 \<or>
        unat a = 169 \<and> unat b = 254 \<or> unat a = 172 \<and> 16 \<le> unat b \<and> unat b \<le> 31 \<or>
        unat a = 192 \<and> unat b = 0 \<and> unat c = 0 \<or> unat a = 192 \<and> unat b = 0 \<and> unat c = 2 \<or>
        unat a = 192 \<and> unat b = 31 \<and> unat c = 196 \<or> unat a = 192 \<and> unat b = 88 \<and> unat c = 99 \<or>
        unat a = 192 \<and> unat b = 168 \<or> unat a = 192 \<and> unat b = 175 \<and> unat c = 48 \<or>
        unat a = 198 \<and> 18 \<le> unat b \<and> unat b \<le> 19 \<or> unat a = 198 \<and> unat b = 51 \<and> unat c = 100 \<or>
        unat a = 203 \<and> unat b = 0 \<and> unat c = 113 \<or> 224 \<le> unat a)"
    unfolding isPublicAddress_def Unmap_def addr_global_unicast_def addr_loopback_def addr_multicast_def
      addr_link_local_def addr_private_def nonPublicPrefixes_def prefix_contains_def v6_prefix_def same_bits_def
    by (simp add: high_bits masked_byte high_bits_between, simp add: numeral_byte)
      (rule below_cases [of "unat a"]; insert bounds; simp del: neq0_conv add: neq0_conv [symmetric]; blast?)
  also have "\<dots> \<longleftrightarrow> \<not> list_ex (\<lambda>(first, last). first \<le> ipv4_number (unat a) (unat b) (unat c) (unat d) \<and>
       ipv4_number (unat a) (unat b) (unat c) (unat d) \<le> last) special_ranges"
    by (simp add: special_ranges_def ipv4_ranges bounds)
  finally show ?thesis .
qed

text \<open>C23: the client an Agent makes for itself never connects where it should not: when it dials, every address the
  host resolved to is public, or the host is a local development host, local networks are allowed and the
  address is a loopback one; and it dials one of them.\<close>

theorem secure_dial_safe:
  assumes "secure_dial allowLocalNetwork lookup address = Inr (a, port)"
  shows "\<exists>h addresses. SplitHostPort address = Some (h, port) \<and> lookup h = Inr addresses \<and> a \<in> set addresses \<and>
    list_all (\<lambda>x. isPublicAddress x \<or> allowLocalNetwork \<and> isLocalDevelopmentHost h \<and> addr_loopback x) addresses"
proof -
  have checked: "check_addresses local addresses = Inr () \<longleftrightarrow>
      list_all (\<lambda>x. if local then addr_loopback x else isPublicAddress x) addresses" for local addresses
    by (induction local addresses rule: check_addresses.induct) auto
  from assms obtain h addresses where "SplitHostPort address = Some (h, port)" "lookup h = Inr addresses"
      "a = hd addresses" "addresses \<noteq> []"
      "check_addresses (isLocalDevelopmentHost h \<and> allowLocalNetwork) addresses = Inr ()"
    by (auto simp: secure_dial_def split: option.splits sum.splits if_splits)
  then show ?thesis
    unfolding checked by (auto simp: list_all_iff split: if_splits)
qed

theorem secure_dial_safe_witness:
  "\<exists>h addresses. SplitHostPort ''s.co:443'' = Some (h, ''443'') \<and>
     (if h = ''s.co'' then Inr [V4 [93, 184, 216, 34]] else Inl ''unknown'') = (Inr addresses :: string + addr list) \<and>
     V4 [93, 184, 216, 34] \<in> set addresses \<and>
     list_all (\<lambda>x. isPublicAddress x \<or> False \<and> isLocalDevelopmentHost h \<and> addr_loopback x) addresses"
proof (rule secure_dial_safe)
  show "secure_dial False (\<lambda>h. if h = ''s.co'' then Inr [V4 [93, 184, 216, 34]] else Inl ''unknown'') ''s.co:443'' =
      Inr (V4 [93, 184, 216, 34], ''443'')"
    by code_simp
qed

text \<open>The masks and prefixes of the code against the registry: an IPv4 address is public exactly when its
  number is in none of the special-purpose ranges, and an IPv4-mapped IPv6 address exactly when the address
  in it is.\<close>

theorem isPublicAddress_v4:
  "(isPublicAddress (V4 [a, b, c, d]) \<longleftrightarrow>
     \<not> list_ex (\<lambda>(first, last). first \<le> ipv4_number (unat a) (unat b) (unat c) (unat d) \<and>
       ipv4_number (unat a) (unat b) (unat c) (unat d) \<le> last) special_ranges) \<and>
   isPublicAddress (V6 (v4_mapped @ [a, b, c, d]) zone) = isPublicAddress (V4 [a, b, c, d])"
proof -
  have "Unmap (V6 (v4_mapped @ [a, b, c, d]) zone) = V4 [a, b, c, d]" by (simp add: Unmap_def v4_mapped_def)
  moreover have "Unmap (V4 [a, b, c, d]) = V4 [a, b, c, d]" by (simp add: Unmap_def)
  ultimately have "isPublicAddress (V6 (v4_mapped @ [a, b, c, d]) zone) = isPublicAddress (V4 [a, b, c, d])"
    unfolding isPublicAddress_def by (simp only:)
  with public_v4 [of a b c d] show ?thesis by simp
qed

lemma contained_not_public: "p \<in> set nonPublicPrefixes \<Longrightarrow> prefix_contains p (Unmap a) \<Longrightarrow> \<not> isPublicAddress a"
  by (auto simp: isPublicAddress_def Let_def list_ex_iff)

text \<open>C24: the IPv6 prefixes that embed an IPv4 address are not public, whatever it is, unless the address names a
  zone: then no prefix contains it, and the link-local metadata address is public through NAT64.\<close>

theorem isPublicAddress_embedded:
  "\<not> isPublicAddress (V6 ([0x00, 0x64, 0xFF, 0x9B, 0, 0, 0, 0, 0, 0, 0, 0] @ [a, b, c, d]) []) \<and>
   \<not> isPublicAddress (V6 ([0x20, 0x02, a, b, c, d] @ rest) []) \<and>
   \<not> isPublicAddress (V4 [169, 254, 169, 254]) \<and>
   isPublicAddress (V6 [0x00, 0x64, 0xFF, 0x9B, 0, 0, 0, 0, 0, 0, 0, 0, 169, 254, 169, 254] ''eth0'')"
proof (intro conjI)
  have zeros: "replicate 8 (0 :: 8 word) = [0, 0, 0, 0, 0, 0, 0, 0]"
      "replicate 10 (0 :: 8 word) = 0 # replicate 9 0" by (simp_all add: eval_nat_numeral)
  show "\<not> isPublicAddress (V6 ([0x00, 0x64, 0xFF, 0x9B, 0, 0, 0, 0, 0, 0, 0, 0] @ [a, b, c, d]) [])"
    by (rule contained_not_public [of "v6_prefix [0x00, 0x64, 0xFF, 0x9B] 96"])
      (simp_all add: nonPublicPrefixes_def Unmap_def v4_mapped_def prefix_contains_def v6_prefix_def same_bits_def zeros)
  show "\<not> isPublicAddress (V6 ([0x20, 0x02, a, b, c, d] @ rest) [])"
    by (rule contained_not_public [of "v6_prefix [0x20, 0x02] 16"])
      (simp_all add: nonPublicPrefixes_def Unmap_def v4_mapped_def prefix_contains_def v6_prefix_def same_bits_def zeros)
  show "\<not> isPublicAddress (V4 [169, 254, 169, 254])" by code_simp
  show "isPublicAddress (V6 [0x00, 0x64, 0xFF, 0x9B, 0, 0, 0, 0, 0, 0, 0, 0, 169, 254, 169, 254] ''eth0'')" by code_simp
qed

end
