(* ===== verification/DirectoryFilters.thy ===== *)
theory DirectoryFilters
  imports AgentNetwork AgentTransport
begin

section \<open>The Directory client: what a caller may ask\<close>

text \<open>
  The filters and requests of \<open>directory/types.go\<close> and the checks \<open>directory/validation.go\<close> and
  \<open>directory/search.go\<close> make of them before anything is sent.  A Go slice that is \<open>nil\<close> is
  \<open>None\<close>; an enrollment or trust descriptor is the name of its protocol, the only field it has.
  The text of an error of \<open>encoding/json\<close> is not modelled: it is \<open>Undecoded\<close>.
\<close>

subsection \<open>\<open>types.go\<close>\<close>

record operation_filter =
  of_authentication :: string
  of_name :: string

record payment_filter =
  pf_authentication :: string
  pf_name :: string
  pf_options :: "string list option"

record service_filters =
  sf_enrollment :: "string list option"
  sf_keywords :: "string list option"
  sf_operations :: "operation_filter list option"
  sf_payments :: "payment_filter list option"
  sf_sources :: "string list option"
  sf_trust :: "string list option"

record search_request =
  sr_filters :: "service_filters option"
  sr_limit :: int
  sr_query :: string

record directory_search_request = search_request +
  sr_types :: "string list option"

record suggestion_request =
  sg_filters :: "service_filters option"
  sg_limit :: int
  sg_prefix :: string

record failed_request =
  fr_header :: http_header
  fr_message :: string
  fr_retryable :: bool
  fr_status :: int

datatype directory_error =
    Failure string
  | Undecoded
  | Document odp_error
  | Unreachable string
  | MalformedURL
  | Refused failed_request

subsection \<open>Texts\<close>

definition invalid :: "string \<Rightarrow> directory_error" where
  "invalid name = Failure (name @ '' is invalid'')"

definition requireText :: "string \<Rightarrow> string \<Rightarrow> nat \<Rightarrow> nat \<Rightarrow> directory_error + string" where
  "requireText text name minimum maximum =
     (if rune_count text < minimum \<or> rune_count text > maximum \<or> trim_space text = []
      then Inl (invalid name) else Inr text)"

text \<open>The loop over a slice with a map of what it has seen.\<close>

definition unique :: "'a list \<Rightarrow> bool" where "unique values \<longleftrightarrow> first_repeat [] values = None"

fun require_all :: "string list \<Rightarrow> string \<Rightarrow> nat \<Rightarrow> directory_error + unit" where
  "require_all [] name maximum = Inr ()"
| "require_all (text # rest) name maximum =
     bind_res (requireText text name 1 maximum) (\<lambda>_. require_all rest name maximum)"

definition uniqueText ::
  "string list option \<Rightarrow> string \<Rightarrow> nat \<Rightarrow> nat \<Rightarrow> directory_error + string list option" where
  "uniqueText values name maximumItems maximumLength =
     (case values of
        None \<Rightarrow> Inr None
      | Some texts \<Rightarrow>
          if texts = [] \<or> length texts > maximumItems \<or> \<not> unique texts then Inl (invalid name)
          else bind_res (require_all texts name maximumLength) (\<lambda>_. Inr (Some texts)))"

subsection \<open>Filters\<close>

definition maximumPaymentFilters :: nat where "maximumPaymentFilters = 32"

definition directory_operations :: "string list" where
  "directory_operations =
     [''get-collection'', ''get-offering'', ''list-collection-offerings'', ''list-collections'',
      ''list-offerings'', ''search-collections'', ''search-offerings'']"

definition validAuthentication :: "string \<Rightarrow> bool \<Rightarrow> bool" where
  "validAuthentication authentication optional \<longleftrightarrow>
     authentication = ''not-required'' \<or> authentication = ''required'' \<or>
     (optional \<and> authentication = ''optional'')"

definition enrollmentFilters :: "string list option \<Rightarrow> directory_error + string list option" where
  "enrollmentFilters values =
     (case values of
        None \<Rightarrow> Inr None
      | Some names \<Rightarrow> if names \<noteq> [''aep''] then Inl (invalid ''enrollment'') else Inr (Some names))"

definition validateTrustFilters :: "string list option \<Rightarrow> directory_error + string list option" where
  "validateTrustFilters values =
     (case values of
        None \<Rightarrow> Inr None
      | Some names \<Rightarrow> if names \<noteq> [''tap''] then Inl (invalid ''trust'') else Inr (Some names))"

text \<open>The identities are joined with a byte no valid name or authentication holds.\<close>

definition operation_identity :: "operation_filter \<Rightarrow> string" where
  "operation_identity f = of_name f @ CHR 0x00 # of_authentication f"

fun operation_filters_loop :: "string list \<Rightarrow> operation_filter list \<Rightarrow> directory_error + unit" where
  "operation_filters_loop seen [] = Inr ()"
| "operation_filters_loop seen (f # rest) =
     (if of_name f \<notin> set directory_operations \<or>
         (of_authentication f \<noteq> [] \<and> \<not> validAuthentication (of_authentication f) True) then
        Inl (Failure ''operations are invalid'')
      else if operation_identity f \<in> set seen then Inl (Failure ''operations are invalid'')
      else operation_filters_loop (operation_identity f # seen) rest)"

definition validateOperationFilters ::
  "operation_filter list option \<Rightarrow> directory_error + operation_filter list option" where
  "validateOperationFilters values =
     (case values of
        None \<Rightarrow> Inr None
      | Some fs \<Rightarrow>
          if fs = [] \<or> length fs > length directory_operations * 3 then Inl (Failure ''operations are invalid'')
          else bind_res (operation_filters_loop [] fs) (\<lambda>_. Inr (Some fs)))"

definition IsPaymentOption :: "string \<Rightarrow> bool" where
  "IsPaymentOption option \<longleftrightarrow> option \<in> set payment_options"

fun payment_options_loop :: "string list \<Rightarrow> string list \<Rightarrow> directory_error + unit" where
  "payment_options_loop seen [] = Inr ()"
| "payment_options_loop seen (option # rest) =
     (if \<not> IsPaymentOption option then Inl (Failure ''payment options are invalid'')
      else if option \<in> set seen then Inl (Failure ''payment options must be unique'')
      else payment_options_loop (option # seen) rest)"

definition validatePaymentOptions :: "string list option \<Rightarrow> directory_error + unit" where
  "validatePaymentOptions values =
     (case values of
        None \<Rightarrow> Inr ()
      | Some options \<Rightarrow>
          if options = [] \<or> length options > 16 then Inl (Failure ''payment options are invalid'')
          else payment_options_loop [] options)"

definition paymentOptionIdentity :: "string list option \<Rightarrow> string" where
  "paymentOptionIdentity values =
     join_with [CHR 0x00] (sort (case values of None \<Rightarrow> [] | Some options \<Rightarrow> options))"

definition payment_name :: "string \<Rightarrow> bool" where
  "payment_name name \<longleftrightarrow> name = ''mpp'' \<or> name = ''x402''"

definition payment_identity :: "payment_filter \<Rightarrow> string" where
  "payment_identity f =
     pf_name f @ CHR 0x00 # pf_authentication f @ CHR 0x00 # paymentOptionIdentity (pf_options f)"

fun payment_filters_loop :: "string list \<Rightarrow> payment_filter list \<Rightarrow> directory_error + unit" where
  "payment_filters_loop seen [] = Inr ()"
| "payment_filters_loop seen (f # rest) =
     (if \<not> payment_name (pf_name f) \<or>
         (pf_authentication f \<noteq> [] \<and> \<not> validAuthentication (pf_authentication f) False) then
        Inl (Failure ''payments are invalid'')
      else
        bind_res (validatePaymentOptions (pf_options f)) (\<lambda>_.
          if payment_identity f \<in> set seen then Inl (Failure ''payments are invalid'')
          else payment_filters_loop (payment_identity f # seen) rest))"

definition validatePaymentFilters ::
  "payment_filter list option \<Rightarrow> directory_error + payment_filter list option" where
  "validatePaymentFilters values =
     (case values of
        None \<Rightarrow> Inr None
      | Some fs \<Rightarrow>
          if fs = [] \<or> length fs > maximumPaymentFilters then Inl (Failure ''payments are invalid'')
          else bind_res (payment_filters_loop [] fs) (\<lambda>_. Inr (Some fs)))"

definition check_sources :: "string list option \<Rightarrow> directory_error + unit" where
  "check_sources values =
     (case values of
        None \<Rightarrow> Inr ()
      | Some sources \<Rightarrow>
          guard_res
            (\<not> (sources = [] \<or> length sources > 2 \<or> \<not> unique sources) \<and>
             list_all (\<lambda>s. s = ''odp'' \<or> s = ''openapi'') sources)
            (Failure ''sources must contain distinct odp or openapi values''))"

definition validateFilters :: "service_filters \<Rightarrow> directory_error + service_filters" where
  "validateFilters filters =
     bind_res (check_sources (sf_sources filters)) (\<lambda>_.
     bind_res (uniqueText (sf_keywords filters) ''keywords'' 32 64) (\<lambda>keywords.
     bind_res (enrollmentFilters (sf_enrollment filters)) (\<lambda>enrollment.
     bind_res (validateOperationFilters (sf_operations filters)) (\<lambda>operation_fs.
     bind_res (validatePaymentFilters (sf_payments filters)) (\<lambda>payment_fs.
     bind_res (validateTrustFilters (sf_trust filters)) (\<lambda>trust.
       Inr \<lparr>sf_enrollment = enrollment, sf_keywords = keywords, sf_operations = operation_fs,
         sf_payments = payment_fs, sf_sources = sf_sources filters, sf_trust = trust\<rparr>))))))"

definition validate_optional_filters ::
  "service_filters option \<Rightarrow> directory_error + service_filters option" where
  "validate_optional_filters filters =
     (case filters of
        None \<Rightarrow> Inr None
      | Some fs \<Rightarrow> bind_res (validateFilters fs) (\<lambda>fs. Inr (Some fs)))"

definition normalizedSearchRequest :: "search_request \<Rightarrow> directory_error + search_request" where
  "normalizedSearchRequest req =
     bind_res (if sr_query req \<noteq> [] then requireText (sr_query req) ''query'' 1 512 else Inr [])
       (\<lambda>query.
     bind_res (guard_res (\<not> (sr_limit req < 0 \<or> sr_limit req > 100))
         (Failure ''limit must be an integer from 1 through 100''))
       (\<lambda>_.
     bind_res (validate_optional_filters (sr_filters req)) (\<lambda>filters.
       Inr \<lparr>sr_filters = filters, sr_limit = sr_limit req, sr_query = query\<rparr>)))"

subsection \<open>Encoding\<close>

text \<open>\<open>json.Marshal\<close> of the structs: a member with \<open>omitempty\<close> is left out when its slice is
  empty, its text empty or its pointer \<open>nil\<close>.\<close>

definition text_member :: "string \<Rightarrow> string \<Rightarrow> obj" where
  "text_member name text = (if text = [] then [] else [(name, JStr text)])"

definition list_member :: "string \<Rightarrow> ('a \<Rightarrow> json) \<Rightarrow> 'a list option \<Rightarrow> obj" where
  "list_member name encode values =
     (case values of Some (x # xs) \<Rightarrow> [(name, JArr (map encode (x # xs)))] | _ \<Rightarrow> [])"

definition named_json :: "string \<Rightarrow> json" where
  "named_json name = JObj [(''name'', JStr name)]"

definition operation_filter_json :: "operation_filter \<Rightarrow> json" where
  "operation_filter_json f =
     JObj (text_member ''authentication'' (of_authentication f) @ [(''name'', JStr (of_name f))])"

definition payment_filter_json :: "payment_filter \<Rightarrow> json" where
  "payment_filter_json f =
     JObj (text_member ''authentication'' (pf_authentication f) @ [(''name'', JStr (pf_name f))] @
       list_member ''options'' JStr (pf_options f))"

definition filters_json :: "service_filters \<Rightarrow> json" where
  "filters_json filters =
     JObj (list_member ''enrollment'' named_json (sf_enrollment filters) @
       list_member ''keywords'' JStr (sf_keywords filters) @
       list_member ''operations'' operation_filter_json (sf_operations filters) @
       list_member ''payments'' payment_filter_json (sf_payments filters) @
       list_member ''sources'' JStr (sf_sources filters) @
       list_member ''trust'' named_json (sf_trust filters))"

definition filters_member :: "service_filters option \<Rightarrow> obj" where
  "filters_member filters =
     (case filters of None \<Rightarrow> [] | Some fs \<Rightarrow> [(''filters'', filters_json fs)])"

definition limit_member :: "int \<Rightarrow> obj" where
  "limit_member limit = (if limit = 0 then [] else [(''limit'', JNum (itoa limit))])"

definition search_members :: "search_request \<Rightarrow> obj" where
  "search_members req =
     filters_member (sr_filters req) @ limit_member (sr_limit req) @
     text_member ''query'' (sr_query req)"

definition validateSearchRequest :: "search_request \<Rightarrow> directory_error + string" where
  "validateSearchRequest req =
     bind_res (normalizedSearchRequest req) (\<lambda>validated.
       Inr (encode_json (JObj (search_members validated))))"

definition types_error :: directory_error where
  "types_error = Failure ''types must contain distinct service or collection values''"

definition validateDirectorySearchRequest :: "directory_search_request \<Rightarrow> directory_error + string" where
  "validateDirectorySearchRequest req =
     bind_res (normalizedSearchRequest (search_request.truncate req)) (\<lambda>base.
     bind_res (guard_res (\<not> (case sr_types req of
           None \<Rightarrow> False
         | Some kinds \<Rightarrow> kinds = [] \<or> length kinds > 2 \<or> \<not> unique kinds)) types_error) (\<lambda>_.
     bind_res (guard_res
         (list_all (\<lambda>kind. kind = ''service'' \<or> kind = ''collection'')
           (case sr_types req of None \<Rightarrow> [] | Some kinds \<Rightarrow> kinds)) types_error) (\<lambda>_.
       Inr (encode_json (JObj (search_members base @ list_member ''types'' JStr (sr_types req)))))))"

definition suggestion_json :: "suggestion_request \<Rightarrow> json" where
  "suggestion_json req =
     JObj (filters_member (sg_filters req) @ limit_member (sg_limit req) @
       [(''prefix'', JStr (sg_prefix req))])"

subsection \<open>What passes\<close>

definition valid_text :: "nat \<Rightarrow> string \<Rightarrow> bool" where
  "valid_text maximum text \<longleftrightarrow> 1 \<le> rune_count text \<and> rune_count text \<le> maximum \<and> trim_space text \<noteq> []"

definition valid_operation :: "operation_filter \<Rightarrow> bool" where
  "valid_operation f \<longleftrightarrow>
     of_name f \<in> set directory_operations \<and>
     of_authentication f \<in> {[], ''not-required'', ''required'', ''optional''}"

definition valid_options :: "string list option \<Rightarrow> bool" where
  "valid_options values \<longleftrightarrow>
     (\<forall>options. values = Some options \<longrightarrow>
        options \<noteq> [] \<and> length options \<le> 16 \<and> distinct options \<and> set options \<subseteq> set payment_options)"

definition valid_payment :: "payment_filter \<Rightarrow> bool" where
  "valid_payment f \<longleftrightarrow>
     pf_name f \<in> {''mpp'', ''x402''} \<and>
     pf_authentication f \<in> {[], ''not-required'', ''required''} \<and> valid_options (pf_options f)"

text \<open>What distinguishes two payment filters: the order of their options does not.\<close>

definition payment_key :: "payment_filter \<Rightarrow> string \<times> string \<times> string set option" where
  "payment_key f = (pf_name f, pf_authentication f, map_option set (pf_options f))"

definition valid_filters :: "service_filters \<Rightarrow> bool" where
  "valid_filters f \<longleftrightarrow>
     (\<forall>sources. sf_sources f = Some sources \<longrightarrow>
        sources \<noteq> [] \<and> distinct sources \<and> set sources \<subseteq> {''odp'', ''openapi''}) \<and>
     (\<forall>keywords. sf_keywords f = Some keywords \<longrightarrow>
        keywords \<noteq> [] \<and> length keywords \<le> 32 \<and> distinct keywords \<and> (\<forall>k\<in>set keywords. valid_text 64 k)) \<and>
     sf_enrollment f \<in> {None, Some [''aep'']} \<and>
     (\<forall>fs. sf_operations f = Some fs \<longrightarrow>
        fs \<noteq> [] \<and> length fs \<le> 21 \<and> (\<forall>x\<in>set fs. valid_operation x) \<and>
        distinct (map (\<lambda>x. (of_name x, of_authentication x)) fs)) \<and>
     (\<forall>fs. sf_payments f = Some fs \<longrightarrow>
        fs \<noteq> [] \<and> length fs \<le> 32 \<and> (\<forall>x\<in>set fs. valid_payment x) \<and> distinct (map payment_key fs)) \<and>
     sf_trust f \<in> {None, Some [''tap'']}"

lemma unique_distinct: "unique xs \<longleftrightarrow> distinct xs"
  by (simp add: unique_def first_repeat_None)

lemma requireText_Inr: "requireText text name 1 maximum = Inr t \<longleftrightarrow> t = text \<and> valid_text maximum text"
  by (auto simp: requireText_def valid_text_def)

lemma require_all_Inr: "require_all texts name maximum = Inr u \<longleftrightarrow> (\<forall>t\<in>set texts. valid_text maximum t)"
  by (induction texts) (auto simp: requireText_Inr [unfolded One_nat_def] bind_res_Inr)

lemma check_sources_Inr:
  "check_sources values = Inr u \<longleftrightarrow>
    (\<forall>sources. values = Some sources \<longrightarrow>
      sources \<noteq> [] \<and> distinct sources \<and> set sources \<subseteq> {''odp'', ''openapi''})"
proof (cases "values")
  case (Some sources)
  have "length sources \<le> 2" if "distinct sources" "set sources \<subseteq> {''odp'', ''openapi''}"
    using distinct_card [OF that(1)] card_mono [OF _ that(2)] by simp
  then show ?thesis
    using Some by (auto simp: check_sources_def guard_res_Inr unique_distinct list_all_iff not_less)
qed (simp add: check_sources_def)

lemma identity_parts:
  fixes a :: string
  assumes "c \<notin> set a" and "c \<notin> set b"
  shows "a @ c # x = b @ c # y \<longleftrightarrow> a = b \<and> x = y"
proof
  assume "a @ c # x = b @ c # y"
  then have "cut c (a @ c # x) = cut c (b @ c # y)" by simp
  then show "a = b \<and> x = y" by (simp add: cut_append assms)
qed simp

lemma names_plain:
  "n \<in> set directory_operations \<Longrightarrow> CHR 0x00 \<notin> set n" "o' \<in> set payment_options \<Longrightarrow> CHR 0x00 \<notin> set o'"
  "o' \<in> set payment_options \<Longrightarrow> o' \<noteq> []"
  by (auto simp: directory_operations_def payment_options_def)

lemma authentication_plain:
  "a \<in> {[], ''not-required'', ''required'', ''optional''} \<Longrightarrow> CHR 0x00 \<notin> set a"
  by auto

lemma operation_identity_eq:
  "valid_operation f \<Longrightarrow> valid_operation g \<Longrightarrow>
    operation_identity f = operation_identity g \<longleftrightarrow>
    (of_name f, of_authentication f) = (of_name g, of_authentication g)"
  by (auto simp: operation_identity_def valid_operation_def identity_parts names_plain)

lemma operation_filters_loop_Inr:
  "operation_filters_loop seen fs = Inr u \<longleftrightarrow>
    (\<forall>f\<in>set fs. valid_operation f) \<and> distinct (map operation_identity fs) \<and>
    operation_identity ` set fs \<inter> set seen = {}"
  by (induction seen fs rule: operation_filters_loop.induct)
    (auto simp: valid_operation_def validAuthentication_def)

lemma distinct_map_cong:
  assumes "\<And>x y. x \<in> set xs \<Longrightarrow> y \<in> set xs \<Longrightarrow> f x = f y \<longleftrightarrow> g x = g y"
  shows "distinct (map f xs) \<longleftrightarrow> distinct (map g xs)"
  using assms by (induction xs) (auto simp: image_iff)

lemma validateOperationFilters_Inr:
  "validateOperationFilters values = Inr r \<longleftrightarrow> r = values \<and>
    (\<forall>fs. values = Some fs \<longrightarrow>
      fs \<noteq> [] \<and> length fs \<le> 21 \<and> (\<forall>x\<in>set fs. valid_operation x) \<and>
      distinct (map (\<lambda>x. (of_name x, of_authentication x)) fs))"
proof (cases "values")
  case (Some fs)
  have "distinct (map operation_identity fs) \<longleftrightarrow> distinct (map (\<lambda>x. (of_name x, of_authentication x)) fs)"
    if "\<forall>x\<in>set fs. valid_operation x"
    using that by (intro distinct_map_cong) (simp only: operation_identity_eq)
  then show ?thesis
    using Some
    by (auto simp: validateOperationFilters_def bind_res_Inr operation_filters_loop_Inr directory_operations_def)
qed (auto simp: validateOperationFilters_def)

lemma payment_options_loop_Inr:
  "payment_options_loop seen options = Inr u \<longleftrightarrow>
    set options \<subseteq> set payment_options \<and> distinct options \<and> set options \<inter> set seen = {}"
  by (induction seen options rule: payment_options_loop.induct) (auto simp: IsPaymentOption_def)

lemma validatePaymentOptions_Inr: "validatePaymentOptions values = Inr u \<longleftrightarrow> valid_options values"
  by (cases "values")
    (auto simp: validatePaymentOptions_def valid_options_def payment_options_loop_Inr Suc_le_eq not_less)

lemma sort_Nil: "sort xs = [] \<longleftrightarrow> xs = []"
  by (metis set_sort set_empty)

lemma sort_distinct_eq:
  assumes "distinct xs" and "distinct ys"
  shows "sort xs = sort ys \<longleftrightarrow> set xs = set ys"
  using assms sorted_distinct_set_unique [of "sort xs" "sort ys"] by (metis distinct_sort set_sort sorted_sort)

lemma join_options_inject:
  assumes "set xs \<subseteq> set payment_options" and "set ys \<subseteq> set payment_options" and "xs \<noteq> []" and "ys \<noteq> []"
  shows "join_with [CHR 0x00] xs = join_with [CHR 0x00] ys \<longleftrightarrow> xs = ys"
proof -
  have "split_on CHR 0x00 (join_with [CHR 0x00] xs) = xs" "split_on CHR 0x00 (join_with [CHR 0x00] ys) = ys"
    using assms names_plain(2) by (auto intro!: split_join)
  then show ?thesis by metis
qed

lemma join_options_empty:
  assumes "set xs \<subseteq> set payment_options" and "xs \<noteq> []"
  shows "join_with [CHR 0x00] (sort xs) \<noteq> []"
proof -
  have "\<forall>x\<in>set (sort xs). x \<noteq> []" "set (sort xs) \<noteq> {}"
    using assms names_plain(3) by auto
  then show ?thesis
    by (cases "([CHR 0x00], sort xs)" rule: join_with.cases) (auto simp del: set_sort)
qed

lemma paymentOptionIdentity_eq:
  assumes f: "valid_options v" and g: "valid_options w"
  shows "paymentOptionIdentity v = paymentOptionIdentity w \<longleftrightarrow> map_option set v = map_option set w"
proof (cases v)
  case None
  then show ?thesis
    using g join_options_empty [of "the w"]
    by (cases w) (auto simp: paymentOptionIdentity_def valid_options_def)
next
  case (Some xs)
  show ?thesis
  proof (cases w)
    case None
    then show ?thesis
      using Some f join_options_empty [of xs]
      by (auto simp: paymentOptionIdentity_def valid_options_def)
  next
    case w: (Some ys)
    have "join_with [CHR 0x00] (sort xs) = join_with [CHR 0x00] (sort ys) \<longleftrightarrow> sort xs = sort ys"
      using Some w f g by (intro join_options_inject) (auto simp: valid_options_def sort_Nil)
    then show ?thesis
      using Some w f g sort_distinct_eq [of xs ys] by (auto simp: paymentOptionIdentity_def valid_options_def)
  qed
qed

lemma payment_identity_eq:
  assumes "valid_payment f" and "valid_payment g"
  shows "payment_identity f = payment_identity g \<longleftrightarrow> payment_key f = payment_key g"
proof -
  have plain: "CHR 0x00 \<notin> set (pf_name f)" "CHR 0x00 \<notin> set (pf_name g)"
    "CHR 0x00 \<notin> set (pf_authentication f)" "CHR 0x00 \<notin> set (pf_authentication g)"
    using assms by (auto simp: valid_payment_def)
  show ?thesis
    using assms paymentOptionIdentity_eq [of "pf_options f" "pf_options g"]
    by (simp add: payment_identity_def payment_key_def identity_parts plain valid_payment_def)
qed

lemma payment_filters_loop_Inr:
  "payment_filters_loop seen fs = Inr u \<longleftrightarrow>
    (\<forall>f\<in>set fs. valid_payment f) \<and> distinct (map payment_identity fs) \<and>
    payment_identity ` set fs \<inter> set seen = {}"
  by (induction seen fs rule: payment_filters_loop.induct)
    (auto simp: valid_payment_def validAuthentication_def payment_name_def bind_res_Inr validatePaymentOptions_Inr)

lemma validatePaymentFilters_Inr:
  "validatePaymentFilters values = Inr r \<longleftrightarrow> r = values \<and>
    (\<forall>fs. values = Some fs \<longrightarrow>
      fs \<noteq> [] \<and> length fs \<le> 32 \<and> (\<forall>x\<in>set fs. valid_payment x) \<and> distinct (map payment_key fs))"
proof (cases "values")
  case (Some fs)
  have "distinct (map payment_identity fs) \<longleftrightarrow> distinct (map payment_key fs)"
    if "\<forall>x\<in>set fs. valid_payment x"
    using that by (intro distinct_map_cong) (simp only: payment_identity_eq)
  then show ?thesis
    using Some
    by (auto simp: validatePaymentFilters_def bind_res_Inr payment_filters_loop_Inr maximumPaymentFilters_def)
qed (auto simp: validatePaymentFilters_def)

lemma uniqueText_Inr:
  "uniqueText values name n m = Inr r \<longleftrightarrow> r = values \<and>
    (\<forall>texts. values = Some texts \<longrightarrow>
      texts \<noteq> [] \<and> length texts \<le> n \<and> distinct texts \<and> (\<forall>t\<in>set texts. valid_text m t))"
  by (cases "values") (auto simp: uniqueText_def bind_res_Inr require_all_Inr unique_distinct)

lemma descriptor_filters_Inr:
  "enrollmentFilters v = Inr r \<longleftrightarrow> r = v \<and> v \<in> {None, Some [''aep'']}"
  "validateTrustFilters v = Inr r \<longleftrightarrow> r = v \<and> v \<in> {None, Some [''tap'']}"
  by (auto simp: enrollmentFilters_def validateTrustFilters_def split: option.splits)

text \<open>C31: filters are sent exactly when they are valid, and then as the caller wrote them: the identities the code compares
  tell two payment filters apart by protocol, authentication and set of options.\<close>

theorem validateFilters_iff:
  "validateFilters f = Inr g \<longleftrightarrow> g = f \<and> valid_filters f"
  by (auto simp: validateFilters_def bind_res_Inr check_sources_Inr uniqueText_Inr descriptor_filters_Inr
      validateOperationFilters_Inr validatePaymentFilters_Inr valid_filters_def)

end
