(* ===== verification/DirectoryPages.thy ===== *)
theory DirectoryPages
  imports DirectoryFilters GoFloat GoTime
begin

section \<open>The Directory client: what a Directory answers\<close>

text \<open>
  The parsers of \<open>directory/validation.go\<close>, \<open>source.go\<close> and \<open>search.go\<close>.  A
  \<open>json.RawMessage\<close> is the value it spells, \<open>None\<close> when the member is absent (\<open>nil\<close>, which
  \<open>json.Unmarshal\<close> refuses).  A slice of a result that is \<open>nil\<close> is the empty list, except in
  \<open>facets\<close>; \<open>cloneAdditional\<close> answers \<open>None\<close> for \<open>nil\<close>.  Where the code ranges over a map of
  destinations, Go chooses the order; the model takes that of the source, and only which of several
  invalid members the error names depends on it.
\<close>

subsection \<open>Decoding\<close>

definition parse_map :: "json option \<Rightarrow> directory_error + obj" where
  "parse_map data =
     (case data of
        Some (JObj object) \<Rightarrow> Inr object | Some JNull \<Rightarrow> Inr [] | _ \<Rightarrow> Inl Undecoded)"

definition decode_into :: "gtype \<Rightarrow> json option \<Rightarrow> gval option" where
  "decode_into t data =
     (case data of
        None \<Rightarrow> None
      | Some v \<Rightarrow> (case unmarshal t v (zero t) of Inl _ \<Rightarrow> None | Inr x \<Rightarrow> Some x))"

definition decode_string :: "json option \<Rightarrow> string option" where
  "decode_string data =
     (case data of Some (JStr s) \<Rightarrow> Some s | Some JNull \<Rightarrow> Some [] | _ \<Rightarrow> None)"

definition cloneAdditional :: "obj \<Rightarrow> string list \<Rightarrow> obj option" where
  "cloneAdditional object known =
     (let rest = filter (\<lambda>(name, _). name \<notin> set known) object in if rest = [] then None else Some rest)"

definition requiredText :: "json option \<Rightarrow> string \<Rightarrow> nat \<Rightarrow> nat \<Rightarrow> directory_error + string" where
  "requiredText data name minimum maximum =
     (case decode_string data of
        None \<Rightarrow> Inl (invalid name) | Some text \<Rightarrow> requireText text name minimum maximum)"

definition optionalText :: "json option \<Rightarrow> string \<Rightarrow> nat \<Rightarrow> directory_error + string" where
  "optionalText data name maximum =
     (if data = None \<or> data = Some JNull then Inr [] else requiredText data name 1 maximum)"

definition decodeRequired :: "obj \<Rightarrow> string \<Rightarrow> gtype \<Rightarrow> directory_error + gval" where
  "decodeRequired object name t =
     (case decode_into t (map_of object name) of None \<Rightarrow> Inl (invalid name) | Some x \<Rightarrow> Inr x)"

text \<open>A member that may be absent: what is decoded when it is there.\<close>

definition decodeOptional :: "obj \<Rightarrow> string \<Rightarrow> gtype \<Rightarrow> directory_error \<Rightarrow> directory_error + gval" where
  "decodeOptional object name t err =
     (case map_of object name of
        None \<Rightarrow> Inr (zero t)
      | Some raw \<Rightarrow> (case decode_into t (Some raw) of None \<Rightarrow> Inl err | Some x \<Rightarrow> Inr x))"

subsection \<open>\<open>time.Parse\<close> with \<open>RFC3339Nano\<close>\<close>

text \<open>The zone: \<open>Z\<close>, or a sign, hours and minutes, which may be 24 and 60.\<close>

definition zone_field :: "string \<Rightarrow> (int \<times> string) option" where
  "zone_field v =
     (if has_prefix v ''Z'' then Some (0, tl v)
      else if length v < 6 \<or> v ! 3 \<noteq> CHR '':'' then None
      else
        (case (getnum (take 2 (drop 1 v)) True, getnum (take 2 (drop 4 v)) True) of
           (Some (hours, _), Some (minutes, _)) \<Rightarrow>
             if hours > 24 \<or> minutes > 60 then None
             else if hd v = CHR ''+'' then Some (hours * 3600 + minutes * 60, drop 6 v)
             else if hd v = CHR ''-'' then Some (- (hours * 3600 + minutes * 60), drop 6 v)
             else None
         | _ \<Rightarrow> None))"

definition parse_rfc3339 :: "string \<Rightarrow> int option" where
  "parse_rfc3339 v =
     Option.bind (long_year v) (\<lambda>(year, v).
     Option.bind (skip v ''-'') (\<lambda>v.
     Option.bind (getnum v True) (\<lambda>(month, v).
     if month < 1 \<or> 12 < month then None else
     Option.bind (skip v ''-'') (\<lambda>v.
     Option.bind (getnum v True) (\<lambda>(day, v).
     Option.bind (skip v ''T'') (\<lambda>v.
     Option.bind (clock_field v) (\<lambda>(clock, v).
     Option.bind (zone_field v) (\<lambda>(offset, v).
     if v \<noteq> [] then None
     else map_option (\<lambda>t. t - offset * second) (date_time year (nat month - 1) day clock)))))))))"

definition parse_stamp :: "json option \<Rightarrow> directory_error + int" where
  "parse_stamp data =
     bind_res (requiredText data ''indexed_at'' 1 64) (\<lambda>text.
       case parse_rfc3339 (to_upper_ascii text) of
         None \<Rightarrow> Inl (Failure ''indexed_at must be a date-time'') | Some t \<Rightarrow> Inr t)"

subsection \<open>Origins\<close>

definition publicHTTPSOrigin :: "string \<Rightarrow> bool" where
  "publicHTTPSOrigin origin =
     (case Parse origin of
        None \<Rightarrow> False
      | Some parsed \<Rightarrow>
          (let h = to_lower (Hostname parsed) in
           scheme parsed = ''https'' \<and> h \<noteq> ''localhost'' \<and> \<not> has_suffix h ''.localhost'' \<and>
           (case ParseAddr (trim_chars ''[]'' h) of
              None \<Rightarrow> True
            | Some address \<Rightarrow>
                (let a = Unmap address in
                 addr_global_unicast a \<and> \<not> addr_private a \<and> \<not> addr_loopback a \<and> \<not> addr_link_local a \<and>
                 \<not> prefix_contains ([100, 64, 0, 0], 10) a))))"

definition canonical_public :: "(string \<Rightarrow> string option) \<Rightarrow> string \<Rightarrow> bool" where
  "canonical_public to_ascii origin \<longleftrightarrow>
     DeriveServiceOrigin to_ascii origin = Inr origin \<and> publicHTTPSOrigin origin"

subsection \<open>Descriptors\<close>

definition EnrollmentProtocol :: "string \<Rightarrow> gval" where
  "EnrollmentProtocol name = GStruct [(''Name'', GStr name)]"

definition parseEnrollment :: "json option \<Rightarrow> directory_error + gval" where
  "parseEnrollment data =
     (let err = Failure ''enrollment descriptor is invalid'' in
      case parse_map data of
        Inl _ \<Rightarrow> Inl err
      | Inr object \<Rightarrow>
          if length object = 1 \<and> decode_string (map_of object ''name'') = Some ''aep''
          then Inr (EnrollmentProtocol ''aep'') else Inl err)"

definition parseOperation :: "json option \<Rightarrow> directory_error + gval" where
  "parseOperation data =
     (let err = Failure ''operation descriptor is invalid'' in
      case parse_map data of
        Inl _ \<Rightarrow> Inl err
      | Inr object \<Rightarrow>
          (case (decode_string (map_of object ''authentication''), decode_string (map_of object ''name'')) of
             (Some authentication, Some name) \<Rightarrow>
               if length object = 2 \<and> validAuthentication authentication True \<and> name \<in> set directory_operations
               then Inr (GStruct [(''Authentication'', GStr authentication), (''Name'', GStr name)])
               else Inl err
           | _ \<Rightarrow> Inl err))"

definition option_list :: "gval \<Rightarrow> string list option" where
  "option_list v =
     (case v of GSlice (Some vs) \<Rightarrow> Some (map (\<lambda>x. case x of GStr s \<Rightarrow> s | _ \<Rightarrow> []) vs) | _ \<Rightarrow> None)"

definition parsePayment :: "json option \<Rightarrow> directory_error + gval" where
  "parsePayment data =
     (let err = Failure ''payment descriptor is invalid'' in
      case parse_map data of
        Inl _ \<Rightarrow> Inl err
      | Inr object \<Rightarrow>
          if length object < 2 \<or> length object > 3 \<or> map_of object ''authentication'' = None \<or>
             map_of object ''name'' = None \<or>
             \<not> list_all (\<lambda>(name, _). name \<in> {''authentication'', ''name'', ''options''}) object
          then Inl err
          else
            (case decode_into PaymentProtocol_type data of
               None \<Rightarrow> Inl err
             | Some v \<Rightarrow>
                 if validAuthentication (str_field v ''Authentication'') False \<and>
                    payment_name (str_field v ''Name'') \<and>
                    validatePaymentOptions (option_list (field_of v ''Options'')) = Inr ()
                 then Inr v else Inl err))"

definition PaymentOptionFacetValue_type :: gtype where
  "PaymentOptionFacetValue_type = TStruct [(''Name'', ''name'', TString), (''Option'', ''option'', TString)]"

definition parsePaymentOptionFacet :: "json option \<Rightarrow> directory_error + gval" where
  "parsePaymentOptionFacet data =
     (let err = Failure ''payment option facet is invalid'' in
      case parse_map data of
        Inl _ \<Rightarrow> Inl err
      | Inr object \<Rightarrow>
          if length object \<noteq> 2 \<or> map_of object ''name'' = None \<or> map_of object ''option'' = None
          then Inl err
          else
            (case decode_into PaymentOptionFacetValue_type data of
               None \<Rightarrow> Inl err
             | Some v \<Rightarrow>
                 if payment_name (str_field v ''Name'') \<and> IsPaymentOption (str_field v ''Option'')
                 then Inr v else Inl err))"

definition parseTrust :: "json option \<Rightarrow> directory_error + gval" where
  "parseTrust data =
     (let err = Failure ''trust descriptor is invalid'' in
      case parse_map data of
        Inl _ \<Rightarrow> Inl err
      | Inr object \<Rightarrow>
          if length object \<noteq> 1 then Inl err
          else
            (case decode_into TrustProtocol_type data of
               None \<Rightarrow> Inl err
             | Some v \<Rightarrow> if str_field v ''Name'' = ''tap'' then Inr v else Inl err))"

subsection \<open>Facets\<close>

record 'v facet =
  fc_count :: int
  fc_value :: 'v

record facets =
  fs_enrollment :: "gval facet list option"
  fs_keywords :: "string facet list option"
  fs_operations :: "gval facet list option"
  fs_payment_options :: "gval facet list option"
  fs_payments :: "gval facet list option"
  fs_trust :: "gval facet list option"

text \<open>The whole numbers of a \<open>float64\<close> up to \<open>2 ^ 53 - 1\<close>, after those of an \<open>int64\<close>.\<close>

definition whole_float :: "bool \<times> float64 \<Rightarrow> int option" where
  "whole_float f =
     (case float_ratio (snd f) of (p, q) \<Rightarrow>
        if p mod q \<noteq> 0 \<or> p div q > 9007199254740991 then None
        else Some (if fst f then - (p div q) else p div q))"

definition strconvInt64 :: "string \<Rightarrow> directory_error + int" where
  "strconvInt64 literal =
     (case parse_int literal of
        Some n \<Rightarrow> Inr n
      | None \<Rightarrow>
          (case Option.bind (ParseFloat literal) whole_float of
             Some n \<Rightarrow> Inr n | None \<Rightarrow> Inl (Failure ''value is not an integer'')))"

text \<open>The text of any other value is no number.\<close>

definition facetCount :: "json option \<Rightarrow> directory_error + int" where
  "facetCount raw =
     (case raw of
        None \<Rightarrow> Inl (Failure ''count must be a number'')
      | Some (JStr _) \<Rightarrow> Inl (Failure ''count must be a number'')
      | Some (JNum literal) \<Rightarrow> strconvInt64 literal
      | Some _ \<Rightarrow> Inl (Failure ''value is not an integer''))"

definition facet_entry_type :: "gtype \<Rightarrow> gtype" where
  "facet_entry_type t = TStruct [(''Count'', ''count'', TRaw), (''Value'', ''value'', t)]"

definition raw_field :: "gval \<Rightarrow> string \<Rightarrow> json option" where
  "raw_field entry name = (case field_of entry name of GRaw raw \<Rightarrow> raw | _ \<Rightarrow> None)"

definition facet_entries :: "gtype \<Rightarrow> json \<Rightarrow> string \<Rightarrow> directory_error + gval list" where
  "facet_entries t data name =
     (case decode_into (TSlice (facet_entry_type t)) (Some data) of
        None \<Rightarrow> Inl (Failure (name @ '' facets are invalid''))
      | Some v \<Rightarrow>
          (let entries = (case v of GSlice (Some vs) \<Rightarrow> vs | _ \<Rightarrow> []) in
           if length entries > 100 then Inl (Failure (name @ '' facets are invalid'')) else Inr entries))"

definition with_count :: "string \<Rightarrow> gval \<Rightarrow> 'v \<Rightarrow> directory_error + 'v facet" where
  "with_count name entry v =
     (let err = Failure (name @ '' facet count is invalid'') in
      case facetCount (raw_field entry ''Count'') of
        Inl _ \<Rightarrow> Inl err
      | Inr count \<Rightarrow> if count < 0 then Inl err else Inr \<lparr>fc_count = count, fc_value = v\<rparr>)"

definition parseFacet ::
  "json option \<Rightarrow> string \<Rightarrow> string list option \<Rightarrow> directory_error + string facet list option" where
  "parseFacet data name allowed =
     (case data of
        None \<Rightarrow> Inr None
      | Some raw \<Rightarrow>
          bind_res (facet_entries TString raw name) (\<lambda>entries.
          bind_res (map_res (\<lambda>entry.
              case requireText (str_field entry ''Value'') (name @ '' facet value'') 1 128 of
                Inl _ \<Rightarrow> Inl (Failure (name @ '' facet value is invalid''))
              | Inr text \<Rightarrow>
                  if (case allowed of None \<Rightarrow> False | Some texts \<Rightarrow> text \<notin> set texts)
                  then Inl (Failure (name @ '' facet value is invalid''))
                  else with_count name entry text) entries)
            (\<lambda>result. Inr (Some result))))"

definition parseDescriptorFacet ::
  "json option \<Rightarrow> string \<Rightarrow> (json option \<Rightarrow> directory_error + 'v) \<Rightarrow>
   directory_error + 'v facet list option" where
  "parseDescriptorFacet data name parse =
     (case data of
        None \<Rightarrow> Inr None
      | Some raw \<Rightarrow>
          bind_res (facet_entries TRaw raw name) (\<lambda>entries.
          bind_res (map_res (\<lambda>entry.
              case parse (raw_field entry ''Value'') of
                Inl _ \<Rightarrow> Inl (Failure (name @ '' facet value is invalid''))
              | Inr v \<Rightarrow> with_count name entry v) entries)
            (\<lambda>result. Inr (Some result))))"

definition parseFacets :: "json \<Rightarrow> directory_error + facets" where
  "parseFacets data =
     (case parse_map (Some data) of
        Inl _ \<Rightarrow> Inl (Failure ''Directory facets must be an object'')
      | Inr object \<Rightarrow>
          bind_res (parseFacet (map_of object ''keywords'') ''keywords'' None) (\<lambda>keywords.
          bind_res (parseDescriptorFacet (map_of object ''enrollment'') ''enrollment'' parseEnrollment)
            (\<lambda>enrollment.
          bind_res (parseDescriptorFacet (map_of object ''operations'') ''operations'' parseOperation)
            (\<lambda>operation_facets.
          bind_res (parseDescriptorFacet (map_of object ''payment_options'') ''payment_options''
              parsePaymentOptionFacet)
            (\<lambda>options.
          bind_res (parseDescriptorFacet (map_of object ''payments'') ''payments'' parsePayment) (\<lambda>payments.
          bind_res (parseDescriptorFacet (map_of object ''trust'') ''trust'' parseTrust) (\<lambda>trust.
            Inr \<lparr>fs_enrollment = enrollment, fs_keywords = keywords, fs_operations = operation_facets,
              fs_payment_options = options, fs_payments = payments, fs_trust = trust\<rparr>)))))))"

subsection \<open>Pages\<close>

record issue_report =
  ir_index :: nat
  ir_error :: directory_error
  ir_scope :: string

record 'item search_response =
  rs_additional :: "obj option"
  rs_facets :: "facets option"
  rs_issues :: "issue_report list"
  rs_items :: "'item list"
  rs_next :: string

text \<open>The loop over the items; an \<open>Issue\<close> keeps the error whose text is its message.\<close>

fun page_items_loop ::
  "(json \<Rightarrow> directory_error + 'item) \<Rightarrow> string \<Rightarrow> nat \<Rightarrow> json list \<Rightarrow> 'item list \<times> issue_report list" where
  "page_items_loop parse scope index [] = ([], [])"
| "page_items_loop parse scope index (x # xs) =
     (case page_items_loop parse scope (Suc index) xs of (good, bad) \<Rightarrow>
        (case parse x of
           Inl err \<Rightarrow> (good, \<lparr>ir_index = index, ir_error = err, ir_scope = scope\<rparr> # bad)
         | Inr item \<Rightarrow> (item # good, bad)))"

definition page_values :: "obj \<Rightarrow> directory_error + json list" where
  "page_values object =
     (case map_of object ''items'' of
        Some (JArr xs) \<Rightarrow>
          if length xs > 100 then Inl (Failure ''Directory search page items are invalid'') else Inr xs
      | _ \<Rightarrow> Inl (Failure ''Directory search page items are invalid''))"

definition optional_facets :: "obj \<Rightarrow> directory_error + facets option" where
  "optional_facets object =
     (case map_of object ''facets'' of
        None \<Rightarrow> Inr None | Some raw \<Rightarrow> bind_res (parseFacets raw) (\<lambda>parsed. Inr (Some parsed)))"

definition parsePage ::
  "(json \<Rightarrow> directory_error + 'item) \<Rightarrow> string \<Rightarrow> string \<Rightarrow> directory_error + 'item search_response" where
  "parsePage parse scope data =
     bind_res (parse_map (decode_text data)) (\<lambda>object.
     bind_res (page_values object) (\<lambda>entries.
     bind_res (optionalText (map_of object ''next'') ''next'' 2048) (\<lambda>next_link.
     bind_res (optional_facets object) (\<lambda>parsed.
       case page_items_loop parse scope 0 entries of (good, bad) \<Rightarrow>
         Inr \<lparr>rs_additional = cloneAdditional object [''items'', ''next'', ''facets''],
           rs_facets = parsed, rs_issues = bad, rs_items = good, rs_next = next_link\<rparr>))))"

fun suggestions_loop :: "string list \<Rightarrow> string list \<Rightarrow> directory_error + string list" where
  "suggestions_loop result [] = Inr result"
| "suggestions_loop result (item # rest) =
     bind_res (requireText item ''suggestions'' 1 128) (\<lambda>text.
       if text \<in> set result then suggestions_loop result rest
       else if length result + 1 = 25 then Inr (result @ [text])
       else suggestions_loop (result @ [text]) rest)"

definition parseSuggestions :: "string \<Rightarrow> directory_error + string list" where
  "parseSuggestions data =
     (case parse_map (decode_text data) of
        Inl _ \<Rightarrow> Inl (Failure ''Directory suggestions must be an object'')
      | Inr object \<Rightarrow>
          (case map_of object ''items'' of
             Some (JArr xs) \<Rightarrow>
               (case decode_into (TSlice TString) (Some (JArr xs)) of
                  None \<Rightarrow> Inl (Failure ''suggestions are invalid'')
                | Some v \<Rightarrow>
                    suggestions_loop [] (case option_list v of None \<Rightarrow> [] | Some texts \<Rightarrow> texts))
           | _ \<Rightarrow> Inl (Failure ''suggestions are invalid'')))"

subsection \<open>A page accounts for every record\<close>

text \<open>The records that parse, in order, and the others with their positions.\<close>

definition parsed_records :: "(json \<Rightarrow> directory_error + 'item) \<Rightarrow> json list \<Rightarrow> 'item list" where
  "parsed_records parse xs = concat (map (\<lambda>x. case parse x of Inl _ \<Rightarrow> [] | Inr item \<Rightarrow> [item]) xs)"

definition failed_records ::
  "(json \<Rightarrow> directory_error + 'item) \<Rightarrow> json list \<Rightarrow> (nat \<times> directory_error) list" where
  "failed_records parse xs =
     concat (map (\<lambda>(index, x). case parse x of Inl err \<Rightarrow> [(index, err)] | Inr _ \<Rightarrow> [])
       (enumerate 0 xs))"

lemma page_items_loop_parts:
  "page_items_loop parse scope index xs = (good, bad) \<Longrightarrow>
    good = parsed_records parse xs \<and>
    map (\<lambda>i. (ir_index i, ir_error i)) bad =
      concat (map (\<lambda>(index, x). case parse x of Inl err \<Rightarrow> [(index, err)] | Inr _ \<Rightarrow> [])
        (enumerate index xs))"
proof (induction xs arbitrary: index good bad)
  case (Cons x xs)
  then show ?case
    by (cases "page_items_loop parse scope (Suc index) xs")
      (auto simp: parsed_records_def split: sum.splits)
qed (simp add: parsed_records_def)

lemma record_count: "length (parsed_records parse xs) + length (failed_records parse xs) = length xs"
proof -
  have "length (parsed_records parse xs) +
      length (concat (map (\<lambda>(index, x). case parse x of Inl err \<Rightarrow> [(index, err)] | Inr _ \<Rightarrow> [])
        (enumerate n xs))) = length xs" for n
    by (induction xs arbitrary: n) (auto simp: parsed_records_def split: sum.splits)
  then show ?thesis by (simp add: failed_records_def)
qed

lemma parsePage_Inr:
  assumes "parsePage parse scope data = Inr page"
  shows "\<exists>object xs. parse_map (decode_text data) = Inr object \<and> page_values object = Inr xs \<and>
    rs_items page = parsed_records parse xs \<and>
    map (\<lambda>i. (ir_index i, ir_error i)) (rs_issues page) = failed_records parse xs"
proof -
  obtain object xs where page: "parse_map (decode_text data) = Inr object" "page_values object = Inr xs"
    "page_items_loop parse scope 0 xs = (rs_items page, rs_issues page)"
    using assms by (auto simp: parsePage_def bind_res_Inr case_prod_beta)
  then show ?thesis using page_items_loop_parts [OF page(3)] by (auto simp: failed_records_def)
qed

text \<open>C32: every record of a page is an item or an issue: the items are the records that parse, in order, and the issues
  name the positions and errors of the others.\<close>

theorem parsePage_accounts:
  assumes "parsePage parse scope data = Inr page"
  shows "\<exists>object xs. parse_map (decode_text data) = Inr object \<and> map_of object ''items'' = Some (JArr xs) \<and>
    rs_items page = parsed_records parse xs \<and>
    map (\<lambda>i. (ir_index i, ir_error i)) (rs_issues page) = failed_records parse xs \<and>
    length (rs_items page) + length (rs_issues page) = length xs \<and> length xs \<le> 100"
proof -
  obtain object xs where page: "parse_map (decode_text data) = Inr object" "page_values object = Inr xs"
    "rs_items page = parsed_records parse xs"
    "map (\<lambda>i. (ir_index i, ir_error i)) (rs_issues page) = failed_records parse xs"
    using parsePage_Inr [OF assms] by blast
  have "map_of object ''items'' = Some (JArr xs)" "length xs \<le> 100"
    using page(2) by (auto simp: page_values_def split: option.splits json.splits if_splits)
  moreover have "length (rs_issues page) = length (failed_records parse xs)"
    using page(4) by (metis length_map)
  ultimately show ?thesis
    using page record_count [of parse xs] by (intro exI [of _ object] exI [of _ xs]) simp
qed

text \<open>One good record, one bad.\<close>

definition example_results :: string where
  "example_results = ''{'' @ CHR 0x22 # ''items'' @ CHR 0x22 # '':[true,null]}''"

lemma example_results_parsed:
  "parsePage (\<lambda>x. if x = JNull then Inl Undecoded else Inr x) ''result'' example_results =
     Inr \<lparr>rs_additional = None, rs_facets = None,
       rs_issues = [\<lparr>ir_index = 1, ir_error = Undecoded, ir_scope = ''result''\<rparr>],
       rs_items = [JBool True], rs_next = []\<rparr>"
  by code_simp

theorem parsePage_accounts_witness:
  "\<exists>object xs. parse_map (decode_text example_results) = Inr object \<and> map_of object ''items'' = Some (JArr xs) \<and>
    [JBool True] = parsed_records (\<lambda>x. if x = JNull then Inl Undecoded else Inr x) xs \<and> length xs \<le> 100"
  using parsePage_accounts [OF example_results_parsed] by auto

lemma parsePage_items:
  "parsePage parse scope data = Inr page \<Longrightarrow> item \<in> set (rs_items page) \<Longrightarrow> \<exists>x. parse x = Inr item"
  using parsePage_Inr [of parse scope data page] by (fastforce simp: parsed_records_def split: sum.splits)

end
