(* ===== verification/DirectoryServices.thy ===== *)
theory DirectoryServices
  imports DirectoryPages
begin

section \<open>The Directory client: indexed Services and Collections\<close>

text \<open>
  \<open>parseService\<close>, \<open>parseIndexedService\<close> and \<open>parseResult\<close> with what they call: the records of a
  page, whose origins are checked before a caller can see them.  The validator of Service Documents
  and the IDNA mapping are parameters, as in \<open>Validation\<close> and \<open>References\<close>.
\<close>

record directory_env =
  dv_schemas :: schema_env
  dv_to_ascii :: "string \<Rightarrow> string option"

definition unverifiedMembers :: "string list" where
  "unverifiedMembers =
     [''branding'', ''http'', ''mcp'', ''odp_version'', ''payment_origins'', ''search_capabilities'']"

record directory_service =
  sv_additional :: "obj option"
  sv_description :: string
  sv_documentation_url :: string
  sv_indexed_at :: int
  sv_keywords :: "string list"
  sv_language :: string
  sv_localizations :: "string list"
  sv_name :: string
  sv_operations :: "gval list"
  sv_protocols :: "gval option"
  sv_origin :: string
  sv_status_url :: string
  sv_support_url :: string
  sv_website_url :: string

record source_info =
  so_additional :: "obj option"
  so_type :: string
  so_url :: string
  so_x402_discovery :: bool

record indexed_service =
  is_service :: directory_service
  is_service_id :: string
  is_source :: source_info

record service_reference =
  ref_additional :: "obj option"
  ref_service_id :: string
  ref_service_origin :: string
  ref_name :: string

record publisher_info =
  pb_additional :: "obj option"
  pb_id :: string
  pb_name :: string
  pb_website_url :: string

record collection_summary =
  cs_additional :: "obj option"
  cs_id :: string
  cs_name :: string
  cs_description :: string

text \<open>\<open>None\<close> is the zero \<open>time.Time\<close>.\<close>

record directory_result =
  dr_additional :: "obj option"
  dr_type :: string
  dr_service :: "indexed_service option"
  dr_collection :: "collection_summary option"
  dr_publisher :: "publisher_info option"
  dr_indexed_at :: "int option"
  dr_raw :: "json option"

subsection \<open>\<open>parseService\<close>\<close>

text \<open>A Service origin a third party supplied.\<close>

definition checked_origin ::
  "directory_env \<Rightarrow> json option \<Rightarrow> string \<Rightarrow> directory_error + string" where
  "checked_origin env data text =
     bind_res (requiredText data ''service_origin'' 1 2048) (\<lambda>origin.
       if canonical_public (dv_to_ascii env) origin then Inr origin else Inl (Failure text))"

text \<open>The Service Document the members are decoded into, as the schema is to see it: what the
  encoding would leave out because it is empty is put back as it was sent.\<close>

definition service_fields :: "obj \<Rightarrow> directory_error + (string \<times> gval) list" where
  "service_fields object =
     bind_res (decodeRequired object ''name'' TString) (\<lambda>name.
     bind_res (decodeRequired object ''description'' TString) (\<lambda>description.
     bind_res (decodeOptional object ''documentation_url'' TString
         (Failure ''documentation_url is invalid'')) (\<lambda>documentation.
     bind_res (decodeRequired object ''language'' TString) (\<lambda>language.
     bind_res (decodeRequired object ''localizations'' (TSlice TString)) (\<lambda>localizations.
     bind_res (decodeRequired object ''operations'' (TSlice OperationDescriptor_type)) (\<lambda>ops.
     bind_res (decodeOptional object ''keywords'' (TSlice TString) (Failure ''keywords are invalid''))
       (\<lambda>keywords.
     bind_res (decodeOptional object ''status_url'' TString (invalid ''status_url'')) (\<lambda>status.
     bind_res (decodeOptional object ''support_url'' TString (invalid ''support_url'')) (\<lambda>support.
     bind_res (decodeOptional object ''website_url'' TString (invalid ''website_url'')) (\<lambda>website.
       Inr [(''Name'', name), (''Description'', description), (''DocumentationURL'', documentation),
         (''Language'', language), (''Localizations'', localizations), (''Operations'', ops),
         (''Keywords'', keywords), (''StatusURL'', status), (''SupportURL'', support),
         (''WebsiteURL'', website)]))))))))))"

definition service_value :: "(string \<times> gval) list \<Rightarrow> gval" where
  "service_value known =
     fold (\<lambda>(name, v). set_field name v) known
       (set_field ''HTTP''
          (set_field ''EndpointBase'' (GStr ''/'') (zero HTTPConfiguration_type))
          (set_field ''ODPVersion'' (GStr Version) (zero ServiceDocument_type)))"

definition splice :: "obj \<Rightarrow> json \<Rightarrow> json" where
  "splice object written =
     JObj (sort_key fst
       (fold (\<lambda>name document.
            case map_of object name of None \<Rightarrow> document | Some raw \<Rightarrow> AList.update name raw document)
          [''documentation_url'', ''keywords'', ''protocols'', ''status_url'', ''support_url'', ''website_url'']
          (case written of JObj members \<Rightarrow> members | _ \<Rightarrow> [])))"

definition parse_document :: "directory_env \<Rightarrow> json \<Rightarrow> directory_error + gval" where
  "parse_document env document =
     (case ParseAgentServiceDocument (dv_schemas env) (Decoded document EndOfInput) of
        Inl err \<Rightarrow> Inl (Document err) | Inr v \<Rightarrow> Inr v)"

definition service_known :: "string list" where
  "service_known =
     [''service_origin'', ''name'', ''description'', ''documentation_url'', ''language'', ''localizations'',
      ''keywords'', ''operations'', ''protocols'', ''indexed_at'', ''status_url'', ''support_url'',
      ''website_url'']"

definition parseService :: "directory_env \<Rightarrow> json \<Rightarrow> directory_error + directory_service" where
  "parseService env data =
     bind_res (parse_map (Some data)) (\<lambda>object.
     bind_res (checked_origin env (map_of object ''service_origin'')
         ''Directory Service origin must be a canonical public HTTPS origin'') (\<lambda>origin.
     bind_res (service_fields object) (\<lambda>known.
     bind_res (parse_document env (splice object (marshal ServiceDocument_type (service_value known))))
       (\<lambda>document.
     bind_res (parse_stamp (map_of object ''indexed_at'')) (\<lambda>indexed_at.
       Inr \<lparr>sv_additional = cloneAdditional object (service_known @ unverifiedMembers),
         sv_description = str_field document ''Description'',
         sv_documentation_url = str_field document ''DocumentationURL'', sv_indexed_at = indexed_at,
         sv_keywords = strs_field document ''Keywords'', sv_language = str_field document ''Language'',
         sv_localizations = strs_field document ''Localizations'', sv_name = str_field document ''Name'',
         sv_operations = list_field document ''Operations'', sv_protocols = ptr_field document ''Protocols'',
         sv_origin = origin, sv_status_url = str_field document ''StatusURL'',
         sv_support_url = str_field document ''SupportURL'',
         sv_website_url = str_field document ''WebsiteURL''\<rparr>)))))"

subsection \<open>\<open>source.go\<close>\<close>

definition public_document :: "string \<Rightarrow> bool" where
  "public_document address \<longleftrightarrow>
     (case Parse address of
        None \<Rightarrow> False
      | Some parsed \<Rightarrow>
          Hostname parsed \<noteq> [] \<and> \<not> has_user parsed \<and> CHR ''#'' \<notin> set address \<and> publicHTTPSOrigin address)"

definition parseSource :: "json option \<Rightarrow> directory_error + source_info" where
  "parseSource data =
     bind_res (parse_map data) (\<lambda>object.
     bind_res (requiredText (map_of object ''type'') ''source.type'' 1 128) (\<lambda>kind.
     bind_res (requiredText (map_of object ''url'') ''source.url'' 1 2048) (\<lambda>address.
     bind_res (guard_res (public_document address) (Failure
         ''source.url must be a public HTTPS document URL without credentials or a fragment'')) (\<lambda>_.
     bind_res
       (case map_of object ''x402_discovery'' of
          Some (JBool discovery) \<Rightarrow> Inr discovery
        | _ \<Rightarrow> Inl (Failure ''source.x402_discovery must be a boolean'')) (\<lambda>discovery.
       Inr \<lparr>so_additional = cloneAdditional object [''type'', ''url'', ''x402_discovery''],
         so_type = kind, so_url = address, so_x402_discovery = discovery\<rparr>)))))"

definition parseServiceReference ::
  "directory_env \<Rightarrow> json \<Rightarrow> directory_error + service_reference" where
  "parseServiceReference env data =
     bind_res (parse_map (Some data)) (\<lambda>object.
     bind_res (requiredText (map_of object ''service_id'') ''service_id'' 1 128) (\<lambda>ident.
     bind_res (checked_origin env (map_of object ''service_origin'')
         ''Service origin must be a canonical public HTTPS origin'') (\<lambda>origin.
     bind_res
       (case map_of object ''name'' of
          None \<Rightarrow> Inr [] | Some raw \<Rightarrow> requiredText (Some raw) ''name'' 1 128) (\<lambda>name.
       Inr \<lparr>ref_additional = cloneAdditional object [''service_id'', ''service_origin'', ''name''],
         ref_service_id = ident, ref_service_origin = origin, ref_name = name\<rparr>))))"

text \<open>A descriptor whose protocol is unknown is passed over; one without a name is an error.\<close>

fun descriptors_loop ::
  "string list \<Rightarrow> (json option \<Rightarrow> directory_error + gval) \<Rightarrow> json list \<Rightarrow> directory_error + gval list" where
  "descriptors_loop known parse [] = Inr []"
| "descriptors_loop known parse (raw # rest) =
     (case decode_into (TStruct [(''Name'', ''name'', TString)]) (Some raw) of
        None \<Rightarrow> Inl (Failure ''protocol descriptor must have a name'')
      | Some descriptor \<Rightarrow>
          if str_field descriptor ''Name'' = [] then
            Inl (Failure ''protocol descriptor must have a name'')
          else if str_field descriptor ''Name'' \<notin> set known then descriptors_loop known parse rest
          else
            bind_res (parse (Some raw)) (\<lambda>v.
            bind_res (descriptors_loop known parse rest) (\<lambda>vs. Inr (v # vs))))"

definition importedDescriptors ::
  "json option \<Rightarrow> string list \<Rightarrow> (json option \<Rightarrow> directory_error + gval) \<Rightarrow>
   directory_error + gval list option" where
  "importedDescriptors data known parse =
     (case data of
        None \<Rightarrow> Inr None
      | Some (JArr xs) \<Rightarrow>
          bind_res (descriptors_loop known parse xs) (\<lambda>vs. Inr (if vs = [] then None else Some vs))
      | Some _ \<Rightarrow> Inl (Failure ''protocol descriptors must be an array''))"

definition parseImportedProtocols :: "json \<Rightarrow> directory_error + gval" where
  "parseImportedProtocols data =
     (case data of
        JObj object \<Rightarrow>
          bind_res (importedDescriptors (map_of object ''enrollment'') [''aep''] parseEnrollment) (\<lambda>enrollment.
          bind_res (importedDescriptors (map_of object ''payments'') [''mpp'', ''x402''] parsePayment) (\<lambda>payments.
          bind_res (importedDescriptors (map_of object ''trust'') [''tap''] parseTrust) (\<lambda>trust.
            Inr (GStruct [(''Enrollment'', GSlice enrollment), (''Payments'', GSlice payments),
              (''Trust'', GSlice trust)]))))
      | _ \<Rightarrow> Inl (Failure ''protocols must be an object''))"

text \<open>A member of an imported Service that may be absent but is not \<open>null\<close>.\<close>

definition imported_member :: "obj \<Rightarrow> string \<Rightarrow> gtype \<Rightarrow> directory_error + gval" where
  "imported_member object name t =
     (if map_of object name = Some JNull then Inl (invalid name)
      else decodeOptional object name t (invalid name))"

definition imported_text :: "obj \<Rightarrow> string \<Rightarrow> directory_error + string" where
  "imported_text object name =
     bind_res (imported_member object name TString) (\<lambda>v. Inr (case v of GStr s \<Rightarrow> s | _ \<Rightarrow> []))"

definition imported_texts :: "obj \<Rightarrow> string \<Rightarrow> directory_error + string list" where
  "imported_texts object name =
     bind_res (imported_member object name (TSlice TString)) (\<lambda>v.
       Inr (case option_list v of None \<Rightarrow> [] | Some texts \<Rightarrow> texts))"

definition parseImportedService ::
  "directory_env \<Rightarrow> json \<Rightarrow> obj \<Rightarrow> directory_error + directory_service" where
  "parseImportedService env data object =
     bind_res (parseServiceReference env data) (\<lambda>reference.
     bind_res (requiredText (map_of object ''name'') ''name'' 1 128) (\<lambda>name.
     bind_res (parse_stamp (map_of object ''indexed_at'')) (\<lambda>indexed_at.
     bind_res (imported_text object ''description'') (\<lambda>description.
     bind_res (imported_text object ''documentation_url'') (\<lambda>documentation.
     bind_res (imported_texts object ''keywords'') (\<lambda>keywords.
     bind_res (imported_text object ''language'') (\<lambda>language.
     bind_res (imported_texts object ''localizations'') (\<lambda>localizations.
     bind_res (imported_text object ''status_url'') (\<lambda>status.
     bind_res (imported_text object ''support_url'') (\<lambda>support.
     bind_res (imported_text object ''website_url'') (\<lambda>website.
     bind_res
       (case map_of object ''protocols'' of
          None \<Rightarrow> Inr None
        | Some raw \<Rightarrow> bind_res (parseImportedProtocols raw) (\<lambda>p. Inr (Some p))) (\<lambda>protocols.
       Inr \<lparr>sv_additional = cloneAdditional object
           ([''service_id'', ''source''] @ service_known @ unverifiedMembers),
         sv_description = description, sv_documentation_url = documentation, sv_indexed_at = indexed_at,
         sv_keywords = keywords, sv_language = language, sv_localizations = localizations, sv_name = name,
         sv_operations = [], sv_protocols = protocols, sv_origin = ref_service_origin reference,
         sv_status_url = status, sv_support_url = support, sv_website_url = website\<rparr>))))))))))))"

definition parseIndexedService ::
  "directory_env \<Rightarrow> json option \<Rightarrow> directory_error + indexed_service" where
  "parseIndexedService env data =
     bind_res (parse_map data) (\<lambda>object.
     bind_res (requiredText (map_of object ''service_id'') ''service_id'' 1 128) (\<lambda>ident.
     bind_res (parseSource (map_of object ''source'')) (\<lambda>source.
     bind_res
       (if so_type source = ''odp'' then parseService env (JObj object)
        else parseImportedService env (JObj object) object) (\<lambda>service.
       Inr \<lparr>is_service = service\<lparr>sv_additional :=
             map_option (\<lambda>rest. AList.delete ''source'' (AList.delete ''service_id'' rest))
               (sv_additional service)\<rparr>,
         is_service_id = ident, is_source = source\<rparr>))))"

subsection \<open>\<open>search.go\<close>\<close>

definition parsePublisher :: "json \<Rightarrow> directory_error + publisher_info" where
  "parsePublisher data =
     bind_res (parse_map (Some data)) (\<lambda>object.
     bind_res (requiredText (map_of object ''publisher_id'') ''publisher_id'' 1 128) (\<lambda>ident.
     bind_res (requiredText (map_of object ''name'') ''name'' 1 128) (\<lambda>name.
     bind_res (requiredText (map_of object ''website_url'') ''website_url'' 1 512) (\<lambda>website.
     bind_res
       (guard_res
         (case Parse website of
            None \<Rightarrow> False
          | Some parsed \<Rightarrow> scheme parsed = ''https'' \<and> Hostname parsed \<noteq> [] \<and> \<not> has_user parsed)
         (Failure ''Publisher website must be an HTTPS URL without credentials'')) (\<lambda>_.
       Inr \<lparr>pb_additional = cloneAdditional object [''publisher_id'', ''name'', ''website_url''],
         pb_id = ident, pb_name = name, pb_website_url = website\<rparr>)))))"

definition collection_description :: "obj \<Rightarrow> directory_error + string" where
  "collection_description collection =
     (let err = Failure ''collection.description is invalid'' in
      case map_of collection ''description'' of
        None \<Rightarrow> Inr []
      | Some (JStr text) \<Rightarrow> if rune_count text > 1024 then Inl err else Inr text
      | Some _ \<Rightarrow> Inl err)"

definition parseCollectionSummary :: "json option \<Rightarrow> directory_error + collection_summary" where
  "parseCollectionSummary data =
     bind_res (parse_map data) (\<lambda>collection.
     bind_res
       (case requiredText (map_of collection ''id'') ''collection.id'' 1 128 of
          Inr ident \<Rightarrow>
            if IsLocalResourceIdentifier ident then Inr ident
            else Inl (Failure ''collection.id must be a local resource identifier'')
        | Inl _ \<Rightarrow> Inl (Failure ''collection.id must be a local resource identifier'')) (\<lambda>ident.
     bind_res (requiredText (map_of collection ''name'') ''collection.name'' 1 128) (\<lambda>name.
     bind_res (collection_description collection) (\<lambda>description.
       Inr \<lparr>cs_additional = cloneAdditional collection [''id'', ''name'', ''description''],
         cs_id = ident, cs_name = name, cs_description = description\<rparr>))))"

definition optional_publisher :: "obj \<Rightarrow> directory_error + publisher_info option" where
  "optional_publisher object =
     (case map_of object ''publisher'' of
        None \<Rightarrow> Inr None
      | Some JNull \<Rightarrow> Inr None
      | Some raw \<Rightarrow> bind_res (parsePublisher raw) (\<lambda>publisher. Inr (Some publisher)))"

definition parseResult :: "directory_env \<Rightarrow> json \<Rightarrow> directory_error + directory_result" where
  "parseResult env data =
     bind_res (parse_map (Some data)) (\<lambda>object.
     bind_res (requiredText (map_of object ''type'') ''type'' 1 128) (\<lambda>kind.
       if kind \<noteq> ''service'' \<and> kind \<noteq> ''collection'' then
         Inr \<lparr>dr_additional = None, dr_type = kind, dr_service = None, dr_collection = None,
           dr_publisher = None, dr_indexed_at = None, dr_raw = Some data\<rparr>
       else
         bind_res (parseIndexedService env (map_of object ''service'')) (\<lambda>service.
         bind_res (parse_stamp (map_of object ''indexed_at'')) (\<lambda>indexed_at.
           if kind = ''service'' then
             bind_res (optional_publisher object) (\<lambda>publisher.
               Inr \<lparr>dr_additional =
                   cloneAdditional object [''type'', ''service'', ''indexed_at'', ''publisher''],
                 dr_type = kind, dr_service = Some service, dr_collection = None,
                 dr_publisher = publisher, dr_indexed_at = Some indexed_at, dr_raw = None\<rparr>)
           else
             bind_res (parseCollectionSummary (map_of object ''collection'')) (\<lambda>collection.
               Inr \<lparr>dr_additional =
                   cloneAdditional object [''type'', ''service'', ''indexed_at'', ''collection''],
                 dr_type = kind, dr_service = Some service, dr_collection = Some collection,
                 dr_publisher = None, dr_indexed_at = Some indexed_at, dr_raw = None\<rparr>)))))"

definition parseSearchPage ::
  "directory_env \<Rightarrow> string \<Rightarrow> directory_error + directory_service search_response" where
  "parseSearchPage env data = parsePage (parseService env) ''service'' data"

definition parseDirectorySearchPage ::
  "directory_env \<Rightarrow> string \<Rightarrow> directory_error + directory_result search_response" where
  "parseDirectorySearchPage env data = parsePage (parseResult env) ''result'' data"

subsection \<open>Origins a caller may see\<close>

lemma checked_origin_Inr:
  "checked_origin env data text = Inr origin \<Longrightarrow> canonical_public (dv_to_ascii env) origin"
  by (auto simp: checked_origin_def bind_res_Inr split: if_splits)

lemma parseService_public: "parseService env data = Inr s \<Longrightarrow> canonical_public (dv_to_ascii env) (sv_origin s)"
  by (auto simp: parseService_def bind_res_Inr dest: checked_origin_Inr)

lemma parseImportedService_public:
  "parseImportedService env data object = Inr s \<Longrightarrow> canonical_public (dv_to_ascii env) (sv_origin s)"
  by (auto simp: parseImportedService_def parseServiceReference_def bind_res_Inr dest: checked_origin_Inr)

definition public_service :: "directory_env \<Rightarrow> indexed_service \<Rightarrow> bool" where
  "public_service env s \<longleftrightarrow>
     canonical_public (dv_to_ascii env) (sv_origin (is_service s)) \<and> public_document (so_url (is_source s))"

lemma parseSource_public: "parseSource data = Inr source \<Longrightarrow> public_document (so_url source)"
  by (auto simp: parseSource_def bind_res_Inr guard_res_Inr)

lemma parseIndexedService_public:
  assumes "parseIndexedService env data = Inr s"
  shows "public_service env s"
proof -
  obtain object source service where parts: "parseSource (map_of object ''source'') = Inr source"
    "(if so_type source = ''odp'' then parseService env (JObj object)
      else parseImportedService env (JObj object) object) = Inr service"
    and s: "sv_origin (is_service s) = sv_origin service" "is_source s = source"
    using assms unfolding parseIndexedService_def bind_res_Inr by auto
  have "canonical_public (dv_to_ascii env) (sv_origin service)"
    using parts(2) by (auto dest: parseService_public parseImportedService_public split: if_splits)
  with parseSource_public [OF parts(1)] s show ?thesis by (simp add: public_service_def)
qed

lemma parseResult_public:
  "parseResult env data = Inr r \<Longrightarrow> dr_service r = Some s \<Longrightarrow> public_service env s"
  by (auto simp: parseResult_def bind_res_Inr dest: parseIndexedService_public split: if_splits)

definition public_result :: "directory_env \<Rightarrow> directory_result \<Rightarrow> bool" where
  "public_result env r \<longleftrightarrow> (case dr_service r of None \<Rightarrow> True | Some s \<Rightarrow> public_service env s)"

lemma parseSearchPage_public:
  "parseSearchPage env data = Inr page \<Longrightarrow>
    list_all (\<lambda>s. canonical_public (dv_to_ascii env) (sv_origin s)) (rs_items page)"
  by (auto simp: parseSearchPage_def list_all_iff dest!: parsePage_items dest: parseService_public)

lemma parseDirectorySearchPage_public:
  "parseDirectorySearchPage env data = Inr page \<Longrightarrow> list_all (public_result env) (rs_items page)"
  by (auto simp: parseDirectorySearchPage_def list_all_iff public_result_def dest!: parsePage_items
      dest: parseResult_public split: option.splits)

text \<open>
  What the check accepts all the same: a name that resolvers take for the machine itself, and an
  address of a benchmark network, which the dialer of \<open>agent/network.go\<close> refuses.
\<close>

theorem publicHTTPSOrigin_gap:
  "publicHTTPSOrigin ''https://localhost.'' \<and> publicHTTPSOrigin ''https://198.18.0.1'' \<and>
    map_option isPublicAddress (ParseAddr ''198.18.0.1'') = Some False"
  by code_simp

end
