(* ===== verification/DirectoryClient.thy ===== *)
theory DirectoryClient
  imports DirectoryServices GoMime
begin

section \<open>The Directory client: requests and traversals\<close>

text \<open>
  \<open>directory/client.go\<close> and the traversals of \<open>directory/search.go\<close>.  The state of a traversal is a pair: the
  world of the network, which \<open>http.Client.Do\<close> changes, and the consumer's, which \<open>yield\<close> and
  \<open>OnIssue\<close> change; \<open>yield\<close> answers whether to go on.  The client's \<open>CheckRedirect\<close> hands
  redirects back, so \<open>net_do\<close> sends one request.  \<open>ctx\<close> is part of the network: a cancelled request
  fails.
\<close>

definition maximumErrorBytes :: nat where "maximumErrorBytes = 16384"
definition maximumErrorRunes :: nat where "maximumErrorRunes = 2048"
definition maximumItems :: int where "maximumItems = 10000"
definition defaultPages :: nat where "defaultPages = 16"
definition maximumPages :: nat where "maximumPages = 10000"
definition maximumRedirects :: nat where "maximumRedirects = 5"
definition maximumResponseBytes :: int where "maximumResponseBytes = 524288"

definition productionOrigin :: string where "productionOrigin = ''https://directory.offeringprotocol.org''"
definition sandboxOrigin :: string where "sandboxOrigin = ''https://sandbox.inflowpay.ai''"

record directory_client =
  dc_environment :: string
  dc_origin :: url

definition NewDirectory :: "string \<Rightarrow> directory_error + directory_client" where
  "NewDirectory requested =
     (let environment = (if requested = [] then ''production'' else requested) in
      bind_res
        (if environment = ''production'' then Inr productionOrigin
         else if environment = ''sandbox'' then Inr sandboxOrigin
         else Inl (Failure ''unsupported Directory environment'')) (\<lambda>origin.
        case Parse origin of
          None \<Rightarrow> Inl (Failure ''parse Directory origin'')
        | Some u \<Rightarrow> Inr \<lparr>dc_environment = environment, dc_origin = u\<rparr>))"

text \<open>\<open>JoinPath\<close> of an origin without a path and elements that need no cleaning.\<close>

definition join_path :: "url \<Rightarrow> string list \<Rightarrow> url" where
  "join_path u elems = set_path (join_with ''/'' elems) u"

subsection \<open>Origins\<close>

definition directoryOrigin :: "url \<Rightarrow> string" where
  "directoryOrigin u =
     (let sch = to_lower (scheme u); h = to_lower (Hostname u);
          port = (if default_port sch (Port u) then [] else Port u);
          h = (if port = [] then h
               else if CHR '':'' \<in> set h then ''['' @ h @ '']:'' @ port else h @ '':'' @ port) in
      sch @ ''://'' @ h)"

definition sameOrigin :: "directory_client \<Rightarrow> url \<Rightarrow> bool" where
  "sameOrigin client candidate \<longleftrightarrow>
     \<not> has_user candidate \<and> directoryOrigin candidate = directoryOrigin (dc_origin client)"

definition traversalKey :: "url \<Rightarrow> string" where
  "traversalKey u = directoryOrigin u @ EscapedPath u @ ''?'' @ Encode (ParseQuery (raw_query u))"

definition continuationURL :: "directory_client \<Rightarrow> string \<Rightarrow> directory_error + url" where
  "continuationURL client reference =
     (case Parse reference of
        None \<Rightarrow> Inl (Failure ''parse Directory continuation'')
      | Some ref \<Rightarrow>
          (let resolved = ResolveReference (dc_origin client) ref in
           if \<not> sameOrigin client resolved
           then Inl (Failure ''Directory continuation must remain on the canonical origin'')
           else Inr resolved))"

subsection \<open>Failures\<close>

definition terminal_rune :: "nat \<Rightarrow> bool" where
  "terminal_rune r \<longleftrightarrow> r < 32 \<or> r = 127 \<or> 128 \<le> r \<and> r \<le> 159"

definition printableText :: "string \<Rightarrow> string" where
  "printableText text =
     join_with '' '' (GoStrings.fields (map_runes (\<lambda>r. if terminal_rune r then 32 else r) text))"

definition failure_document_type :: gtype where
  "failure_document_type = TStruct [
     (''Detail'', ''detail'', TString), (''Message'', ''message'', TString), (''Title'', ''title'', TString)]"

definition ellipsis :: string where "ellipsis = [CHR 0xE2, CHR 0x80, CHR 0xA6]"

definition truncated_detail :: "string \<Rightarrow> string" where
  "truncated_detail detail =
     (if length (decode_runes detail) > maximumErrorRunes
      then concat (map encode_rune (take maximumErrorRunes (decode_runes detail))) @ ellipsis
      else detail)"

fun first_detail :: "string \<Rightarrow> string list \<Rightarrow> string" where
  "first_detail summary [] = summary"
| "first_detail summary (candidate # rest) =
     (if printableText candidate = [] then first_detail summary rest
      else summary @ '': '' @ truncated_detail (printableText candidate))"

definition failureMessage :: "http_header \<Rightarrow> string \<Rightarrow> int \<Rightarrow> string" where
  "failureMessage h data status =
     (let summary = ''Directory request failed with HTTP '' @ itoa status in
      case ParseMediaType (header_get h ''Content-Type'') of
        None \<Rightarrow> summary
      | Some media \<Rightarrow>
          if \<not> equal_fold media ''application/json'' \<and> \<not> equal_fold media ''application/problem+json''
          then summary
          else
            (case decode_into failure_document_type (decode_text (take maximumErrorBytes data)) of
               None \<Rightarrow> summary
             | Some document \<Rightarrow>
                 first_detail summary
                   [str_field document ''Detail'', str_field document ''Title'', str_field document ''Message'']))"

subsection \<open>Requests\<close>

definition request_failure :: "in_response \<Rightarrow> string \<Rightarrow> failed_request" where
  "request_failure response content =
     \<lparr>fr_header = in_header response,
       fr_message = failureMessage (in_header response) content (in_status response),
       fr_retryable = (in_status response = 429 \<or> in_status response \<ge> 500),
       fr_status = in_status response\<rparr>"

definition consumeDirectory :: "in_response \<Rightarrow> directory_error + string" where
  "consumeDirectory response =
     (let too_large = Failure ''Directory response exceeds its byte limit'' in
      if in_length response > maximumResponseBytes then Inl too_large
      else
        (case read_response (maximumResponseBytes + 1) response of
           Inl err \<Rightarrow> Inl (Unreachable err)
         | Inr content \<Rightarrow>
             if int (length content) > maximumResponseBytes then Inl too_large
             else if \<not> successful (in_status response) then Inl (Refused (request_failure response content))
             else
               (case ParseMediaType (header_get (in_header response) ''Content-Type'') of
                  None \<Rightarrow> Inl (Failure ''Directory response must use application/json'')
                | Some media \<Rightarrow>
                    if \<not> equal_fold media ''application/json''
                    then Inl (Failure ''Directory response must use application/json'')
                    else if \<not> utf8_valid content
                    then Inl (Failure ''Directory response must use UTF-8'')
                    else
                      (case read_json content of
                         Undecodable _ \<Rightarrow> Inl (Failure ''Directory response must contain valid JSON'')
                       | Decoded _ EndOfInput \<Rightarrow> Inr content
                       | Decoded _ _ \<Rightarrow> Inl (Failure ''Directory response must contain one JSON value'')))))"

definition directory_headers :: "string option \<Rightarrow> http_header" where
  "directory_headers content =
     (let h = header_set ''Accept'' ''application/json'' [] in
      if content \<noteq> None then header_set ''Content-Type'' ''application/json'' h else h)"

text \<open>Where a redirect leads.\<close>

definition directory_redirect :: "directory_client \<Rightarrow> url \<Rightarrow> in_response \<Rightarrow> directory_error + url" where
  "directory_redirect client current response =
     (let location = header_get (in_header response) ''Location'' in
      if location = [] then Inl (Failure ''Directory redirect omitted Location'')
      else
        (case Parse location of
           None \<Rightarrow> Inl (Failure ''parse Directory redirect'')
         | Some ref \<Rightarrow>
             (let next = ResolveReference current ref in
              if \<not> sameOrigin client next then Inl (Failure ''Directory redirect changed origin'')
              else Inr next)))"

text \<open>The loop, with \<open>left = maximumRedirects - redirects\<close>.\<close>

fun request_loop ::
  "'w network \<Rightarrow> directory_client \<Rightarrow> nat \<Rightarrow> string \<Rightarrow> url \<Rightarrow> string option \<Rightarrow> 'w \<Rightarrow>
   (directory_error + string) \<times> 'w" where
  "request_loop net client left verb current content w =
     (case NewRequest verb (url_string current) (directory_headers content) content of
        Inl _ \<Rightarrow> (Inl MalformedURL, w)
      | Inr req \<Rightarrow>
          (case net_do net req w of
             (Inl err, w) \<Rightarrow> (Inl (Unreachable err), w)
           | (Inr response, w) \<Rightarrow>
               if \<not> redirectStatus (in_status response) then (consumeDirectory response, w)
               else
                 (case left of
                    0 \<Rightarrow> (Inl (Failure ''Directory response exceeded its redirect limit''), w)
                  | Suc left' \<Rightarrow>
                      (case directory_redirect client current response of
                         Inl err \<Rightarrow> (Inl err, w)
                       | Inr next \<Rightarrow>
                           if in_status response = 303 \<or>
                              (in_status response = 301 \<or> in_status response = 302) \<and> verb = ''POST''
                           then request_loop net client left' ''GET'' next None w
                           else request_loop net client left' verb next content w))))"

declare request_loop.simps [simp del]

definition requestJSON ::
  "'w network \<Rightarrow> directory_client \<Rightarrow> string \<Rightarrow> url \<Rightarrow> string option \<Rightarrow> 'w \<Rightarrow>
   (directory_error + string) \<times> 'w" where
  "requestJSON net client verb dest content w =
     request_loop net client maximumRedirects verb dest content w"

subsection \<open>Traversals\<close>

definition pageBudget :: "int \<Rightarrow> directory_error + nat" where
  "pageBudget requested =
     (if requested = 0 then Inr defaultPages
      else if requested < 1 \<or> requested > int maximumPages then
        Inl (Failure ''maxPages must be an integer from 1 through 10000'')
      else Inr (nat requested))"

type_synonym ('item, 'x) response_yield =
  "directory_error + 'item search_response \<Rightarrow> 'x \<Rightarrow> bool \<times> 'x"

type_synonym ('item, 'w, 'x) responses = "('item, 'x) response_yield \<Rightarrow> 'w \<times> 'x \<Rightarrow> 'w \<times> 'x"

definition yield_error ::
  "('item, 'x) response_yield \<Rightarrow> directory_error \<Rightarrow> 'w \<times> 'x \<Rightarrow> 'w \<times> 'x" where
  "yield_error yield err st = (case st of (w, x) \<Rightarrow> (w, snd (yield (Inl err) x)))"

text \<open>The loop with \<open>rounds = maxPages - pageNumber\<close> left.\<close>

fun traverse_loop ::
  "'w network \<Rightarrow> directory_client \<Rightarrow> nat \<Rightarrow> (string \<Rightarrow> directory_error + 'item search_response) \<Rightarrow>
   ('item, 'x) response_yield \<Rightarrow> nat \<Rightarrow> url \<Rightarrow> string \<Rightarrow> string option \<Rightarrow> string list \<Rightarrow> 'w \<times> 'x \<Rightarrow> 'w \<times> 'x"
where
  "traverse_loop net client maxPages parse yield 0 current verb content visited st = st"
| "traverse_loop net client maxPages parse yield (Suc rounds) current verb content visited (w, x) =
     (case requestJSON net client verb current content w of
        (Inl err, w) \<Rightarrow> yield_error yield err (w, x)
      | (Inr data, w) \<Rightarrow>
          (case parse data of
             Inl err \<Rightarrow> yield_error yield err (w, x)
           | Inr page \<Rightarrow>
               (case yield (Inr page) x of (go_on, x) \<Rightarrow>
                  if \<not> go_on \<or> rs_next page = [] then (w, x)
                  else if rounds = 0 then
                    (if maxPages = maximumPages
                     then yield_error yield
                       (Failure ''Directory pagination exceeded its 10000-page traversal limit'') (w, x)
                     else (w, x))
                  else
                    (case continuationURL client (rs_next page) of
                       Inl err \<Rightarrow> yield_error yield err (w, x)
                     | Inr next \<Rightarrow>
                         if traversalKey next \<in> set visited then
                           yield_error yield (Failure ''Directory pagination loop detected'') (w, x)
                         else
                           traverse_loop net client maxPages parse yield rounds next ''GET'' None
                             (traversalKey next # visited) (w, x)))))"

definition traversePages ::
  "'w network \<Rightarrow> directory_client \<Rightarrow> url \<Rightarrow> string \<Rightarrow> string option \<Rightarrow> nat \<Rightarrow>
   (string \<Rightarrow> directory_error + 'item search_response) \<Rightarrow> ('item, 'w, 'x) responses" where
  "traversePages net client start verb content maxPages parse yield st =
     traverse_loop net client maxPages parse yield maxPages start verb content [] st"

record 'x iteration_options =
  io_max_items :: int
  io_max_pages :: int
  io_on_issue :: "issue_report \<Rightarrow> 'x \<Rightarrow> 'x"

text \<open>The body of the range over the responses, which counts the items it has yielded; its
  answer is \<open>False\<close> when it returns from the enclosing function.\<close>

type_synonym ('item, 'x) found_yield = "directory_error + 'item \<Rightarrow> 'x \<Rightarrow> bool \<times> 'x"

fun yield_items :: "int \<Rightarrow> ('item, 'x) found_yield \<Rightarrow> 'item list \<Rightarrow> int \<times> 'x \<Rightarrow> bool \<times> int \<times> 'x" where
  "yield_items maximum yield [] st = (True, st)"
| "yield_items maximum yield (item # rest) (count, x) =
     (case yield (Inr item) x of (go_on, x) \<Rightarrow>
        if \<not> go_on \<or> maximum \<noteq> 0 \<and> count + 1 \<ge> maximum then (False, count + 1, x)
        else yield_items maximum yield rest (count + 1, x))"

definition directory_items_body ::
  "'x iteration_options \<Rightarrow> ('item, 'x) found_yield \<Rightarrow> ('item, int \<times> 'x) response_yield" where
  "directory_items_body options yield event st =
     (case st of (count, x) \<Rightarrow>
        (case event of
           Inl err \<Rightarrow> (False, count, snd (yield (Inl err) x))
         | Inr page \<Rightarrow>
             yield_items (io_max_items options) yield (rs_items page)
               (count, fold (io_on_issue options) (rs_issues page) x)))"

definition sequence_items ::
  "('item, 'w, int \<times> 'x) responses \<Rightarrow> 'x iteration_options \<Rightarrow> ('item, 'x) found_yield \<Rightarrow> 'w \<times> 'x \<Rightarrow> 'w \<times> 'x"
where
  "sequence_items responses options yield st =
     (case st of (w, x) \<Rightarrow>
        if io_max_items options < 0 \<or> io_max_items options > maximumItems then
          (w, snd (yield (Inl (Failure ''maxItems must be an integer from 1 through 10000'')) x))
        else
          (case responses (directory_items_body options yield) (w, 0, x) of (w, count, x) \<Rightarrow> (w, x)))"

subsection \<open>The operations\<close>

definition searchResponses ::
  "'w network \<Rightarrow> directory_client \<Rightarrow> string list \<Rightarrow> directory_error + string \<Rightarrow> int \<Rightarrow>
   (string \<Rightarrow> directory_error + 'item search_response) \<Rightarrow> ('item, 'w, 'x) responses" where
  "searchResponses net client elems content max_pages parse yield st =
     (case bind_res content (\<lambda>body. bind_res (pageBudget max_pages) (\<lambda>budget. Inr (body, budget))) of
        Inl err \<Rightarrow> yield_error yield err st
      | Inr (body, budget) \<Rightarrow>
          traversePages net client (join_path (dc_origin client) elems) ''POST'' (Some body) budget parse yield st)"

definition continueResponses ::
  "'w network \<Rightarrow> directory_client \<Rightarrow> string \<Rightarrow> int \<Rightarrow>
   (string \<Rightarrow> directory_error + 'item search_response) \<Rightarrow> ('item, 'w, 'x) responses" where
  "continueResponses net client link max_pages parse yield st =
     (case bind_res (pageBudget max_pages) (\<lambda>budget.
             bind_res (continuationURL client link) (\<lambda>dest. Inr (dest, budget))) of
        Inl err \<Rightarrow> yield_error yield err st
      | Inr (dest, budget) \<Rightarrow> traversePages net client dest ''GET'' None budget parse yield st)"

definition SearchServices ::
  "directory_env \<Rightarrow> 'w network \<Rightarrow> directory_client \<Rightarrow> search_request \<Rightarrow> int \<Rightarrow>
   (directory_service, 'w, 'x) responses" where
  "SearchServices env net client req max_pages =
     searchResponses net client [''v1'', ''services'', ''search''] (validateSearchRequest req) max_pages
       (parseSearchPage env)"

definition ContinueSearchServices ::
  "directory_env \<Rightarrow> 'w network \<Rightarrow> directory_client \<Rightarrow> string \<Rightarrow> int \<Rightarrow>
   (directory_service, 'w, 'x) responses" where
  "ContinueSearchServices env net client link max_pages =
     continueResponses net client link max_pages (parseSearchPage env)"

definition SearchDirectory ::
  "directory_env \<Rightarrow> 'w network \<Rightarrow> directory_client \<Rightarrow> directory_search_request \<Rightarrow> int \<Rightarrow>
   (directory_result, 'w, 'x) responses" where
  "SearchDirectory env net client req max_pages =
     searchResponses net client [''v1'', ''directory'', ''search''] (validateDirectorySearchRequest req)
       max_pages (parseDirectorySearchPage env)"

definition ContinueSearch ::
  "directory_env \<Rightarrow> 'w network \<Rightarrow> directory_client \<Rightarrow> string \<Rightarrow> int \<Rightarrow>
   (directory_result, 'w, 'x) responses" where
  "ContinueSearch env net client link max_pages =
     continueResponses net client link max_pages (parseDirectorySearchPage env)"

definition suggestion_query :: "string \<Rightarrow> int \<Rightarrow> string" where
  "suggestion_query text limit =
     Encode ((''prefix'', [text]) # (if limit \<noteq> 0 then [(''limit'', [itoa limit])] else []))"

definition suggestion_request_parts ::
  "directory_client \<Rightarrow> string \<Rightarrow> suggestion_request \<Rightarrow> directory_error + url \<times> string \<times> string option" where
  "suggestion_request_parts client resource req =
     bind_res (requireText (sg_prefix req) ''prefix'' 1 128) (\<lambda>text.
     bind_res (guard_res (\<not> (sg_limit req < 0 \<or> sg_limit req > 25))
         (Failure ''limit must be an integer from 1 through 25'')) (\<lambda>_.
       let dest = join_path (dc_origin client) [''v1'', resource, ''suggestions''] in
       if resource = ''directory'' then
         bind_res (validate_optional_filters (sg_filters req)) (\<lambda>filters.
           Inr (dest, ''POST'', Some (encode_json (suggestion_json
             (req\<lparr>sg_filters := filters, sg_prefix := text\<rparr>)))))
       else if sg_filters req \<noteq> None then
         Inl (Failure ''Service-only suggestions do not support filters'')
       else Inr (dest\<lparr>raw_query := suggestion_query text (sg_limit req)\<rparr>, ''GET'', None)))"

definition suggest ::
  "'w network \<Rightarrow> directory_client \<Rightarrow> string \<Rightarrow> suggestion_request \<Rightarrow> 'w \<Rightarrow>
   (directory_error + string list) \<times> 'w" where
  "suggest net client resource req w =
     (case suggestion_request_parts client resource req of
        Inl err \<Rightarrow> (Inl err, w)
      | Inr (dest, verb, content) \<Rightarrow>
          (case requestJSON net client verb dest content w of
             (Inl err, w) \<Rightarrow> (Inl err, w)
           | (Inr data, w) \<Rightarrow> (parseSuggestions data, w)))"

definition SuggestServices ::
  "'w network \<Rightarrow> directory_client \<Rightarrow> suggestion_request \<Rightarrow> 'w \<Rightarrow> (directory_error + string list) \<times> 'w" where
  "SuggestServices net client req w = suggest net client ''services'' req w"

definition Suggest ::
  "'w network \<Rightarrow> directory_client \<Rightarrow> suggestion_request \<Rightarrow> 'w \<Rightarrow> (directory_error + string list) \<times> 'w" where
  "Suggest net client req w = suggest net client ''directory'' req w"

subsection \<open>What is sent\<close>

text \<open>The requests of a recorded network, and a request to the Directory's own origin.\<close>

definition sent_by :: "('w \<times> out_request list) \<times> 'x \<Rightarrow> out_request list" where
  "sent_by st = snd (fst st)"

definition to_directory :: "directory_client \<Rightarrow> out_request \<Rightarrow> bool" where
  "to_directory client req \<longleftrightarrow> (\<exists>u. out_url req = url_string u \<and> sameOrigin client u)"

lemma directory_redirect_origin: "directory_redirect client current response = Inr u \<Longrightarrow> sameOrigin client u"
  by (auto simp: directory_redirect_def Let_def split: if_splits option.splits)

lemma continuationURL_origin: "continuationURL client link = Inr u \<Longrightarrow> sameOrigin client u"
  by (auto simp: continuationURL_def Let_def split: if_splits option.splits)

lemma recorded_sends:
  "net_do (recorded net) req w = (r, w') \<Longrightarrow> w' = (snd (net_do net req (fst w)), snd w @ [req])"
  by (cases w) (auto simp: recorded_def split: prod.splits)

text \<open>One request and the redirects it meets: what they add to the log of the network.\<close>

lemma request_loop_sends:
  assumes "sameOrigin client current"
    and "request_loop (recorded net) client left verb current content w = (r, w')"
  shows "\<exists>new. snd w' = snd w @ new \<and> list_all (to_directory client) new \<and> length new \<le> Suc left"
  using assms
proof (induction left arbitrary: verb current content w)
  case 0
  then show ?case
    by (subst (asm) request_loop.simps)
      (auto simp: to_directory_def dest!: recorded_sends NewRequest_url split: sum.splits prod.splits if_splits)
next
  case (Suc left)
  show ?case
  proof (cases "NewRequest verb (url_string current) (directory_headers content) content")
    case (Inl e)
    with Suc.prems(2) show ?thesis by (simp add: request_loop.simps)
  next
    case (Inr req)
    obtain answer w1 where do: "net_do (recorded net) req w = (answer, w1)"
      by (cases "net_do (recorded net) req w")
    have log: "snd w1 = snd w @ [req]" and first: "to_directory client req"
      using recorded_sends [OF do] NewRequest_url [OF Inr] Suc.prems(1) by (auto simp: to_directory_def)
    have loop: "(case (answer, w1) of
        (Inl err, w) \<Rightarrow> (Inl (Unreachable err), w)
      | (Inr response, w) \<Rightarrow>
          if \<not> redirectStatus (in_status response) then (consumeDirectory response, w)
          else
            (case directory_redirect client current response of
               Inl err \<Rightarrow> (Inl err, w)
             | Inr next \<Rightarrow>
                 if in_status response = 303 \<or>
                    (in_status response = 301 \<or> in_status response = 302) \<and> verb = ''POST''
                 then request_loop (recorded net) client left ''GET'' next None w
                 else request_loop (recorded net) client left verb next content w)) = (r, w')"
      using Suc.prems(2) do Inr by (cases answer) (auto simp: request_loop.simps [of _ _ "Suc left"])
    consider (stopped) "w' = w1"
      | (followed) verb' content' dest where "sameOrigin client dest"
          "request_loop (recorded net) client left verb' dest content' w1 = (r, w')"
      using loop
      by (auto dest: directory_redirect_origin split: sum.splits if_splits)
    then show ?thesis
    proof cases
      case stopped
      then show ?thesis using log first by simp
    next
      case followed
      from Suc.IH [OF this] obtain new where
        "snd w' = snd w1 @ new" "list_all (to_directory client) new" "length new \<le> Suc left" by blast
      then show ?thesis using log first by (intro exI [of _ "req # new"]) simp
    qed
  qed
qed

lemma requestJSON_sends:
  assumes "sameOrigin client dest"
    and "requestJSON (recorded net) client verb dest content w = (r, w')"
  shows "\<exists>new. snd w' = snd w @ new \<and> list_all (to_directory client) new \<and> length new \<le> 6"
  using request_loop_sends [OF assms(1) assms(2) [unfolded requestJSON_def]] by (simp add: maximumRedirects_def)

text \<open>One page of a traversal: it ends there, or goes on to a continuation it has not seen.\<close>

lemma traverse_step:
  obtains (stopped) r w' x' where "requestJSON net client verb current content w = (r, w')"
      "traverse_loop net client maxPages parse yield (Suc rounds) current verb content visited (w, x) = (w', x')"
  | (advanced) data w' x' link "next" where
      "requestJSON net client verb current content w = (Inr data, w')"
      "continuationURL client link = Inr next" "traversalKey next \<notin> set visited" "rounds \<noteq> 0"
      "traverse_loop net client maxPages parse yield (Suc rounds) current verb content visited (w, x) =
         traverse_loop net client maxPages parse yield rounds next ''GET'' None
           (traversalKey next # visited) (w', x')"
proof -
  obtain r w' where request: "requestJSON net client verb current content w = (r, w')" by fastforce
  let ?loop = "traverse_loop net client maxPages parse yield (Suc rounds) current verb content visited (w, x)"
  show ?thesis
  proof (cases "fst ?loop = w'")
    case True
    then show ?thesis using request stopped [of r w' "snd ?loop"] by (metis prod.collapse)
  next
    case False
    then show ?thesis
      using request advanced
      by (auto simp: yield_error_def split: sum.splits prod.splits if_splits)
  qed
qed

lemma traverse_loop_sends:
  assumes "sameOrigin client current"
  shows "\<exists>new. sent_by (traverse_loop (recorded net) client maxPages parse yield rounds current verb content
      visited (w, x)) = snd w @ new \<and> list_all (to_directory client) new \<and> length new \<le> 6 * rounds"
  using assms
proof (induction rounds arbitrary: current verb content visited w x)
  case 0
  then show ?case by (simp add: sent_by_def)
next
  case (Suc rounds)
  show ?case
  proof (rule traverse_step [of "recorded net" client verb current content w maxPages parse yield rounds visited x])
    fix r w' x'
    assume "requestJSON (recorded net) client verb current content w = (r, w')"
      and "traverse_loop (recorded net) client maxPages parse yield (Suc rounds) current verb content
        visited (w, x) = (w', x')"
    with requestJSON_sends [OF Suc.prems] show ?thesis by (fastforce simp: sent_by_def simp del: traverse_loop.simps)
  next
    fix data w' x' link "next"
    assume request: "requestJSON (recorded net) client verb current content w = (Inr data, w')"
      and link: "continuationURL client link = Inr next"
      and loop: "traverse_loop (recorded net) client maxPages parse yield (Suc rounds) current verb content
        visited (w, x) = traverse_loop (recorded net) client maxPages parse yield rounds next ''GET'' None
          (traversalKey next # visited) (w', x')"
    obtain new where new: "snd w' = snd w @ new" "list_all (to_directory client) new" "length new \<le> 6"
      using requestJSON_sends [OF Suc.prems request] by blast
    obtain more where "sent_by (traverse_loop (recorded net) client maxPages parse yield rounds next ''GET'' None
          (traversalKey next # visited) (w', x')) = snd w' @ more"
      "list_all (to_directory client) more" "length more \<le> 6 * rounds"
      using Suc.IH [OF continuationURL_origin [OF link]] by blast
    then show ?thesis using new by (intro exI [of _ "new @ more"]) (simp add: loop del: traverse_loop.simps)
  qed
qed

text \<open>Where a client starts from.\<close>

lemma set_path_origin:
  "scheme (set_path p u) = scheme u \<and> host (set_path p u) = host u \<and> user_info (set_path p u) = user_info u"
  by (simp add: set_path_def setPath_def split: option.splits)

lemma join_path_origin: "\<not> has_user (dc_origin client) \<Longrightarrow> sameOrigin client (join_path (dc_origin client) elems)"
  by (simp add: sameOrigin_def directoryOrigin_def join_path_def set_path_origin has_user_def Hostname_def
      Port_def Let_def)

lemma parsed_origins:
  "map_option has_user (Parse productionOrigin) = Some False"
  "map_option has_user (Parse sandboxOrigin) = Some False"
  by code_simp+

lemma NewDirectory_no_user: "NewDirectory environment = Inr client \<Longrightarrow> \<not> has_user (dc_origin client)"
  using parsed_origins by (auto simp: NewDirectory_def Let_def bind_res_Inr split: if_splits option.splits)

lemma query_origin: "sameOrigin client (u\<lparr>raw_query := q\<rparr>) = sameOrigin client u"
  by (simp add: sameOrigin_def directoryOrigin_def has_user_def Hostname_def Port_def Let_def)

lemma suggestion_origin:
  assumes "\<not> has_user (dc_origin client)" and "suggestion_request_parts client resource req = Inr (dest, verb, content)"
  shows "sameOrigin client dest"
  using assms join_path_origin [OF assms(1)]
  by (auto simp: suggestion_request_parts_def bind_res_Inr Let_def query_origin split: if_splits)

definition budget_of :: "int \<Rightarrow> nat" where
  "budget_of max_pages = (if max_pages = 0 then 16 else nat max_pages)"

lemma pageBudget_Inr: "pageBudget n = Inr budget \<Longrightarrow> budget = budget_of n \<and> budget \<le> maximumPages"
  by (auto simp: pageBudget_def budget_of_def defaultPages_def maximumPages_def split: if_splits)

text \<open>What a traversal may send within a budget of pages.\<close>

definition within :: "directory_client \<Rightarrow> nat \<Rightarrow> out_request list \<Rightarrow> bool" where
  "within client pages sent \<longleftrightarrow> list_all (to_directory client) sent \<and> length sent \<le> 6 * pages"

lemma yield_error_sends: "sent_by (yield_error yield err st) = sent_by st"
  by (simp add: yield_error_def sent_by_def split: prod.splits)

lemma traverse_within:
  "sameOrigin client start \<Longrightarrow>
    within client maxPages (sent_by (traversePages (recorded net) client start verb content maxPages parse yield ((w, []), x)))"
  using traverse_loop_sends [of client start net maxPages parse yield maxPages verb content "[]" "(w, [])" x]
  by (auto simp: traversePages_def within_def)

lemma within_nothing: "within client pages []"
  by (simp add: within_def)

lemma searchResponses_within:
  assumes "\<not> has_user (dc_origin client)"
  shows "within client (budget_of n) (sent_by (searchResponses (recorded net) client elems content n parse yield ((w, []), x)))"
  using traverse_within [OF join_path_origin [OF assms]]
  by (auto simp: searchResponses_def yield_error_sends sent_by_def [of "((w, []), x)"] within_nothing
      bind_res_Inr dest!: pageBudget_Inr split: sum.splits)

lemma continueResponses_within:
  "within client (budget_of n) (sent_by (continueResponses (recorded net) client link n parse yield ((w, []), x)))"
  using traverse_within [OF continuationURL_origin]
  by (auto simp: continueResponses_def yield_error_sends sent_by_def [of "((w, []), x)"] within_nothing
      bind_res_Inr dest!: pageBudget_Inr split: sum.splits)

lemma suggest_within:
  assumes "\<not> has_user (dc_origin client)"
  shows "within client 1 (snd (snd (suggest (recorded net) client resource req (w, []))))"
proof (cases "suggestion_request_parts client resource req")
  case (Inl e)
  then show ?thesis by (simp add: suggest_def within_nothing)
next
  case (Inr parts)
  obtain dest verb content where parts: "parts = (dest, verb, content)" by (cases parts)
  obtain r w' where request: "requestJSON (recorded net) client verb dest content (w, []) = (r, w')"
    by (cases "requestJSON (recorded net) client verb dest content (w, [])")
  show ?thesis
    using requestJSON_sends [OF suggestion_origin [OF assms Inr [unfolded parts]] request] Inr parts request
    by (cases r) (auto simp: suggest_def within_def)
qed

text \<open>C34: whatever the Directory answers, every request of a search, a continuation or a suggestion goes to the origin the
  client was made for, without credentials, and there are at most six for each page of the budget.\<close>

theorem directory_requests_stay:
  assumes "NewDirectory environment = Inr client"
  shows "within client (budget_of n) (sent_by (SearchServices env (recorded net) client req n yield ((w, []), x))) \<and>
    within client (budget_of n) (sent_by (ContinueSearchServices env (recorded net) client link n yield ((w, []), x))) \<and>
    within client (budget_of n) (sent_by (SearchDirectory env (recorded net) client dreq n dyield ((w, []), x))) \<and>
    within client (budget_of n) (sent_by (ContinueSearch env (recorded net) client link n dyield ((w, []), x))) \<and>
    within client 1 (snd (snd (suggest (recorded net) client resource sreq (w, []))))"
  using NewDirectory_no_user [OF assms]
  by (simp add: SearchServices_def ContinueSearchServices_def SearchDirectory_def ContinueSearch_def
      searchResponses_within continueResponses_within suggest_within [unfolded One_nat_def])

subsection \<open>What is received\<close>

text \<open>
  A traversal calls \<open>yield\<close> while \<open>P\<close> holds of the consumer; a call that answers \<open>False\<close> or
  carries an error is its last.
\<close>

definition consumes ::
  "('a \<Rightarrow> bool) \<Rightarrow> ('x \<Rightarrow> bool) \<Rightarrow> ('x \<Rightarrow> bool) \<Rightarrow> (directory_error + 'a \<Rightarrow> 'x \<Rightarrow> bool \<times> 'x) \<Rightarrow> bool" where
  "consumes good P Q yield \<longleftrightarrow>
     (\<forall>x. P x \<longrightarrow> Q x \<and> (\<forall>err. Q (snd (yield (Inl err) x))) \<and>
        (\<forall>a x'. good a \<longrightarrow> yield (Inr a) x = (True, x') \<longrightarrow> P x') \<and>
        (\<forall>a x'. good a \<longrightarrow> yield (Inr a) x = (False, x') \<longrightarrow> Q x'))"

lemma consumesD:
  assumes "consumes good P Q yield" and "P x"
  shows "Q x" and "Q (snd (yield (Inl err) x))"
    and "good a \<Longrightarrow> yield (Inr a) x = (True, x') \<Longrightarrow> P x'"
    and "good a \<Longrightarrow> yield (Inr a) x = (False, x') \<Longrightarrow> Q x'"
  using assms by (simp_all add: consumes_def)

lemma yield_error_consumes:
  "consumes good P Q yield \<Longrightarrow> P (snd st) \<Longrightarrow> Q (snd (yield_error yield err st))"
  by (cases st) (simp add: yield_error_def, erule (1) consumesD(2))

lemma traverse_loop_consumes:
  assumes "consumes good P Q yield" and "\<And>data page. parse data = Inr page \<Longrightarrow> good page"
  shows "P x \<Longrightarrow> Q (snd (traverse_loop net client maxPages parse yield rounds current verb content visited (w, x)))"
proof (induction rounds arbitrary: current verb content visited w x)
  case 0
  then show ?case using consumesD(1) [OF assms(1)] by simp
next
  case (Suc rounds)
  note yields = consumesD [OF assms(1) Suc.prems]
  obtain r w1 where request: "requestJSON net client verb current content w = (r, w1)"
    by (cases "requestJSON net client verb current content w")
  show ?case
  proof (cases "bind_res r parse")
    case (Inl err)
    then show ?thesis
      using request yields(2) by (auto simp: bind_res_Inl yield_error_def)
  next
    case (Inr page)
    then obtain data where data: "r = Inr data" "parse data = Inr page" by (auto simp: bind_res_Inr)
    obtain go_on x1 where yield: "yield (Inr page) x = (go_on, x1)" by (cases "yield (Inr page) x")
    show ?thesis
    proof (cases go_on)
      case False
      then show ?thesis using request data yield yields(4) [OF assms(2) [OF data(2)]] by simp
    next
      case True
      then have "P x1" using yields(3) [OF assms(2) [OF data(2)]] yield by simp
      note yields = consumesD [OF assms(1) this] and IH = Suc.IH [OF this]
      show ?thesis
        using request data yield True yields IH by (auto simp: yield_error_def split: sum.split)
    qed
  qed
qed

lemma searchResponses_consumes:
  assumes "consumes good P Q yield" and "\<And>data page. parse data = Inr page \<Longrightarrow> good page" and "P x"
  shows "Q (snd (searchResponses net client elems content n parse yield (w, x)))"
    and "Q (snd (continueResponses net client link n parse yield (w, x)))"
  using traverse_loop_consumes [OF assms(1,2)] assms(3) yield_error_consumes [OF assms(1)]
  by (auto simp: searchResponses_def continueResponses_def traversePages_def split: sum.split)

text \<open>A consumer that writes down what it is given.\<close>

definition noting_responses ::
  "(directory_error + 'a \<Rightarrow> 'x \<Rightarrow> bool \<times> 'x) \<Rightarrow> directory_error + 'a \<Rightarrow>
   'x \<times> (directory_error + 'a) list \<Rightarrow> bool \<times> 'x \<times> (directory_error + 'a) list" where
  "noting_responses yield event st =
     (case st of (x, log) \<Rightarrow> (case yield event x of (go_on, x) \<Rightarrow> (go_on, x, log @ [event])))"

definition noted :: "'w \<times> 'x \<times> 'e list \<Rightarrow> 'e list" where "noted st = snd (snd st)"

definition received :: "(directory_error + 'a) list \<Rightarrow> 'a list" where
  "received log = concat (map (\<lambda>event. case event of Inl _ \<Rightarrow> [] | Inr a \<Rightarrow> [a]) log)"

lemma delivered_simps [simp]:
  "received [] = []" "received [Inl e] = []" "received (log @ [Inl e]) = received log" "received (log @ [Inr a]) = received log @ [a]"
  by (simp_all add: received_def)

lemma noting_log: "snd (snd (noting_responses yield event st)) = snd st @ [event]"
  by (simp add: noting_responses_def split: prod.splits)

lemma noting_all:
  "consumes good (\<lambda>st. list_all good (received (snd st))) (\<lambda>st. list_all good (received (snd st))) (noting_responses yield)"
proof -
  have "snd st' = snd st @ [event]" if "noting_responses yield event st = (b, st')" for event st b st'
    using that noting_log [of yield event st] by simp
  then show ?thesis by (auto simp: consumes_def noting_log)
qed

lemma noted_start: "P (snd (w, x, [])) \<Longrightarrow> P (x, [])" by simp

lemma noted_good:
  assumes "\<And>data page. parse data = Inr page \<Longrightarrow> good page"
  shows "list_all good (received (noted (searchResponses net client elems content n parse (noting_responses yield) (w, x, []))))"
    and "list_all good (received (noted (continueResponses net client link n parse (noting_responses yield) (w, x, []))))"
  using searchResponses_consumes [OF noting_all, of parse good "(x, [])"] assms by (simp_all add: noted_def)


subsection \<open>Items\<close>

definition noting_options :: "'x iteration_options \<Rightarrow> ('x \<times> 'e list) iteration_options" where
  "noting_options options =
     \<lparr>io_max_items = io_max_items options, io_max_pages = io_max_pages options,
       io_on_issue = (\<lambda>i (x, log). (io_on_issue options i x, log))\<rparr>"

text \<open>What the item loop keeps of its count, while it goes on and when it is over.\<close>

definition counting_items :: "int \<Rightarrow> int \<times> 'x \<times> (directory_error + 'item) list \<Rightarrow> bool" where
  "counting_items maximum st \<longleftrightarrow>
     fst st = int (length (received (snd (snd st)))) \<and> fst st < maximum"

definition counted_items :: "int \<Rightarrow> int \<times> 'x \<times> (directory_error + 'item) list \<Rightarrow> bool" where
  "counted_items maximum st \<longleftrightarrow> int (length (received (snd (snd st)))) \<le> maximum"

lemma counting_step:
  assumes "counting_items maximum (count, x)" and "noting_responses yield (Inr item) x = (b, x1)"
  shows "if \<not> b \<or> maximum \<noteq> 0 \<and> count + 1 \<ge> maximum then counted_items maximum (count + 1, x1)
    else counting_items maximum (count + 1, x1)"
proof -
  have "snd x1 = snd x @ [Inr item]" using noting_log [of yield "Inr item" x] assms(2) by simp
  then show ?thesis using assms(1) by (simp add: counting_items_def counted_items_def)
qed

lemma yield_items_counting:
  "counting_items maximum (count, x) \<Longrightarrow> yield_items maximum (noting_responses yield) xs (count, x) = (go_on, st') \<Longrightarrow>
    if go_on then counting_items maximum st' else counted_items maximum st'"
proof (induction xs arbitrary: count x)
  case Nil
  then show ?case by auto
next
  case (Cons item rest)
  obtain b x1 where yield: "noting_responses yield (Inr item) x = (b, x1)" by (cases "noting_responses yield (Inr item) x")
  note step = counting_step [OF Cons.prems(1) yield]
  show ?case
  proof (cases "\<not> b \<or> maximum \<noteq> 0 \<and> count + 1 \<ge> maximum")
    case True
    then show ?thesis using Cons.prems(2) step yield by auto
  next
    case False
    then show ?thesis
      using Cons.IH [of "count + 1" x1] Cons.prems(2) step yield by (auto split: if_splits)
  qed
qed

lemma fold_noting_options:
  "snd (fold (io_on_issue (noting_options options)) issues x) = snd x"
  by (induction issues arbitrary: x) (auto simp: noting_options_def split: prod.splits)

lemma items_body_counting:
  assumes "0 < io_max_items options"
  shows "consumes (\<lambda>_. True) (counting_items (io_max_items options)) (counted_items (io_max_items options))
    (directory_items_body (noting_options options) (noting_responses yield))"
proof -
  let ?n = "io_max_items options"
  let ?body = "directory_items_body (noting_options options) (noting_responses yield)"
  have pages: "if go_on then counting_items ?n st' else counted_items ?n st'"
    if "counting_items ?n st" "?body (Inr page) st = (go_on, st')" for st page go_on st'
  proof -
    obtain count x where st: "st = (count, x)" by (cases st)
    let ?x = "fold (io_on_issue (noting_options options)) (rs_issues page) x"
    have "counting_items ?n (count, ?x)"
      using that(1) by (simp add: counting_items_def st fold_noting_options)
    then show ?thesis
      using that(2) yield_items_counting [of ?n count ?x yield "rs_items page" go_on st']
      by (simp add: directory_items_body_def st noting_options_def)
  qed
  have "counted_items ?n st" "counted_items ?n (snd (?body (Inl err) st))" if "counting_items ?n st" for st err
    using that by (auto simp: counting_items_def counted_items_def directory_items_body_def noting_log split: prod.splits)
  then show ?thesis using pages by (fastforce simp: consumes_def)
qed

lemma sequence_items_counted:
  assumes "0 < io_max_items options"
    and responses: "\<And>yield x. consumes (\<lambda>_. True) (counting_items (io_max_items options)) (counted_items (io_max_items options)) yield \<Longrightarrow>
      counting_items (io_max_items options) x \<Longrightarrow> counted_items (io_max_items options) (snd (responses yield (w, x)))"
  shows "int (length (received (noted (sequence_items responses (noting_options options) (noting_responses yield) (w, x, [])))))
    \<le> io_max_items options"
proof -
  let ?yield = "directory_items_body (noting_options options) (noting_responses yield)"
  have "counted_items (io_max_items options) (snd (responses ?yield (w, 0, x, [])))"
    using assms(1) by (intro responses items_body_counting) (simp_all add: counting_items_def)
  then show ?thesis
    using assms(1)
    by (auto simp: sequence_items_def noted_def counted_items_def noting_options_def noting_log split: prod.splits)
qed

text \<open>A caller that asks for at most \<open>MaxItems\<close> items of a search is given no more.\<close>

theorem directory_items_bounded:
  assumes "0 < io_max_items options"
  shows "int (length (received (noted (sequence_items
      (SearchServices env net client req (io_max_pages options)) (noting_options options) (noting_responses yield) (w, x, [])))))
    \<le> io_max_items options"
  using assms unfolding SearchServices_def
  by (rule sequence_items_counted) (erule searchResponses_consumes(1), simp, assumption)

subsection \<open>Traversals advance\<close>

text \<open>On a network that answers without redirects, a traversal after its first request sends one for each
  continuation, and no two of them to the same page.\<close>

definition answers_directly :: "'w network \<Rightarrow> bool" where
  "answers_directly net \<longleftrightarrow>
     (\<forall>req w. case fst (net_do net req w) of
        Inl _ \<Rightarrow> True | Inr response \<Rightarrow> \<not> redirectStatus (in_status response))"

lemma direct_request:
  assumes "answers_directly net" and "requestJSON (recorded net) client verb current content w = (r, w')"
  shows "snd w' = snd w \<and> isl r \<or> (\<exists>req. snd w' = snd w @ [req] \<and> out_url req = url_string current)"
proof (cases "NewRequest verb (url_string current) (directory_headers content) content")
  case (Inl e)
  with assms(2) show ?thesis by (auto simp: requestJSON_def request_loop.simps)
next
  case (Inr req)
  obtain answer w1 where sent: "net_do (recorded net) req w = (answer, w1)"
    by (cases "net_do (recorded net) req w")
  have "answer = fst (net_do net req (fst w))"
    using sent by (cases w) (auto simp: recorded_def split: prod.splits)
  then have "\<not> redirectStatus (in_status response)" if "answer = Inr response" for response
    using assms(1) that by (auto simp: answers_directly_def split: sum.splits)
  then have "w' = w1"
    using assms(2) sent Inr by (cases answer) (auto simp: requestJSON_def request_loop.simps)
  then show ?thesis using recorded_sends [OF sent] NewRequest_url [OF Inr] by auto
qed

definition advances :: "string list \<Rightarrow> url \<Rightarrow> out_request list \<Rightarrow> bool" where
  "advances visited current new \<longleftrightarrow> new = [] \<or>
     out_url (hd new) = url_string current \<and>
     (\<exists>us. map out_url (tl new) = map url_string us \<and> distinct (map traversalKey us) \<and>
        set (map traversalKey us) \<inter> set visited = {})"

lemma traverse_loop_advances:
  assumes "answers_directly net"
  shows "\<exists>new. sent_by (traverse_loop (recorded net) client maxPages parse yield rounds current verb content
      visited (w, x)) = snd w @ new \<and> advances visited current new"
proof (induction rounds arbitrary: current verb content visited w x)
  case 0
  then show ?case by (simp add: sent_by_def advances_def)
next
  case (Suc rounds)
  show ?case
  proof (rule traverse_step [of "recorded net" client verb current content w maxPages parse yield rounds visited x])
    fix r w' x'
    assume "requestJSON (recorded net) client verb current content w = (r, w')"
      and loop: "traverse_loop (recorded net) client maxPages parse yield (Suc rounds) current verb content
        visited (w, x) = (w', x')"
    from direct_request [OF assms this(1)] show ?thesis
      unfolding loop by (auto simp: sent_by_def advances_def)
  next
    fix data w' x' link "next"
    assume request: "requestJSON (recorded net) client verb current content w = (Inr data, w')"
      and fresh: "traversalKey next \<notin> set visited"
      and loop: "traverse_loop (recorded net) client maxPages parse yield (Suc rounds) current verb content
        visited (w, x) = traverse_loop (recorded net) client maxPages parse yield rounds next ''GET'' None
          (traversalKey next # visited) (w', x')"
    obtain req where req: "snd w' = snd w @ [req]" "out_url req = url_string current"
      using direct_request [OF assms request] by auto
    obtain more where more: "sent_by (traverse_loop (recorded net) client maxPages parse yield rounds next ''GET''
        None (traversalKey next # visited) (w', x')) = snd w' @ more" "advances (traversalKey next # visited) next more"
      using Suc.IH by blast
    have "advances visited current (req # more)"
    proof (cases more)
      case Nil
      then show ?thesis using req(2) by (simp add: advances_def)
    next
      case (Cons first rest)
      then obtain us where "out_url first = url_string next" "map out_url rest = map url_string us"
        "distinct (map traversalKey us)" "set (map traversalKey us) \<inter> set (traversalKey next # visited) = {}"
        using more(2) by (auto simp: advances_def)
      then show ?thesis
        using Cons req(2) fresh unfolding advances_def by (intro disjI2 conjI exI [of _ "next # us"]) auto
    qed
    then show ?thesis using more(1) req(1) unfolding loop by (intro exI [of _ "req # more"]) simp
  qed
qed


subsection \<open>Failure messages\<close>

text \<open>No byte that ends a line of a log or starts a terminal's escape sequence.\<close>

definition printable_byte :: "char \<Rightarrow> bool" where
  "printable_byte c \<longleftrightarrow> 32 \<le> byte c \<and> byte c \<noteq> 127"

lemma printable_rune:
  "32 \<le> r \<Longrightarrow> r \<noteq> 127 \<Longrightarrow> r < 4194304 \<Longrightarrow> list_all printable_byte (encode_rune r)"
  by (auto simp: encode_rune_def printable_byte_def of_char_mod_256 take_bit_eq_mod mod_less less_mult_imp_div_less)

text \<open>The runes of a string are ASCII only where its bytes are, and small enough to be encoded.\<close>

lemma decode_rune_range:
  "fst (decode_rune (c # s)) < 4194304 \<and> (fst (decode_rune (c # s)) < 128 \<longrightarrow> fst (decode_rune (c # s)) = byte c)"
proof -
  consider "byte c < 194 \<or> 244 < byte c" | "194 \<le> byte c" "byte c < 224" | "224 \<le> byte c" "byte c < 240"
    | "240 \<le> byte c" "byte c \<le> 244"
    by linarith
  then show ?thesis
  proof cases
    case 1
    then show ?thesis by (auto simp: Let_def rune_error_def)
  next
    case 2
    then show ?thesis by (auto simp: Let_def rune_error_def cont_byte_def split: list.split)
  next
    case 3
    then show ?thesis
      by (auto simp: Let_def rune_error_def cont_byte_def in_second_range_def second_range_def split: list.split)
  next
    case 4
    then show ?thesis
      by (auto simp: Let_def rune_error_def cont_byte_def in_second_range_def second_range_def split: list.split)
  qed
qed

lemma rune_spans_bytes: "(r, bs) \<in> set (rune_spans s) \<Longrightarrow> set bs \<subseteq> set s \<and> (\<exists>c t. c \<in> set s \<and> r = fst (decode_rune (c # t)))"
proof (induction s rule: rune_spans.induct)
  case (1 s)
  show ?case
  proof (cases s)
    case Nil
    then show ?thesis using 1 by simp
  next
    case (Cons c t)
    consider "r = fst (decode_rune s)" "bs = take (snd (decode_rune s)) s"
      | "(r, bs) \<in> set (rune_spans (drop (snd (decode_rune s)) s))"
      using 1(2) Cons by (subst (asm) rune_spans.simps) (auto simp del: decode_rune.simps)
    then show ?thesis
    proof cases
      case 1
      then show ?thesis using Cons by (auto simp del: decode_rune.simps dest: in_set_takeD)
    next
      case 2
      then show ?thesis using 1(1) Cons by (blast dest: in_set_dropD)
    qed
  qed
qed

lemma decode_runes_range: "r \<in> set (decode_runes s) \<Longrightarrow> r < 4194304"
  using decode_rune_range by (auto simp: decode_runes_def simp del: decode_rune.simps dest!: rune_spans_bytes)

lemma printable_mapped: "list_all printable_byte (map_runes (\<lambda>r. if terminal_rune r then 32 else r) s)"
proof -
  have "list_all printable_byte (encode_rune (if terminal_rune r then 32 else r))" if "r \<in> set (decode_runes s)" for r
    using decode_runes_range [OF that] by (intro printable_rune) (auto simp: terminal_rune_def)
  then show ?thesis by (auto simp: map_runes_def list_all_iff)
qed

lemma fields_from_bytes:
  "x \<in> set (fields_from spans acc) \<Longrightarrow> set x \<subseteq> set acc \<union> \<Union> (set ` snd ` set spans)"
  by (induction spans acc rule: fields_from.induct) (fastforce split: if_splits)+

lemma printable_fields: "list_all printable_byte s \<Longrightarrow> x \<in> set (GoStrings.fields s) \<Longrightarrow> list_all printable_byte x"
  using fields_from_bytes [of x "rune_spans s" "[]"]
  by (fastforce simp: GoStrings.fields_def list_all_iff dest: rune_spans_bytes)

lemma printable_join:
  "list_all printable_byte sep \<Longrightarrow> (\<And>x. x \<in> set xs \<Longrightarrow> list_all printable_byte x) \<Longrightarrow>
    list_all printable_byte (join_with sep xs)"
  by (induction sep xs rule: join_with.induct) auto

lemma printable_space: "list_all printable_byte '' ''"
  by code_simp

lemma printableText_printable: "list_all printable_byte (printableText text)"
  unfolding printableText_def
  by (intro printable_join printable_space printable_fields [OF printable_mapped])

lemma printable_runes:
  assumes "list_all printable_byte s" and "r \<in> set (decode_runes s)"
  shows "list_all printable_byte (encode_rune r)"
proof -
  obtain c t where c: "c \<in> set s" "r = fst (decode_rune (c # t))"
    using assms(2) by (auto simp: decode_runes_def simp del: decode_rune.simps dest!: rune_spans_bytes)
  then have "printable_byte c" using assms(1) by (simp add: list_all_iff)
  then have "32 \<le> r" "r \<noteq> 127" "r < 4194304"
    using decode_rune_range [of c t] c(2) by (auto simp: printable_byte_def simp del: decode_rune.simps)
  then show ?thesis by (rule printable_rune)
qed

lemma printable_truncated: "list_all printable_byte s \<Longrightarrow> list_all printable_byte (truncated_detail s)"
proof -
  assume s: "list_all printable_byte s"
  have "list_all printable_byte ellipsis" by code_simp
  then show ?thesis
    using s printable_runes [OF s] by (auto simp: truncated_detail_def list_all_iff dest: in_set_takeD)
qed

lemma printable_itoa: "list_all printable_byte (itoa n)"
proof -
  have "list_all printable_byte (nat_digits m)" for m
    using nat_digits_all [of m] by (auto simp: list_all_iff is_digit_def printable_byte_def)
  moreover have "printable_byte CHR ''-''" by code_simp
  ultimately show ?thesis by (simp add: itoa_def)
qed

lemma printable_first_detail: "list_all printable_byte summary \<Longrightarrow> list_all printable_byte (first_detail summary details)"
proof (induction details)
  case (Cons candidate rest)
  have "list_all printable_byte '': ''" by code_simp
  then show ?case
    using Cons printable_truncated [OF printableText_printable] by (simp add: list_all_append)
qed simp

lemma failureMessage_detail:
  "\<exists>details. failureMessage h data status =
    first_detail (''Directory request failed with HTTP '' @ itoa status) details"
proof -
  have "\<exists>details. summary = first_detail summary details" for summary
    by (rule exI [of _ "[]"]) simp
  then show ?thesis
    unfolding failureMessage_def Let_def by (simp only: split: option.split if_split) blast
qed

text \<open>C36: the message of a failed request has no ASCII control character, whatever the Directory sent.\<close>

theorem failureMessage_printable: "list_all printable_byte (failureMessage h data status)"
proof -
  have "list_all printable_byte ''Directory request failed with HTTP ''" by code_simp
  then have "list_all printable_byte (''Directory request failed with HTTP '' @ itoa status)"
    by (simp only: list_all_append printable_itoa)
  then show ?thesis
    using failureMessage_detail [of h data status] printable_first_detail by metis
qed

subsection \<open>Examples\<close>

definition looping_page :: string where
  "looping_page = ''{'' @ CHR 0x22 # ''items'' @ CHR 0x22 # '':[],'' @
     CHR 0x22 # ''next'' @ CHR 0x22 # '':'' @ CHR 0x22 # ''/v1/p'' @ [CHR 0x22, CHR ''}'']"

definition sandbox_client :: directory_client where
  "sandbox_client =
     \<lparr>dc_environment = ''sandbox'',
       dc_origin = empty_url\<lparr>scheme := ''https'', host := ''sandbox.inflowpay.ai''\<rparr>\<rparr>"

lemma sandbox: "NewDirectory ''sandbox'' = Inr sandbox_client"
  by code_simp

definition looping_url :: url where
  "looping_url = empty_url\<lparr>scheme := ''https'', host := ''sandbox.inflowpay.ai'', url_path := ''/v1/p''\<rparr>"

lemma looping_link: "continuationURL sandbox_client ''/v1/p'' = Inr looping_url"
  by code_simp

definition looping_response :: in_response where
  "looping_response =
     \<lparr>in_status = 200, in_header = [(''Content-Type'', [''application/json''])],
       in_length = int (length looping_page), in_body = looping_page, in_failure = None\<rparr>"

text \<open>A Directory that answers every request with a page that continues with \<open>/v1/p\<close>.\<close>

definition looping_net :: "unit network" where
  "looping_net =
     \<lparr>net_do = (\<lambda>req w. (Inr looping_response, w)), net_now = (\<lambda>w. (0, w))\<rparr>"

lemma looping_value:
  "parse_value 56 looping_page = Some (JObj [(''items'', JArr []), (''next'', JStr ''/v1/p'')], [])"
  by code_simp

lemma looping_ascii: "ascii looping_page" "ascii ''/v1/p''"
proof -
  have "list_all (\<lambda>c. byte c < 128) looping_page" "list_all (\<lambda>c. byte c < 128) ''/v1/p''" by code_simp+
  then show "ascii looping_page" "ascii ''/v1/p''" by (simp_all add: ascii_def list_all_iff)
qed

lemma looping_facts:
  "ParseMediaType (header_get [(''Content-Type'', [''application/json''])] ''Content-Type'') = Some ''application/json''"
  "utf8_valid looping_page" "length looping_page = 27" "rune_count ''/v1/p'' = 5" "trim_space ''/v1/p'' = ''/v1/p''"
proof -
  have "header_get [(''Content-Type'', [''application/json''])] ''Content-Type'' = ''application/json''"
    "to_lower ''application/json'' = ''application/json''" "checkMediaTypeDisposition ''application/json''"
    by code_simp+
  moreover have "trim_space ''application/json'' = ''application/json''"
    by (rule trim_space_no_space) (simp_all add: ascii_def is_space_def)
  ultimately show "ParseMediaType (header_get [(''Content-Type'', [''application/json''])] ''Content-Type'') =
      Some ''application/json''"
    by (simp add: ParseMediaType_def parse_media_type_def trim_left_def)
  show "utf8_valid looping_page" by (rule utf8_valid_ascii [OF looping_ascii(1)])
  show "length looping_page = 27" by (simp add: looping_page_def)
  show "rune_count ''/v1/p'' = 5" by (simp add: rune_count_ascii looping_ascii)
  show "trim_space ''/v1/p'' = ''/v1/p''"
    by (rule trim_space_no_space) (simp_all add: looping_ascii is_space_def)
qed

definition empty_page :: "json search_response" where
  "empty_page = \<lparr>rs_additional = None, rs_facets = None, rs_issues = [], rs_items = [], rs_next = ''/v1/p''\<rparr>"

lemma looping_parsed: "parsePage Inr ''result'' looping_page = Inr empty_page"
  using looping_value looping_facts
  by (simp add: parsePage_def decode_text_def skip_space_def parse_map_def page_values_def optional_facets_def
      optionalText_def requiredText_def decode_string_def requireText_def cloneAdditional_def empty_page_def)

lemma looping_consumed: "consumeDirectory looping_response = Inr looping_page"
  using looping_facts looping_value
  by (simp add: consumeDirectory_def looping_response_def read_response_def maximumResponseBytes_def
      successful_def read_json_def skip_space_def)

definition looping_request :: out_request where
  "looping_request =
     \<lparr>out_method = ''GET'', out_url = ''https://sandbox.inflowpay.ai/v1/p'',
       out_header = directory_headers None, out_body = None\<rparr>"

lemma looping_new_request:
  "NewRequest ''GET'' (url_string looping_url) (directory_headers None) None = Inr looping_request"
proof -
  have "url_string looping_url = ''https://sandbox.inflowpay.ai/v1/p''" by code_simp
  moreover have "Parse ''https://sandbox.inflowpay.ai/v1/p'' \<noteq> None" "list_all header_field_byte ''GET''"
    by code_simp+
  ultimately show ?thesis by (simp add: NewRequest_def looping_request_def)
qed

lemma looping_answer:
  "requestJSON (recorded looping_net) sandbox_client ''GET'' looping_url None ((), log) =
     (Inr looping_page, (), log @ [looping_request])"
proof -
  have "\<not> redirectStatus (in_status looping_response)" by code_simp
  then show ?thesis
    by (simp add: requestJSON_def request_loop.simps looping_new_request recorded_def looping_net_def
        looping_consumed)
qed


definition example_directory_env :: directory_env where
  "example_directory_env = \<lparr>dv_schemas = lenient_env, dv_to_ascii = Some\<rparr>"

definition example_search :: search_request where
  "example_search = \<lparr>sr_filters = None, sr_limit = 0, sr_query = ''lamps''\<rparr>"

definition example_iteration :: "unit iteration_options" where
  "example_iteration = \<lparr>io_max_items = 2, io_max_pages = 3, io_on_issue = (\<lambda>_ x. x)\<rparr>"

theorem directory_requests_stay_witness:
  "within sandbox_client (budget_of 3)
     (sent_by (SearchServices example_directory_env (recorded looping_net) sandbox_client example_search 3
       (\<lambda>_ x. (True, x)) (((), []), ())))"
  using directory_requests_stay [OF sandbox, where n = 3 and env = example_directory_env and net = looping_net
      and req = example_search and yield = "\<lambda>_ x. (True, x)" and w = "()" and x = "()"]
  by (rule conjunct1)

theorem directory_items_bounded_witness:
  "int (length (received (noted (sequence_items
      (SearchServices example_directory_env looping_net sandbox_client example_search 3)
      (noting_options example_iteration) (noting_responses (\<lambda>_ x. (True, x))) ((), (), []))))) \<le> 2"
proof -
  have "io_max_items example_iteration = 2" "io_max_pages example_iteration = 3" by (simp_all add: example_iteration_def)
  then show ?thesis
    using directory_items_bounded [of example_iteration example_directory_env looping_net sandbox_client example_search
      "\<lambda>_ x. (True, x)" "()" "()"] by simp
qed


end
