(* ===== verification/AgentFederated.thy ===== *)
theory AgentFederated
  imports AgentClient DirectoryClient
begin

section \<open>Searching Offerings across Services\<close>

text \<open>
  \<open>agent/agent.go\<close>: an Agent asks the Directory for Services and searches each of them, at most
  \<open>concurrency\<close> at a time, in goroutines that send their events on a channel of their own; the
  caller reads the channels in the order of the Services.  What one goroutine does is the function
  \<open>searchService\<close>; how goroutines and the reading loop interleave is the step relation
  \<open>fed_step\<close>.  \<open>AgentOptions.ServiceClient\<close> is a parameter, and so is the world in which a
  goroutine runs its search: other goroutines may change it at any time.
\<close>

record federated_request =
  fr_concurrency :: int
  fr_max_offerings :: int
  fr_max_services :: int
  fr_offerings :: offering_search
  fr_services :: search_request

text \<open>The type of an event is \<open>offering\<close> when it has one and \<open>issue\<close> when it has an error.\<close>

datatype discovery_event =
    DiscoveryOffering gval directory_service
  | DiscoveryIssue agent_error directory_service

fun event_service :: "discovery_event \<Rightarrow> directory_service" where
  "event_service (DiscoveryOffering offering service) = service"
| "event_service (DiscoveryIssue err service) = service"

datatype federated_error = Unsupported string | FromDirectory directory_error | ContextDone

definition bounded_option :: "int \<Rightarrow> int \<Rightarrow> int \<Rightarrow> int \<Rightarrow> string \<Rightarrow> federated_error + nat" where
  "bounded_option n fallback minimum maximum name =
     (let n = (if n = 0 then fallback else n) in
      if n < minimum \<or> n > maximum then Inl (Unsupported (name @ '' is outside its supported bounds''))
      else Inr (nat n))"

text \<open>The limits: Services, Offerings of each, and searches at a time.\<close>

definition federated_limits :: "federated_request \<Rightarrow> federated_error + nat \<times> nat \<times> nat" where
  "federated_limits req =
     bind_res (bounded_option (fr_max_services req) 10 1 100 ''maximum Services'') (\<lambda>services.
     bind_res (bounded_option (fr_max_offerings req) 10 1 100 ''maximum Offerings per Service'') (\<lambda>offerings.
     bind_res (bounded_option (fr_concurrency req) 4 1 16 ''concurrency'') (\<lambda>concurrency.
       Inr (services, offerings, concurrency))))"

subsection \<open>The Services\<close>

text \<open>The body of the range over the Services: the first error ends it.\<close>

definition gather_service ::
  "directory_error + directory_service \<Rightarrow> directory_error option \<times> directory_service list \<Rightarrow>
   bool \<times> directory_error option \<times> directory_service list" where
  "gather_service event x =
     (case x of (err, services) \<Rightarrow>
        (case event of
           Inl e \<Rightarrow> (False, Some e, services)
         | Inr service \<Rightarrow> (True, err, services @ [service])))"

definition gather_services ::
  "directory_env \<Rightarrow> 'w network \<Rightarrow> directory_client \<Rightarrow> search_request \<Rightarrow> nat \<Rightarrow> 'w \<Rightarrow>
   (federated_error + directory_service list) \<times> 'w" where
  "gather_services env net client req maximum w =
     (case sequence_items (SearchServices env net client req 0)
             \<lparr>io_max_items = int maximum, io_max_pages = 0, io_on_issue = (\<lambda>_ x. x)\<rparr>
             gather_service (w, None, []) of
        (w, Some err, services) \<Rightarrow> (Inl (FromDirectory err), w)
      | (w, None, services) \<Rightarrow> (Inr services, w))"

text \<open>What the search starts with: the Services, and the limits that are left.\<close>

definition federated_start ::
  "directory_env \<Rightarrow> 'w network \<Rightarrow> directory_client \<Rightarrow> federated_request \<Rightarrow> 'w \<Rightarrow>
   (federated_error + directory_service list \<times> nat \<times> nat) \<times> 'w" where
  "federated_start env net client req w =
     (case federated_limits req of
        Inl err \<Rightarrow> (Inl err, w)
      | Inr (services, offerings, concurrency) \<Rightarrow>
          (case gather_services env net client (fr_services req) services w of
             (Inl err, w) \<Rightarrow> (Inl err, w)
           | (Inr found, w) \<Rightarrow> (Inr (found, offerings, concurrency), w)))"

subsection \<open>One Service\<close>

definition not_nil :: "gval \<Rightarrow> bool" where
  "not_nil v \<longleftrightarrow> v \<notin> {GSlice None, GMap None, GPtr None, GRaw None}"

definition hasOfferingSearch :: "offering_search \<Rightarrow> bool" where
  "hasOfferingSearch options \<longleftrightarrow>
     so_query options \<noteq> [] \<or> not_nil (so_filters options) \<or> so_descendants options \<or>
     so_sort options \<noteq> [] \<or> not_nil (so_refinements options)"

definition gather_offering ::
  "('s, agent_error option \<times> gval list) item_yield" where
  "gather_offering event st =
     (case st of (s, err, vals) \<Rightarrow>
        (case event of Inl e \<Rightarrow> (False, s, Some e, vals) | Inr v \<Rightarrow> (True, s, err, vals @ [v])))"

definition terse_list :: "nat \<Rightarrow> list_options" where
  "terse_list maximum =
     \<lparr>lo_limit = 0, lo_max_items = int maximum, lo_max_pages = 0, lo_representation = ''terse''\<rparr>"

definition offering_sequence where
  "offering_sequence env client options maximum =
     (if hasOfferingSearch options then
        SearchOfferings env client
          (options\<lparr>so_list := (so_list options)\<lparr>lo_max_items := int maximum, lo_representation := ''terse''\<rparr>\<rparr>)
      else if so_collection options \<noteq> [] then
        ListCollectionOfferings env client (so_collection options) (terse_list maximum)
      else ListOfferings env client (terse_list maximum))"

definition searchService ::
  "('c, 'w) agent_env \<Rightarrow> (directory_service \<Rightarrow> agent_error + service_client) \<Rightarrow> offering_search \<Rightarrow> nat \<Rightarrow>
   directory_service \<Rightarrow> ('c, 'w) agent_state \<Rightarrow> discovery_event list \<times> ('c, 'w) agent_state" where
  "searchService env factory options maximum service s =
     (case factory service of
        Inl err \<Rightarrow> ([DiscoveryIssue err service], s)
      | Inr client \<Rightarrow>
          (case offering_sequence env client options maximum gather_offering (s, None, []) of
             (s, Some err, vals) \<Rightarrow> ([DiscoveryIssue err service], s)
           | (s, None, vals) \<Rightarrow> (map (\<lambda>v. DiscoveryOffering v service) vals, s)))"

subsection \<open>The Agent\<close>

definition default_service_client ::
  "(string \<Rightarrow> string option) \<Rightarrow> directory_service \<Rightarrow> agent_error + service_client" where
  "default_service_client to_ascii service =
     NewServiceClient to_ascii
       \<lparr>co_language = [], co_fallbacks = \<lparr>fb_schema = 0, fb_capability = 0, fb_collection = 0,
          fb_offering = 0, fb_search = 0, fb_document = 0\<rparr>, co_partition = [], co_own_http = False,
        co_page_size = 0, co_redirects = 0, co_url = sv_origin service\<rparr>"

record agent =
  ag_directory :: directory_client
  ag_environment :: string
  ag_service_client :: "directory_service \<Rightarrow> agent_error + service_client"

definition NewAgent ::
  "(string \<Rightarrow> string option) \<Rightarrow> directory_client option \<Rightarrow> string \<Rightarrow>
   (directory_service \<Rightarrow> agent_error + service_client) option \<Rightarrow> directory_error + agent" where
  "NewAgent to_ascii given environment factory =
     bind_res (case given of Some client \<Rightarrow> Inr client | None \<Rightarrow> NewDirectory environment) (\<lambda>client.
       Inr \<lparr>ag_directory = client, ag_environment = dc_environment client,
         ag_service_client = (case factory of Some f \<Rightarrow> f | None \<Rightarrow> default_service_client to_ascii)\<rparr>)"

subsection \<open>Goroutines\<close>

text \<open>
  A goroutine waits for the semaphore, runs its search, and has sent its events or, when the work
  context was done as well, may have dropped them.  \<open>fed_done\<close> is \<open>ctx.Done\<close>; \<open>fed_stopped\<close> holds when the iterator has returned, which cancels the work context.
\<close>

datatype worker = Queued | Running | Sent "discovery_event list" | Dropped

record federated_state =
  fed_workers :: "worker list"
  fed_next :: nat
  fed_events :: "(federated_error + discovery_event) list"
  fed_done :: bool
  fed_stopped :: bool

definition running :: "worker list \<Rightarrow> nat" where
  "running ws = length (filter (\<lambda>w. w = Running) ws)"

definition canceled :: agent_error where "canceled = Message ''context canceled''"

text \<open>The loop over the events of a Service: the consumer is asked whether to go on after each.\<close>

fun emit ::
  "((federated_error + discovery_event) list \<Rightarrow> bool) \<Rightarrow> (federated_error + discovery_event) list \<Rightarrow>
   discovery_event list \<Rightarrow> bool \<times> (federated_error + discovery_event) list" where
  "emit accepts log [] = (True, log)"
| "emit accepts log (e # rest) =
     (if accepts (log @ [Inr e]) then emit accepts (log @ [Inr e]) rest else (False, log @ [Inr e]))"

text \<open>
  \<open>outcome i evs\<close>: the search of the i-th Service may answer \<open>evs\<close>.  The steps: a goroutine takes
  the semaphore; it gives up because the context is done; it finishes its search and sends what it
  found, or drops it because the context is done; the reading loop takes the next channel and yields its events; the context ends; the
  reading loop sees that.
\<close>

inductive fed_step ::
  "nat \<Rightarrow> directory_service list \<Rightarrow> (nat \<Rightarrow> discovery_event list \<Rightarrow> bool) \<Rightarrow>
   ((federated_error + discovery_event) list \<Rightarrow> bool) \<Rightarrow> federated_state \<Rightarrow> federated_state \<Rightarrow> bool"
  for concurrency services outcome accepts where
  start: "i < length (fed_workers st) \<Longrightarrow> fed_workers st ! i = Queued \<Longrightarrow>
    running (fed_workers st) < concurrency \<Longrightarrow>
    fed_step concurrency services outcome accepts st (st\<lparr>fed_workers := (fed_workers st)[i := Running]\<rparr>)"
| give_up: "i < length (fed_workers st) \<Longrightarrow> fed_workers st ! i = Queued \<Longrightarrow> fed_done st \<or> fed_stopped st \<Longrightarrow>
    fed_step concurrency services outcome accepts st
      (st\<lparr>fed_workers := (fed_workers st)[i := Sent [DiscoveryIssue canceled (services ! i)]]\<rparr>)"
| drop_events: "i < length (fed_workers st) \<Longrightarrow> fed_workers st ! i \<in> {Queued, Running} \<Longrightarrow>
    fed_done st \<or> fed_stopped st \<Longrightarrow>
    fed_step concurrency services outcome accepts st
      (st\<lparr>fed_workers := (fed_workers st)[i := Dropped]\<rparr>)"
| finish: "i < length (fed_workers st) \<Longrightarrow> fed_workers st ! i = Running \<Longrightarrow> outcome i evs \<Longrightarrow>
    fed_step concurrency services outcome accepts st (st\<lparr>fed_workers := (fed_workers st)[i := Sent evs]\<rparr>)"
| deliver: "\<not> fed_stopped st \<Longrightarrow> fed_next st < length (fed_workers st) \<Longrightarrow>
    fed_workers st ! fed_next st = Sent evs \<Longrightarrow> emit accepts (fed_events st) evs = (go_on, log) \<Longrightarrow>
    fed_step concurrency services outcome accepts st
      (st\<lparr>fed_next := Suc (fed_next st), fed_events := log, fed_stopped := \<not> go_on\<rparr>)"
| expire: "fed_step concurrency services outcome accepts st (st\<lparr>fed_done := True\<rparr>)"
| interrupt: "\<not> fed_stopped st \<Longrightarrow> fed_next st < length (fed_workers st) \<Longrightarrow> fed_done st \<Longrightarrow>
    fed_step concurrency services outcome accepts st
      (st\<lparr>fed_events := fed_events st @ [Inl ContextDone], fed_stopped := True\<rparr>)"

inductive_cases fed_stepE: "fed_step concurrency services outcome accepts st st'"

definition fed_initial :: "directory_service list \<Rightarrow> federated_state" where
  "fed_initial services =
     \<lparr>fed_workers = replicate (length services) Queued, fed_next = 0, fed_events = [], fed_done = False,
       fed_stopped = False\<rparr>"

definition service_outcome ::
  "('c, 'w) agent_env \<Rightarrow> (directory_service \<Rightarrow> agent_error + service_client) \<Rightarrow> offering_search \<Rightarrow> nat \<Rightarrow>
   directory_service list \<Rightarrow> nat \<Rightarrow> discovery_event list \<Rightarrow> bool" where
  "service_outcome env factory options maximum services i evs \<longleftrightarrow>
     (\<exists>s. fst (searchService env factory options maximum (services ! i) s) = evs)"

definition federated_run where
  "federated_run env factory options maximum concurrency services accepts =
     (fed_step concurrency services (service_outcome env factory options maximum services) accepts)\<^sup>*\<^sup>*
       (fed_initial services)"

subsection \<open>What one search answers\<close>

definition gathering :: "int \<Rightarrow> (agent_error option \<times> gval list) \<times> int \<Rightarrow> bool" where
  "gathering maximum x \<longleftrightarrow>
     int (length (snd (fst x))) = snd x \<and> (maximum = 0 \<or> snd x \<le> max 0 maximum)"

lemma item_rounds_gathering:
  "gathering maximum (snd st) \<Longrightarrow> gathering maximum (snd (snd (item_rounds gather_offering maximum items st)))"
proof (induction items arbitrary: st)
  case (Cons item items)
  obtain s err vals count where st: "st = (s, (err, vals), count)" by (metis prod.exhaust)
  show ?case
  proof (cases "maximum \<noteq> 0 \<and> count \<ge> maximum")
    case True
    with Cons.prems st show ?thesis by simp
  next
    case False
    then have "gathering maximum ((err, vals @ [item]), count + 1)"
      using Cons.prems st by (auto simp: gathering_def)
    then show ?thesis
      using False st Cons.IH [of "(s, (err, vals @ [item]), count + 1)"] by (auto simp: gather_offering_def)
  qed
qed simp

lemma page_items_gathering: "maintains (gathering maximum) (page_items gather_offering maximum)"
  unfolding maintains_def
proof (intro allI impI)
  fix event and s :: 's and x :: "(agent_error option \<times> gval list) \<times> int"
  assume "gathering maximum x"
  then show "gathering maximum (snd (snd (page_items gather_offering maximum event (s, x))))"
    using item_rounds_gathering [of maximum "(s, x)"]
    by (cases event) (auto simp: page_items_def fail_with_def gather_offering_def gathering_def split: prod.split)
qed

lemma offering_items_gathering:
  assumes "0 < lo_max_items options"
    and "offeringItems env client operation ident options search gather_offering (s, None, []) = (s', err, vals)"
  shows "int (length vals) \<le> lo_max_items options"
proof -
  have "gathering (lo_max_items options) (snd (offeringPages env client operation ident options search
      (page_items gather_offering (lo_max_items options)) (s, (None, []), 0)))"
    by (rule pages_keep(3) [OF page_items_gathering]) (simp add: gathering_def)
  then show ?thesis
    using assms by (auto simp: offeringItems_def counting_def gathering_def split: prod.splits)
qed

lemma offering_sequence_gathering:
  assumes "0 < maximum" and "offering_sequence env client options maximum gather_offering (s, None, []) = (s', err, vals)"
  shows "length vals \<le> maximum"
proof -
  have "int (length vals) \<le> int maximum"
    using assms offering_items_gathering [where options = "terse_list maximum" and s = s and s' = s' and err = err and vals = vals]
      offering_items_gathering [where options = "(so_list options)\<lparr>lo_max_items := int maximum, lo_representation := ''terse''\<rparr>"
        and s = s and s' = s' and err = err and vals = vals]
    by (auto simp: offering_sequence_def SearchOfferings_def ListOfferings_def ListCollectionOfferings_def
        terse_list_def split: if_splits)
  then show ?thesis by simp
qed

text \<open>At most \<open>maximum\<close> Offerings of the Service, or one issue.\<close>

definition service_answer :: "directory_service \<Rightarrow> nat \<Rightarrow> discovery_event list \<Rightarrow> bool" where
  "service_answer service maximum evs \<longleftrightarrow>
     (\<exists>err. evs = [DiscoveryIssue err service]) \<or>
     (\<exists>vals. evs = map (\<lambda>v. DiscoveryOffering v service) vals \<and> length vals \<le> maximum)"

lemma searchService_answer:
  assumes "0 < maximum"
  shows "service_answer service maximum (fst (searchService env factory options maximum service s))"
proof (cases "factory service")
  case (Inl err)
  then show ?thesis by (auto simp: searchService_def service_answer_def)
next
  case (Inr client)
  obtain s' err vals where run: "offering_sequence env client options maximum gather_offering (s, None, []) = (s', err, vals)"
    by (metis prod_cases3)
  from Inr run offering_sequence_gathering [OF assms run] show ?thesis
    by (cases err) (auto simp: searchService_def service_answer_def)
qed

subsection \<open>What the caller sees\<close>

definition found_events :: "(federated_error + discovery_event) list \<Rightarrow> discovery_event list" where
  "found_events log = concat (map (case_sum (\<lambda>_. []) (\<lambda>e. [e])) log)"

lemma found_events_append [simp]:
  "found_events [] = []" "found_events (log @ [Inr e]) = found_events log @ [e]"
  "found_events (log @ [Inl x]) = found_events log"
  by (simp_all add: found_events_def)

lemma emit_found:
  "emit accepts log evs = (go_on, log') \<Longrightarrow>
    prefix (found_events log') (found_events log @ evs) \<and> (go_on \<longrightarrow> found_events log' = found_events log @ evs)"
  by (induction evs arbitrary: log) (fastforce split: if_splits)+

lemma running_update:
  assumes "i < length ws"
  shows "running (ws[i := w]) + running [ws ! i] = running ws + running [w]"
proof -
  have parts: "running (xs @ y # zs) = running xs + running [y] + running zs" for xs y zs
    by (simp add: running_def)
  have "running ws = running (take i ws) + running [ws ! i] + running (drop (Suc i) ws)"
    using assms parts by (metis id_take_nth_drop)
  moreover have "running (ws[i := w]) = running (take i ws) + running [w] + running (drop (Suc i) ws)"
    using assms parts by (metis upd_conv_take_nth_drop)
  ultimately show ?thesis by simp
qed

lemma running_start: "i < length ws \<Longrightarrow> ws ! i = Queued \<Longrightarrow> running (ws[i := Running]) = Suc (running ws)"
  using running_update [of i ws Running] by (simp add: running_def)

lemma running_sent: "i < length ws \<Longrightarrow> w \<noteq> Running \<Longrightarrow> running (ws[i := w]) \<le> running ws"
  using running_update [of i ws w] by (simp add: running_def)

text \<open>What may be sent for the i-th Service, and what stays true of the run.\<close>

definition may_send ::
  "directory_service list \<Rightarrow> (nat \<Rightarrow> discovery_event list \<Rightarrow> bool) \<Rightarrow> nat \<Rightarrow> discovery_event list \<Rightarrow> bool" where
  "may_send services outcome i evs \<longleftrightarrow> outcome i evs \<or> evs = [DiscoveryIssue canceled (services ! i)]"

definition in_order ::
  "directory_service list \<Rightarrow> (nat \<Rightarrow> discovery_event list \<Rightarrow> bool) \<Rightarrow> federated_state \<Rightarrow>
   discovery_event list list \<Rightarrow> bool" where
  "in_order services outcome st outs \<longleftrightarrow>
     length outs = fed_next st \<and> (\<forall>i<length outs. may_send services outcome i (outs ! i)) \<and>
     prefix (found_events (fed_events st)) (concat outs) \<and>
     (\<not> fed_stopped st \<longrightarrow> found_events (fed_events st) = concat outs)"

definition fed_inv ::
  "nat \<Rightarrow> directory_service list \<Rightarrow> (nat \<Rightarrow> discovery_event list \<Rightarrow> bool) \<Rightarrow> federated_state \<Rightarrow> bool" where
  "fed_inv concurrency services outcome st \<longleftrightarrow>
     length (fed_workers st) = length services \<and> running (fed_workers st) \<le> concurrency \<and>
     fed_next st \<le> length services \<and>
     (\<forall>i<length services. \<forall>evs. fed_workers st ! i = Sent evs \<longrightarrow> may_send services outcome i evs) \<and>
     (Dropped \<in> set (fed_workers st) \<longrightarrow> fed_done st \<or> fed_stopped st) \<and>
     (\<exists>outs. in_order services outcome st outs)"

lemma in_order_workers:
  "in_order services outcome (st\<lparr>fed_workers := ws\<rparr>) outs = in_order services outcome st outs"
  "in_order services outcome (st\<lparr>fed_done := d\<rparr>) outs = in_order services outcome st outs"
  by (simp_all add: in_order_def)

lemma fed_inv_workers:
  assumes "fed_inv concurrency services outcome st" and "i < length (fed_workers st)"
    and "running ((fed_workers st)[i := w]) \<le> concurrency"
    and "\<And>evs. w = Sent evs \<Longrightarrow> may_send services outcome i evs"
    and "w = Dropped \<Longrightarrow> fed_done st \<or> fed_stopped st"
  shows "fed_inv concurrency services outcome (st\<lparr>fed_workers := (fed_workers st)[i := w]\<rparr>)"
  using assms by (auto simp: fed_inv_def in_order_workers nth_list_update dest!: set_update_subset_insert [THEN subsetD])

lemma in_order_deliver:
  assumes "in_order services outcome st outs" and "\<not> fed_stopped st" and "may_send services outcome (fed_next st) evs"
    and "emit accepts (fed_events st) evs = (go_on, log)"
  shows "in_order services outcome
    (st\<lparr>fed_next := Suc (fed_next st), fed_events := log, fed_stopped := \<not> go_on\<rparr>) (outs @ [evs])"
  using assms emit_found [OF assms(4)] by (auto simp: in_order_def nth_append less_Suc_eq)

lemma fed_step_inv:
  assumes "fed_step concurrency services outcome accepts st st'" and "fed_inv concurrency services outcome st"
  shows "fed_inv concurrency services outcome st'"
  using assms
proof (cases rule: fed_step.cases)
  case (start i)
  then show ?thesis by (auto intro!: fed_inv_workers [OF assms(2)] simp: running_start)
next
  case (give_up i)
  have "running (fed_workers st) \<le> concurrency" using assms(2) by (simp add: fed_inv_def)
  then show ?thesis
    using give_up running_sent [OF give_up(2), of "Sent [DiscoveryIssue canceled (services ! i)]"]
    by (auto intro!: fed_inv_workers [OF assms(2)] simp: may_send_def intro: le_trans)
next
  case (drop_events i)
  have "running (fed_workers st) \<le> concurrency" using assms(2) by (simp add: fed_inv_def)
  then show ?thesis
    using drop_events running_sent [OF drop_events(2), of Dropped]
    by (auto intro!: fed_inv_workers [OF assms(2)] intro: le_trans)
next
  case (finish i evs)
  have "running (fed_workers st) \<le> concurrency" using assms(2) by (simp add: fed_inv_def)
  then show ?thesis
    using finish running_sent [OF finish(2), of "Sent evs"]
    by (auto intro!: fed_inv_workers [OF assms(2)] simp: may_send_def intro: le_trans)
next
  case (deliver evs go_on log)
  then obtain outs where "in_order services outcome st outs" "may_send services outcome (fed_next st) evs"
    using assms(2) by (auto simp: fed_inv_def)
  from in_order_deliver [OF this(1) deliver(2) this(2) deliver(5)] show ?thesis
    using assms(2) deliver by (auto simp: fed_inv_def)
next
  case expire
  then show ?thesis using assms(2) by (simp add: fed_inv_def in_order_workers)
next
  case interrupt
  then show ?thesis using assms(2) by (auto simp: fed_inv_def in_order_def)
qed

lemma fed_initial_inv: "fed_inv concurrency services outcome (fed_initial services)"
  by (auto simp: fed_inv_def fed_initial_def in_order_def running_def intro: exI [of _ "[]"])

lemma federated_run_inv:
  assumes "federated_run env factory options maximum concurrency services accepts st"
  shows "fed_inv concurrency services (service_outcome env factory options maximum services) st"
  using assms unfolding federated_run_def
  by (induction rule: rtranclp_induct) (auto intro: fed_initial_inv fed_step_inv)

lemma may_send_answer:
  "0 < maximum \<Longrightarrow> may_send services (service_outcome env factory options maximum services) i evs \<Longrightarrow>
    service_answer (services ! i) maximum evs"
  using searchService_answer [of maximum "services ! i" env factory options]
  by (auto simp: may_send_def service_outcome_def service_answer_def [of _ _ "[DiscoveryIssue canceled _]"])

text \<open>C38: however the goroutines interleave and whenever the context ends, no more than \<open>concurrency\<close> searches run at a
  time, and what the caller is given is, up to where it stopped, the answers of the Services in the order of the
  Directory: at most \<open>maximum\<close> Offerings of each, or one issue.\<close>

theorem federated_order:
  assumes "federated_run env factory options maximum concurrency services accepts st" and "0 < maximum"
  shows "running (fed_workers st) \<le> concurrency \<and>
    (\<exists>outs. length outs = fed_next st \<and> fed_next st \<le> length services \<and>
      (\<forall>i<length outs. service_answer (services ! i) maximum (outs ! i)) \<and>
      prefix (found_events (fed_events st)) (concat outs) \<and>
      (\<not> fed_stopped st \<longrightarrow> found_events (fed_events st) = concat outs))"
  using federated_run_inv [OF assms(1)] may_send_answer [OF assms(2)]
  unfolding fed_inv_def in_order_def by meson

text \<open>Every step that is not the end of the context brings the run forward.\<close>

fun worker_stage :: "worker \<Rightarrow> nat" where
  "worker_stage Queued = 0"
| "worker_stage Running = 1"
| "worker_stage (Sent evs) = 2"
| "worker_stage Dropped = 2"

definition fed_work :: "federated_state \<Rightarrow> nat" where
  "fed_work st = fed_next st + sum_list (map worker_stage (fed_workers st)) + (if fed_stopped st then 1 else 0)"

lemma fed_work_update:
  assumes "i < length (fed_workers st)" and "worker_stage (fed_workers st ! i) < worker_stage w"
  shows "fed_work st < fed_work (st\<lparr>fed_workers := (fed_workers st)[i := w]\<rparr>)"
proof -
  let ?ws = "fed_workers st"
  have parts: "sum_list (map worker_stage (xs @ y # zs)) =
      sum_list (map worker_stage xs) + worker_stage y + sum_list (map worker_stage zs)" for xs y zs
    by simp
  have "sum_list (map worker_stage ?ws) = sum_list (map worker_stage (take i ?ws)) + worker_stage (?ws ! i) +
      sum_list (map worker_stage (drop (Suc i) ?ws))"
    using assms(1) parts by (metis id_take_nth_drop)
  moreover have "sum_list (map worker_stage (?ws[i := w])) = sum_list (map worker_stage (take i ?ws)) +
      worker_stage w + sum_list (map worker_stage (drop (Suc i) ?ws))"
    using assms(1) parts by (metis upd_conv_take_nth_drop)
  ultimately show ?thesis using assms(2) by (simp add: fed_work_def)
qed

lemma finish_worker:
  assumes "i < length (fed_workers st)" and "fed_workers st ! i = Running"
  shows "\<exists>st'. fed_step concurrency services (service_outcome env factory options maximum services) accepts st st' \<and>
    fed_work st < fed_work st'"
proof -
  obtain evs where "service_outcome env factory options maximum services i evs" by (auto simp: service_outcome_def)
  then have "fed_step concurrency services (service_outcome env factory options maximum services) accepts st
      (st\<lparr>fed_workers := (fed_workers st)[i := Sent evs]\<rparr>)"
    by (intro fed_step.finish assms)
  moreover have "fed_work st < fed_work (st\<lparr>fed_workers := (fed_workers st)[i := Sent evs]\<rparr>)"
    using assms by (intro fed_work_update) simp_all
  ultimately show ?thesis by blast
qed

text \<open>C39: as long as the caller goes on and there are Services left, some step brings the run forward, whatever the
  goroutines have done so far: the reading loop is never stuck behind a search that cannot start.\<close>

theorem federated_progress:
  assumes "federated_run env factory options maximum concurrency services accepts st" and "0 < concurrency"
    and "\<not> fed_stopped st" and "fed_next st < length services"
  shows "\<exists>st'. fed_step concurrency services (service_outcome env factory options maximum services) accepts st st' \<and>
    fed_work st < fed_work st'"
proof -
  let ?next = "fed_next st"
  have len: "?next < length (fed_workers st)" and dropped: "Dropped \<in> set (fed_workers st) \<Longrightarrow> fed_done st"
    using federated_run_inv [OF assms(1)] assms(3,4) by (simp_all add: fed_inv_def)
  show ?thesis
  proof (cases "fed_workers st ! ?next")
    case (Sent evs)
    obtain go_on log where "emit accepts (fed_events st) evs = (go_on, log)" by (cases "emit accepts (fed_events st) evs")
    from fed_step.deliver [OF assms(3) len Sent this] show ?thesis
      using assms(3) by (intro exI conjI) (auto simp: fed_work_def)
  next
    case Dropped
    then have "fed_done st" using dropped len by (metis nth_mem)
    from fed_step.interrupt [OF assms(3) len this] show ?thesis
      using assms(3) by (intro exI conjI) (auto simp: fed_work_def)
  next
    case Running
    then show ?thesis by (rule finish_worker [OF len])
  next
    case Queued
    show ?thesis
    proof (cases "running (fed_workers st) < concurrency")
      case True
      have "fed_work st < fed_work (st\<lparr>fed_workers := (fed_workers st)[?next := Running]\<rparr>)"
        using len Queued by (intro fed_work_update) simp_all
      with fed_step.start [OF len Queued True] show ?thesis by blast
    next
      case False
      then have "filter (\<lambda>w. w = Running) (fed_workers st) \<noteq> []"
        using assms(2) by (auto simp: running_def)
      then obtain i where "i < length (fed_workers st)" "fed_workers st ! i = Running"
        by (auto simp: filter_empty_conv in_set_conv_nth)
      then show ?thesis by (rule finish_worker)
    qed
  qed
qed

subsection \<open>Which Services are searched\<close>

definition gathered_services ::
  "(directory_service \<Rightarrow> bool) \<Rightarrow> int \<Rightarrow> directory_error option \<times> directory_service list \<Rightarrow> bool" where
  "gathered_services good maximum x \<longleftrightarrow> list_all good (snd x) \<and> int (length (snd x)) \<le> maximum"

definition gathering_services ::
  "(directory_service \<Rightarrow> bool) \<Rightarrow> int \<Rightarrow> int \<times> directory_error option \<times> directory_service list \<Rightarrow> bool" where
  "gathering_services good maximum st \<longleftrightarrow>
     list_all good (snd (snd st)) \<and> fst st = int (length (snd (snd st))) \<and> fst st < maximum"

lemma yield_items_gathering:
  "list_all good xs \<Longrightarrow> gathering_services good maximum (count, x) \<Longrightarrow>
    yield_items maximum gather_service xs (count, x) = (go_on, st') \<Longrightarrow>
    if go_on then gathering_services good maximum st' else gathered_services good maximum (snd st')"
proof (induction xs arbitrary: count x)
  case Nil
  then show ?case by auto
next
  case (Cons item rest)
  obtain err found where x: "x = (err, found)" by (cases x)
  show ?case
  proof (cases "maximum \<noteq> 0 \<and> count + 1 \<ge> maximum")
    case True
    with Cons.prems x show ?thesis
      by (auto simp: gather_service_def gathering_services_def gathered_services_def)
  next
    case False
    then have "gathering_services good maximum (count + 1, err, found @ [item])"
      using Cons.prems x by (auto simp: gathering_services_def)
    then show ?thesis
      using Cons.IH [of "count + 1" "(err, found @ [item])"] Cons.prems x False
      by (auto simp: gather_service_def split: if_splits)
  qed
qed

lemma gather_service_consumes:
  assumes "0 < maximum"
  shows "consumes (\<lambda>page. list_all good (rs_items page)) (gathering_services good (int maximum))
    (\<lambda>st. gathered_services good (int maximum) (snd st))
    (directory_items_body \<lparr>io_max_items = int maximum, io_max_pages = 0, io_on_issue = (\<lambda>_ x. x)\<rparr> gather_service)"
proof -
  let ?body = "directory_items_body \<lparr>io_max_items = int maximum, io_max_pages = 0, io_on_issue = (\<lambda>_ x. x)\<rparr> gather_service"
  have issues: "fold (\<lambda>_ x. x) is x = x" for "is" :: "issue_report list" and x :: "directory_error option \<times> directory_service list"
    by (induction "is") simp_all
  have page: "?body (Inr page) st = yield_items (int maximum) gather_service (rs_items page) st" for page st
    by (cases st) (simp add: directory_items_body_def issues)
  have weaken: "gathering_services good (int maximum) st \<Longrightarrow> gathered_services good (int maximum) (snd st)" for st
    by (simp add: gathering_services_def gathered_services_def)
  have err: "snd (snd (?body (Inl e) st)) = (Some e, snd (snd st))" for e st
    by (cases st) (simp add: directory_items_body_def gather_service_def split: prod.splits)
  have items: "if go_on then gathering_services good (int maximum) st' else gathered_services good (int maximum) (snd st')"
    if "list_all good (rs_items page)" "gathering_services good (int maximum) st" "?body (Inr page) st = (go_on, st')"
    for page st go_on st'
    using yield_items_gathering [of good "rs_items page" "int maximum" "fst st" "snd st" go_on st'] that
    by (simp add: page)
  have failed: "gathered_services good (int maximum) (snd (snd (?body (Inl e) st)))"
    if "gathering_services good (int maximum) st" for e st
    using weaken [OF that] by (simp add: err gathered_services_def)
  show ?thesis
    unfolding consumes_def using items weaken failed by (metis (full_types))
qed


subsection \<open>A run\<close>

definition example_found_service :: directory_service where
  "example_found_service =
     \<lparr>sv_additional = None, sv_description = ''Lamps'', sv_documentation_url = [], sv_indexed_at = 0,
       sv_keywords = [], sv_language = ''en'', sv_localizations = [''en''], sv_name = ''Lamps'',
       sv_operations = [], sv_protocols = None, sv_origin = ''https://s.co'', sv_status_url = [],
       sv_support_url = [], sv_website_url = []\<rparr>"

definition example_offerings :: offering_search where
  "example_offerings =
     \<lparr>so_list = \<lparr>lo_limit = 0, lo_max_items = 0, lo_max_pages = 0, lo_representation = []\<rparr>, so_query = ''lamp'',
       so_collection = [], so_filters = GSlice None, so_descendants = False, so_refinements = GSlice None,
       so_sort = []\<rparr>"

definition refusing_factory :: "directory_service \<Rightarrow> agent_error + service_client" where
  "refusing_factory service = Inl (Message ''refused'')"

text \<open>The one Service is searched and has been answered, not yet delivered.\<close>

definition example_federated :: federated_state where
  "example_federated =
     (fed_initial [example_found_service])\<lparr>fed_workers := [Sent [DiscoveryIssue (Message ''refused'') example_found_service]]\<rparr>"

lemma example_federated_run:
  "federated_run (example_agent_env example_net) refusing_factory example_offerings 10 4 [example_found_service]
     (\<lambda>_. True) example_federated"
proof -
  let ?step = "fed_step 4 [example_found_service]
    (service_outcome (example_agent_env example_net) refusing_factory example_offerings 10 [example_found_service]) (\<lambda>_. True)"
  let ?middle = "(fed_initial [example_found_service])\<lparr>fed_workers := [Running]\<rparr>"
  have "?step (fed_initial [example_found_service]) ?middle"
    using fed_step.start [of 0 "fed_initial [example_found_service]" 4] by (simp add: fed_initial_def running_def)
  moreover have "service_outcome (example_agent_env example_net) refusing_factory example_offerings 10 [example_found_service] 0
      [DiscoveryIssue (Message ''refused'') example_found_service]"
    by (simp add: service_outcome_def searchService_def refusing_factory_def)
  then have "?step ?middle (?middle\<lparr>fed_workers := (fed_workers ?middle)
      [0 := Sent [DiscoveryIssue (Message ''refused'') example_found_service]]\<rparr>)"
    by (intro fed_step.finish) (simp_all add: fed_initial_def)
  then have "?step ?middle example_federated"
    by (simp add: example_federated_def fed_initial_def)
  ultimately show ?thesis
    unfolding federated_run_def by (intro rtranclp.rtrancl_into_rtrancl [OF r_into_rtranclp])
qed

theorem federated_order_witness:
  "running (fed_workers example_federated) \<le> 4 \<and>
    (\<exists>outs. length outs = fed_next example_federated \<and>
      prefix (found_events (fed_events example_federated)) (concat outs))"
  using federated_order [OF example_federated_run] by auto

theorem federated_progress_witness:
  "\<exists>st'. fed_step 4 [example_found_service]
      (service_outcome (example_agent_env example_net) refusing_factory example_offerings 10 [example_found_service])
      (\<lambda>_. True) example_federated st' \<and> fed_work example_federated < fed_work st'"
  using federated_progress [OF example_federated_run] by (simp add: example_federated_def fed_initial_def)

subsection \<open>A Directory with two unusable records\<close>

definition unusable_response :: in_response where
  "unusable_response =
     \<lparr>in_status = 200, in_header = [(''Content-Type'', [''application/json''])],
       in_length = int (length example_results), in_body = example_results, in_failure = None\<rparr>"

definition unusable_net :: "unit network" where
  "unusable_net = \<lparr>net_do = (\<lambda>req w. (Inr unusable_response, w)), net_now = (\<lambda>w. (0, w))\<rparr>"

definition example_federated_request :: federated_request where
  "example_federated_request =
     \<lparr>fr_concurrency = 0, fr_max_offerings = 0, fr_max_services = 0, fr_offerings = example_offerings,
       fr_services = \<lparr>sr_filters = None, sr_limit = 0, sr_query = []\<rparr>\<rparr>"

lemma unusable_value:
  "parse_value 44 example_results = Some (JObj [(''items'', JArr [JBool True, JNull])], [])"
  by code_simp

lemma unusable_facts: "length example_results = 21" "utf8_valid example_results"
proof -
  show "length example_results = 21" by (simp add: example_results_def)
  have "list_all (\<lambda>c. byte c < 128) example_results" by code_simp
  then show "utf8_valid example_results" by (intro utf8_valid_ascii) (simp add: ascii_def list_all_iff)
qed

lemma unusable_consumed: "consumeDirectory unusable_response = Inr example_results"
  using unusable_facts unusable_value looping_facts(1)
  by (simp add: consumeDirectory_def unusable_response_def read_response_def maximumResponseBytes_def
      successful_def read_json_def skip_space_def)

lemma unusable_page:
  "\<exists>issues. parseSearchPage env example_results =
     Inr \<lparr>rs_additional = None, rs_facets = None, rs_issues = issues, rs_items = [], rs_next = []\<rparr>"
  using unusable_value unusable_facts
  by (simp add: parseSearchPage_def parsePage_def decode_text_def skip_space_def parse_map_def page_values_def
      optional_facets_def optionalText_def parseService_def checked_origin_def requiredText_def decode_string_def
      cloneAdditional_def)

lemma unusable_request:
  "requestJSON unusable_net sandbox_client ''POST'' (join_path (dc_origin sandbox_client) [''v1'', ''services'', ''search''])
     (Some body) w = (Inr example_results, w)"
proof -
  have "\<not> redirectStatus (in_status unusable_response)" by code_simp
  moreover have "Parse (url_string (join_path (dc_origin sandbox_client) [''v1'', ''services'', ''search''])) \<noteq> None"
    "list_all header_field_byte ''POST''"
    by code_simp+
  ultimately show ?thesis
    by (simp add: requestJSON_def request_loop.simps NewRequest_def unusable_net_def unusable_consumed)
qed

lemma unusable_start:
  "federated_start example_directory_env unusable_net sandbox_client example_federated_request () =
     (Inr ([], 10, 4), ())"
proof -
  have limits: "federated_limits example_federated_request = Inr (10, 10, 4)"
    by (simp add: federated_limits_def bounded_option_def example_federated_request_def)
  have search: "\<exists>body. validateSearchRequest (fr_services example_federated_request) = Inr body"
    by (simp add: validateSearchRequest_def normalizedSearchRequest_def example_federated_request_def
        guard_res_def validate_optional_filters_def)
  obtain issues where page: "parseSearchPage example_directory_env example_results =
      Inr \<lparr>rs_additional = None, rs_facets = None, rs_issues = issues, rs_items = [], rs_next = []\<rparr>"
    using unusable_page by blast
  have "fold (\<lambda>_ x. x) issues x = x" for x :: "directory_error option \<times> directory_service list"
    by (induction issues) simp_all
  then show ?thesis
    using search page
    by (auto simp: federated_start_def limits gather_services_def sequence_items_def maximumItems_def
        SearchServices_def searchResponses_def pageBudget_def defaultPages_def traversePages_def unusable_request
        directory_items_body_def eval_nat_numeral)
qed


end
